(* ===== verification/Tename_Prelude.thy ===== *)
theory Tename_Prelude
  imports
    Complex_Main
    "HOL-Library.AList"
    "HOL-Library.List_Lexorder"
    "HOL-Library.Char_ord"
    "HOL-Library.Word"
    "HOL-Library.Sublist"
begin

text \<open>
  Shared vocabulary of the development: the Python values the runtime passes around
  (JSON payloads, strings, dictionaries, UUIDs) with the operations of the standard
  library the source applies to them, and the generic lemmas the component theories
  use.

  A Python \<open>str\<close> is a \<open>string\<close>, a list of characters read as the code points U+0000 to
  U+00FF; \<open>length\<close> is Python's \<open>len\<close> and \<open>utf8_length\<close> the number of bytes of
  the UTF-8 encoding. A \<open>dict\<close> with string keys is an association list in insertion
  order (\<open>AList.update\<close> is item assignment, \<open>map_of\<close> is \<open>get\<close>). A float inside a
  payload is represented by the text of its \<open>repr\<close>, which determines it.
\<close>

section \<open>Collections of facts\<close>

named_theorems returns_iff
  \<comment> \<open>characterisations of a successful return, one per partial operation\<close>

named_theorems frame
  \<comment> \<open>which part of the state an operation leaves alone\<close>

section \<open>Results\<close>

text \<open>A raise is \<open>Inl\<close>, a return is \<open>Inr\<close>.\<close>

definition bindE :: "'e + 'a \<Rightarrow> ('a \<Rightarrow> 'e + 'b) \<Rightarrow> 'e + 'b" where
  "bindE r f = (case r of Inl e \<Rightarrow> Inl e | Inr x \<Rightarrow> f x)"

lemma bindE_simps [simp]:
  "bindE (Inl e) f = Inl e"
  "bindE (Inr x) f = f x"
  by (simp_all add: bindE_def)

lemma bindE_Inr [returns_iff]:
  "bindE r f = Inr y \<longleftrightarrow> (\<exists>x. r = Inr x \<and> f x = Inr y)"
  by (cases r) auto

lemma bindE_Inl [returns_iff]:
  "bindE r f = Inl e \<longleftrightarrow> r = Inl e \<or> (\<exists>x. r = Inr x \<and> f x = Inl e)"
  by (cases r) auto

definition is_return :: "'e + 'a \<Rightarrow> bool" where
  "is_return r = (case r of Inl _ \<Rightarrow> False | Inr _ \<Rightarrow> True)"

lemma is_return_simps [simp]:
  "is_return (Inr x)" "\<not> is_return (Inl e)"
  by (simp_all add: is_return_def)

lemma is_return_iff: "is_return r \<longleftrightarrow> (\<exists>x. r = Inr x)"
  by (cases r) auto

text \<open>A loop whose body may raise.\<close>

fun foldE :: "('s \<Rightarrow> 'a \<Rightarrow> 'e + 's) \<Rightarrow> 's \<Rightarrow> 'a list \<Rightarrow> 'e + 's" where
  "foldE f s [] = Inr s"
| "foldE f s (x # xs) = bindE (f s x) (\<lambda>s'. foldE f s' xs)"

lemma foldE_append: "foldE f s (xs @ ys) = bindE (foldE f s xs) (\<lambda>s'. foldE f s' ys)"
proof (induction xs arbitrary: s)
  case (Cons x xs)
  then show ?case by (cases "f s x") simp_all
qed simp

lemma foldE_invariant:
  assumes "foldE f s xs = Inr s'" and "P s"
    and "\<And>s x s'. x \<in> set xs \<Longrightarrow> P s \<Longrightarrow> f s x = Inr s' \<Longrightarrow> P s'"
  shows "P s'"
  using assms
proof (induction xs arbitrary: s)
  case (Cons x xs)
  then show ?case by (auto simp: bindE_Inr)
qed simp

section \<open>JSON values\<close>

datatype json =
    JNull
  | JBool bool
  | JInt int
  | JFloat string
  | JStr string
  | JList "json list"
  | JObj "(string \<times> json) list"

type_synonym dict = "(string \<times> json) list"

text \<open>\<open>d.get(k)\<close>, \<open>d.get(k, default)\<close>: a missing key gives \<open>None\<close> (JSON \<open>null\<close>) or the
  default.\<close>

definition dget :: "dict \<Rightarrow> string \<Rightarrow> json" where
  "dget d k = (case map_of d k of None \<Rightarrow> JNull | Some v \<Rightarrow> v)"

definition dget_or :: "dict \<Rightarrow> string \<Rightarrow> json \<Rightarrow> json" where
  "dget_or d k v0 = (case map_of d k of None \<Rightarrow> v0 | Some v \<Rightarrow> v)"

lemma dget_Nil [simp]: "dget [] k = JNull"
  by (simp add: dget_def)

lemma dget_Cons [simp]: "dget ((k', v) # d) k = (if k = k' then v else dget d k)"
  by (simp add: dget_def)

lemma dget_or_Nil [simp]: "dget_or [] k v0 = v0"
  by (simp add: dget_or_def)

lemma dget_or_Cons [simp]:
  "dget_or ((k', v) # d) k v0 = (if k = k' then v else dget_or d k v0)"
  by (simp add: dget_or_def)

lemma dget_update [simp]:
  "dget (AList.update k v d) k' = (if k' = k then v else dget d k')"
  by (simp add: dget_def update_conv)

text \<open>\<open>isinstance(v, str)\<close> and its kin, read through an option. Python's \<open>bool\<close> is a
  subclass of \<open>int\<close>, so \<open>isinstance(True, int)\<close> holds.\<close>

fun as_str :: "json \<Rightarrow> string option" where
  "as_str (JStr s) = Some s"
| "as_str _ = None"

fun as_int :: "json \<Rightarrow> int option" where
  "as_int (JInt i) = Some i"
| "as_int (JBool b) = Some (if b then 1 else 0)"
| "as_int _ = None"

fun as_obj :: "json \<Rightarrow> dict option" where
  "as_obj (JObj d) = Some d"
| "as_obj _ = None"

fun as_list :: "json \<Rightarrow> json list option" where
  "as_list (JList xs) = Some xs"
| "as_list _ = None"

lemma as_str_Some [simp]: "as_str v = Some s \<longleftrightarrow> v = JStr s"
  by (cases v) auto

lemma as_obj_Some [simp]: "as_obj v = Some d \<longleftrightarrow> v = JObj d"
  by (cases v) auto

lemma as_list_Some [simp]: "as_list v = Some xs \<longleftrightarrow> v = JList xs"
  by (cases v) auto

text \<open>Truth value of a payload value: \<open>bool(v)\<close>.\<close>

fun truthy :: "json \<Rightarrow> bool" where
  "truthy JNull = False"
| "truthy (JBool b) = b"
| "truthy (JInt i) = (i \<noteq> 0)"
| "truthy (JFloat r) = (r \<noteq> ''0.0'' \<and> r \<noteq> ''-0.0'')"
| "truthy (JStr s) = (s \<noteq> [])"
| "truthy (JList xs) = (xs \<noteq> [])"
| "truthy (JObj d) = (d \<noteq> [])"

text \<open>Exceptions of the language the source can run into without raising them itself.\<close>

datatype py_error = TypeError | KeyError string | AttributeError | PydanticError

section \<open>Lists\<close>

lemma find_SomeD: "find P xs = Some x \<Longrightarrow> x \<in> set xs \<and> P x"
  by (auto simp: find_Some_iff in_set_conv_nth)

lemma find_append:
  "find P (xs @ ys) = (case find P xs of None \<Rightarrow> find P ys | Some x \<Rightarrow> Some x)"
  by (induction xs) auto

lemma upto_snoc: "0 \<le> (n::int) \<Longrightarrow> [1..n + 1] = [1..n] @ [n + 1]"
  using upto_rec2[of 1 "n + 1"] by simp

section \<open>Text\<close>

fun nat_digits :: "nat \<Rightarrow> string" where
  "nat_digits n =
     (if n < 10 then [char_of (48 + n)]
      else nat_digits (n div 10) @ [char_of (48 + n mod 10)])"

declare nat_digits.simps [simp del]

definition int_str :: "int \<Rightarrow> string" where
  "int_str i = (if i < 0 then CHR ''-'' # nat_digits (nat (- i)) else nat_digits (nat i))"

lemma nat_digits_small [simp]: "n < 10 \<Longrightarrow> nat_digits n = [char_of (48 + n)]"
  by (subst nat_digits.simps) simp

lemma nat_digits_nonempty [simp]: "nat_digits n \<noteq> []"
  by (subst nat_digits.simps) simp

text \<open>\<open>str.isspace\<close> on one character, \<open>strip\<close> without argument, \<open>lower\<close>.\<close>

definition is_space :: "char \<Rightarrow> bool" where
  "is_space c = (let n = (of_char c :: nat) in
     (9 \<le> n \<and> n \<le> 13) \<or> (28 \<le> n \<and> n \<le> 32) \<or> n = 133 \<or> n = 160)"

definition strip :: "string \<Rightarrow> string" where
  "strip s = rev (dropWhile is_space (rev (dropWhile is_space s)))"

definition lower_char :: "char \<Rightarrow> char" where
  "lower_char c = (let n = (of_char c :: nat) in
     if (65 \<le> n \<and> n \<le> 90) \<or> (192 \<le> n \<and> n \<le> 222 \<and> n \<noteq> 215) then char_of (n + 32) else c)"

definition lower :: "string \<Rightarrow> string" where
  "lower s = map lower_char s"

text \<open>\<open>p in s\<close>, \<open>s.startswith(p)\<close>, \<open>s.endswith(p)\<close>, \<open>sep.join(xs)\<close>.\<close>

fun contains_str :: "string \<Rightarrow> string \<Rightarrow> bool" where
  "contains_str p [] = (p = [])"
| "contains_str p (c # s) = (take (length p) (c # s) = p \<or> contains_str p s)"

definition starts_with :: "string \<Rightarrow> string \<Rightarrow> bool" where
  "starts_with p s = (take (length p) s = p)"

fun join_str :: "string \<Rightarrow> string list \<Rightarrow> string" where
  "join_str sep [] = []"
| "join_str sep [x] = x"
| "join_str sep (x # y # xs) = x @ sep @ join_str sep (y # xs)"

lemma contains_str_sublist: "contains_str p s \<longleftrightarrow> sublist p s"
proof (induction s)
  case Nil
  then show ?case by simp
next
  case (Cons c s)
  have "take (length p) (c # s) = p \<longleftrightarrow> prefix p (c # s)"
    by (metis append_eq_conv_conj prefix_def)
  with Cons show ?case
    by (simp only: contains_str.simps sublist_Cons_right)
qed

text \<open>Length of the UTF-8 encoding: one byte below U+0080, two up to U+00FF.\<close>

definition utf8_length :: "string \<Rightarrow> nat" where
  "utf8_length s = sum_list (map (\<lambda>c. if (of_char c :: nat) < 128 then 1 else 2) s)"

lemma utf8_length_simps [simp]:
  "utf8_length [] = 0"
  "utf8_length (c # s) = (if (of_char c :: nat) < 128 then 1 else 2) + utf8_length s"
  "utf8_length (s @ t) = utf8_length s + utf8_length t"
  by (simp_all add: utf8_length_def)

lemma utf8_length_ge: "length s \<le> utf8_length s"
  by (induction s) auto

end
