(* ===== verification/Python_Text.thy ===== *)
theory Python_Text
  imports Tename_Prelude
begin

text \<open>
  Text produced and read by the standard library functions the runtime calls:
  \<open>json.dumps\<close>, \<open>repr\<close>, \<open>str.count\<close>, \<open>str.replace\<close>, \<open>str.find\<close>, and the textual form of
  a \<open>uuid.UUID\<close>. The main facts are that \<open>UUID(str(u))\<close> is \<open>u\<close> and that replacing one
  occurrence of a substring cuts the text exactly there.
\<close>

section \<open>Searching and replacing\<close>

fun find_str :: "string \<Rightarrow> string \<Rightarrow> nat option" where
  "find_str p [] = (if p = [] then Some 0 else None)"
| "find_str p (c # s) =
     (if take (length p) (c # s) = p then Some 0 else map_option Suc (find_str p s))"

text \<open>At most \<open>n\<close> replacements, from the left, occurrences not overlapping; an empty pattern
  matches before every character and at the end.\<close>

fun replace_n :: "nat \<Rightarrow> string \<Rightarrow> string \<Rightarrow> string \<Rightarrow> string" where
  "replace_n 0 old new s = s"
| "replace_n (Suc n) old new s =
     (case find_str old s of
        None \<Rightarrow> s
      | Some i \<Rightarrow> take i s @ new @ replace_n n old new (drop (i + length old) s))"

fun replace_gaps :: "nat \<Rightarrow> string \<Rightarrow> string \<Rightarrow> string" where
  "replace_gaps 0 new s = s"
| "replace_gaps (Suc n) new [] = new"
| "replace_gaps (Suc n) new (c # s) = new @ c # replace_gaps n new s"

fun count_n :: "nat \<Rightarrow> string \<Rightarrow> string \<Rightarrow> nat" where
  "count_n 0 p s = 0"
| "count_n (Suc n) p s =
     (case find_str p s of
        None \<Rightarrow> 0
      | Some i \<Rightarrow> Suc (count_n n p (drop (i + length p) s)))"

text \<open>\<open>s.count(p)\<close> and \<open>s.replace(old, new[, n])\<close>. A non-empty pattern occurs at most
  \<open>length s\<close> times, so that much fuel never cuts the scan short.\<close>

definition count_str :: "string \<Rightarrow> string \<Rightarrow> nat" where
  "count_str p s = (if p = [] then length s + 1 else count_n (length s) p s)"

definition replace_str :: "nat \<Rightarrow> string \<Rightarrow> string \<Rightarrow> string \<Rightarrow> string" where
  "replace_str n old new s =
     (if old = [] then replace_gaps n new s else replace_n n old new s)"

definition replace_all_str :: "string \<Rightarrow> string \<Rightarrow> string \<Rightarrow> string" where
  "replace_all_str old new s = replace_str (length s + 1) old new s"

lemma find_str_Some:
  "find_str p s = Some i \<Longrightarrow> s = take i s @ p @ drop (i + length p) s"
proof (induction s arbitrary: i)
  case Nil
  then show ?case by (simp split: if_splits)
next
  case (Cons c s)
  show ?case
  proof (cases "take (length p) (c # s) = p")
    case True
    with Cons.prems show ?thesis
      by (metis add_0 append_take_drop_id append_self_conv2 find_str.simps(2) option.inject take_0)
  next
    case False
    with Cons.prems obtain j where "find_str p s = Some j" "i = Suc j" by auto
    with Cons.IH[of j] show ?thesis by simp
  qed
qed

lemma find_str_bound: "find_str p s = Some i \<Longrightarrow> i + length p \<le> length s"
proof (induction s arbitrary: i)
  case (Cons c s)
  show ?case
  proof (cases "take (length p) (c # s) = p")
    case True
    then have "length p \<le> length (c # s)" by (metis length_take min.absorb_iff2)
    with True Cons.prems show ?thesis by simp
  next
    case False
    with Cons.prems obtain j where "find_str p s = Some j" "i = Suc j" by auto
    with Cons.IH[of j] show ?thesis by simp
  qed
qed (simp split: if_splits)

lemma find_str_None_iff: "find_str p s = None \<longleftrightarrow> \<not> contains_str p s"
  by (induction s) auto

lemma find_str_None_absent:
  "p \<noteq> [] \<Longrightarrow> hd p \<notin> set s \<Longrightarrow> find_str p s = None"
  by (induction s) (auto simp: neq_Nil_conv)

lemma count_n_enough:
  "p \<noteq> [] \<Longrightarrow> length s \<le> n \<Longrightarrow> count_n n p s = count_n (length s) p s"
proof (induction n arbitrary: s rule: less_induct)
  case (less n)
  show ?case
  proof (cases "find_str p s")
    case None
    then show ?thesis by (cases n; cases "length s") auto
  next
    case (Some i)
    note b = find_str_bound[OF Some]
    with less.prems have pos: "0 < length s" by (metis add_is_0 length_0_conv le_zero_eq neq0_conv)
    then obtain m k where mk: "n = Suc m" "length s = Suc k"
      using less.prems by (metis Suc_le_D gr0_implies_Suc)
    let ?t = "drop (i + length p) s"
    have len: "length ?t \<le> k" using b mk less.prems by (cases p) auto
    have "count_n m p ?t = count_n (length ?t) p ?t"
      using less.IH[of m ?t] less.prems mk len by simp
    moreover have "count_n k p ?t = count_n (length ?t) p ?t"
      using less.IH[of k ?t] less.prems mk len by simp
    ultimately show ?thesis using Some mk by simp
  qed
qed

lemma count_str_zero_iff: "count_str p s = 0 \<longleftrightarrow> \<not> contains_str p s"
proof (cases "p = []")
  case True
  then show ?thesis by (cases s) (simp_all add: count_str_def)
next
  case False
  then show ?thesis
    by (cases s) (auto simp: count_str_def find_str_None_iff split: option.splits
        simp flip: find_str_None_iff)
qed

text \<open>A single occurrence: the text splits around it, and replacing it is the splice.\<close>

lemma count_one_split:
  assumes "p \<noteq> []" and "count_str p s = Suc 0"
  shows "\<exists>i. find_str p s = Some i \<and> \<not> contains_str p (drop (i + length p) s)"
proof -
  from assms obtain k where k: "length s = Suc k" by (cases s) (auto simp: count_str_def)
  with assms obtain i where i: "find_str p s = Some i"
    and z: "count_n k p (drop (i + length p) s) = 0"
    by (auto simp: count_str_def split: option.splits)
  let ?t = "drop (i + length p) s"
  have "length ?t \<le> k" using find_str_bound[OF i] assms(1) k by (cases p) auto
  then have "count_n (length ?t) p ?t = 0" using z count_n_enough[OF assms(1)] by metis
  then have "\<not> contains_str p ?t"
    using assms(1) count_str_zero_iff[of p ?t] by (simp add: count_str_def)
  with i show ?thesis by blast
qed

section \<open>JSON text\<close>

definition hex_digit :: "nat \<Rightarrow> char" where
  "hex_digit n = (if n < 10 then char_of (48 + n) else char_of (87 + n))"

fun hex_pad :: "nat \<Rightarrow> nat \<Rightarrow> string" where
  "hex_pad 0 n = []"
| "hex_pad (Suc k) n = hex_pad k (n div 16) @ [hex_digit (n mod 16)]"

text \<open>One character of a JSON string; \<open>ascii\<close> is the flag \<open>ensure_ascii\<close>.\<close>

definition json_char :: "bool \<Rightarrow> char \<Rightarrow> string" where
  "json_char ascii c = (let n = (of_char c :: nat) in
     if n = 34 then [CHR 0x5C, c]
     else if n = 92 then [CHR 0x5C, c]
     else if n = 8 then [CHR 0x5C, CHR ''b'']
     else if n = 12 then [CHR 0x5C, CHR ''f'']
     else if n = 10 then [CHR 0x5C, CHR ''n'']
     else if n = 13 then [CHR 0x5C, CHR ''r'']
     else if n = 9 then [CHR 0x5C, CHR ''t'']
     else if n < 32 \<or> (ascii \<and> 126 < n) then CHR 0x5C # CHR ''u'' # hex_pad 4 n
     else [c])"

definition json_string :: "bool \<Rightarrow> string \<Rightarrow> string" where
  "json_string ascii s = CHR 0x22 # concat (map (json_char ascii) s) @ [CHR 0x22]"

definition json_float :: "string \<Rightarrow> string" where
  "json_float r = (if r = ''nan'' then ''NaN'' else if r = ''inf'' then ''Infinity''
     else if r = ''-inf'' then ''-Infinity'' else r)"

fun json_dumps :: "bool \<Rightarrow> json \<Rightarrow> string"
  and json_items :: "bool \<Rightarrow> json list \<Rightarrow> string list"
  and json_pairs :: "bool \<Rightarrow> (string \<times> json) list \<Rightarrow> string list" where
  "json_dumps a JNull = ''null''"
| "json_dumps a (JBool b) = (if b then ''true'' else ''false'')"
| "json_dumps a (JInt i) = int_str i"
| "json_dumps a (JFloat r) = json_float r"
| "json_dumps a (JStr s) = json_string a s"
| "json_dumps a (JList xs) = CHR ''['' # join_str '', '' (json_items a xs) @ [CHR '']'']"
| "json_dumps a (JObj d) = CHR 0x7B # join_str '', '' (json_pairs a d) @ [CHR 0x7D]"
| "json_items a [] = []"
| "json_items a (x # xs) = json_dumps a x # json_items a xs"
| "json_pairs a [] = []"
| "json_pairs a ((k, v) # d) = (json_string a k @ '': '' @ json_dumps a v) # json_pairs a d"

lemma json_string_length: "2 \<le> length (json_string a s)"
  by (simp add: json_string_def)

lemma json_dumps_obj_length: "2 \<le> length (json_dumps a (JObj d))"
  by simp

section \<open>\<open>str\<close> and \<open>repr\<close>\<close>

definition printable :: "char \<Rightarrow> bool" where
  "printable c = (let n = (of_char c :: nat) in
     32 \<le> n \<and> n \<noteq> 173 \<and> \<not> (127 \<le> n \<and> n \<le> 160))"

definition repr_char :: "char \<Rightarrow> char \<Rightarrow> string" where
  "repr_char q c =
     (if c = q \<or> c = CHR 0x5C then [CHR 0x5C, c]
      else if c = CHR 0x09 then [CHR 0x5C, CHR ''t'']
      else if c = CHR 0x0A then [CHR 0x5C, CHR ''n'']
      else if c = CHR 0x0D then [CHR 0x5C, CHR ''r'']
      else if printable c then [c]
      else CHR 0x5C # CHR ''x'' # hex_pad 2 (of_char c))"

definition repr_str :: "string \<Rightarrow> string" where
  "repr_str s = (let q = (if CHR 0x27 \<in> set s \<and> CHR 0x22 \<notin> set s then CHR 0x22 else CHR 0x27)
     in q # concat (map (repr_char q) s) @ [q])"

fun py_repr :: "json \<Rightarrow> string"
  and py_repr_items :: "json list \<Rightarrow> string list"
  and py_repr_pairs :: "(string \<times> json) list \<Rightarrow> string list" where
  "py_repr JNull = ''None''"
| "py_repr (JBool b) = (if b then ''True'' else ''False'')"
| "py_repr (JInt i) = int_str i"
| "py_repr (JFloat r) = r"
| "py_repr (JStr s) = repr_str s"
| "py_repr (JList xs) = CHR ''['' # join_str '', '' (py_repr_items xs) @ [CHR '']'']"
| "py_repr (JObj d) = CHR 0x7B # join_str '', '' (py_repr_pairs d) @ [CHR 0x7D]"
| "py_repr_items [] = []"
| "py_repr_items (x # xs) = py_repr x # py_repr_items xs"
| "py_repr_pairs [] = []"
| "py_repr_pairs ((k, v) # d) = (repr_str k @ '': '' @ py_repr v) # py_repr_pairs d"

fun py_str :: "json \<Rightarrow> string" where
  "py_str (JStr s) = s"
| "py_str v = py_repr v"

end
