(* ===== verification/Uuid_Text.thy ===== *)
theory Uuid_Text
  imports Python_Text
begin

text \<open>
  \<open>uuid.UUID\<close>: a 128-bit value. \<open>uuid_str\<close> is \<open>str(u)\<close> (32 hexadecimal digits with
  hyphens) and \<open>uuid_parse\<close> is the constructor \<open>UUID(s)\<close>, \<open>None\<close> for the \<open>ValueError\<close>.
  The constructor drops \<open>urn:\<close>, \<open>uuid:\<close>, surrounding braces and every hyphen, wants 32
  characters and reads them with \<open>int(_, 16)\<close>, which also admits surrounding white space,
  a plus sign, a \<open>0x\<close> prefix and single underscores between digits.
\<close>

type_synonym uuid = "128 word"

section \<open>Printing\<close>

definition uuid_str :: "uuid \<Rightarrow> string" where
  "uuid_str u = (let h = hex_pad 32 (unat u) in
     take 8 h @ CHR ''-'' # take 4 (drop 8 h) @ CHR ''-'' # take 4 (drop 12 h)
       @ CHR ''-'' # take 4 (drop 16 h) @ CHR ''-'' # drop 20 h)"

section \<open>Reading\<close>

definition hex_val :: "char \<Rightarrow> nat option" where
  "hex_val c = (let n = (of_char c :: nat) in
     if 48 \<le> n \<and> n \<le> 57 then Some (n - 48)
     else if 97 \<le> n \<and> n \<le> 102 then Some (n - 87)
     else if 65 \<le> n \<and> n \<le> 70 then Some (n - 55) else None)"

fun hex_digits_us :: "nat \<Rightarrow> bool \<Rightarrow> string \<Rightarrow> nat option" where
  "hex_digits_us acc prev [] = (if prev then Some acc else None)"
| "hex_digits_us acc prev (c # s) =
     (if c = CHR ''_'' then (if prev then hex_digits_us acc False s else None)
      else (case hex_val c of
              None \<Rightarrow> None
            | Some d \<Rightarrow> hex_digits_us (acc * 16 + d) True s))"

definition skip_0x :: "string \<Rightarrow> string" where
  "skip_0x s = (case s of
       a # b # r \<Rightarrow>
         (if a = CHR ''0'' \<and> (b = CHR ''x'' \<or> b = CHR ''X'')
          then (case r of c # r' \<Rightarrow> if c = CHR ''_'' then r' else r | [] \<Rightarrow> r) else s)
     | _ \<Rightarrow> s)"

definition int16 :: "string \<Rightarrow> nat option" where
  "int16 s = (let t = strip s;
                  t = (case t of c # r \<Rightarrow> if c = CHR ''+'' then r else t | [] \<Rightarrow> t)
              in hex_digits_us 0 False (skip_0x t))"

definition strip_braces :: "string \<Rightarrow> string" where
  "strip_braces s = (let p = (\<lambda>c. c = CHR 0x7B \<or> c = CHR 0x7D)
     in rev (dropWhile p (rev (dropWhile p s))))"

definition uuid_parse :: "string \<Rightarrow> uuid option" where
  "uuid_parse s =
     (let h = replace_all_str ''uuid:'' [] (replace_all_str ''urn:'' [] s);
          h = filter (\<lambda>c. c \<noteq> CHR ''-'') (strip_braces h)
      in if length h \<noteq> 32 then None else map_option of_nat (int16 h))"

section \<open>Round trip\<close>

definition hex_chars :: "char set" where
  "hex_chars = set ''0123456789abcdef''"

lemma hex_digit_in: "n < 16 \<Longrightarrow> hex_digit n \<in> hex_chars"
proof -
  assume "n < 16"
  then have "n \<in> set [0..<16]" by simp
  moreover have "list_all (\<lambda>n. hex_digit n \<in> hex_chars) [0..<16]" by code_simp
  ultimately show ?thesis by (simp only: list_all_iff)
qed

lemma hex_val_digit: "n < 16 \<Longrightarrow> hex_val (hex_digit n) = Some n"
  by (auto simp: hex_digit_def hex_val_def Let_def)

lemma hex_pad_length [simp]: "length (hex_pad k n) = k"
  by (induction k arbitrary: n) auto

lemma hex_pad_chars: "set (hex_pad k n) \<subseteq> hex_chars"
  by (induction k arbitrary: n) (auto simp: hex_digit_in)

lemma hex_chars_plain:
  assumes "c \<in> hex_chars"
  shows "c \<noteq> CHR ''-''" "c \<noteq> CHR ''_''" "c \<noteq> CHR ''+''" "c \<noteq> CHR ''x''" "c \<noteq> CHR ''X''"
    "c \<noteq> CHR ''u''" "c \<noteq> CHR 0x7B" "c \<noteq> CHR 0x7D" "\<not> is_space c"
  using assms by (auto simp: hex_chars_def is_space_def)

lemma not_hex_chars [simp]:
  "CHR ''-'' \<notin> hex_chars" "CHR ''_'' \<notin> hex_chars" "CHR ''+'' \<notin> hex_chars"
  "CHR ''x'' \<notin> hex_chars" "CHR ''X'' \<notin> hex_chars"
  by (simp_all add: hex_chars_def)

lemma hex_digits_us_append:
  "set s \<subseteq> hex_chars \<Longrightarrow> s \<noteq> [] \<Longrightarrow> hex_digits_us acc p (s @ [hex_digit d]) =
     map_option (\<lambda>m. m * 16 + d) (hex_digits_us acc p s)" if "d < 16"
proof (induction s arbitrary: acc p)
  case (Cons c s)
  have d: "hex_digit d \<noteq> CHR ''_''" using hex_chars_plain(2)[OF hex_digit_in[OF that]] .
  show ?case
  proof (cases "hex_val c")
    case (Some v)
    with Cons d show ?thesis
      by (cases "s = []") (auto simp: hex_chars_plain(2) hex_val_digit[OF that])
  qed (use Cons.prems hex_chars_plain(2)[of c] in auto)
qed simp

lemma hex_digits_us_pad:
  "0 < k \<Longrightarrow> n < 16 ^ k \<Longrightarrow> hex_digits_us 0 False (hex_pad k n) = Some n"
proof (induction k arbitrary: n)
  case (Suc k)
  have d: "n mod 16 < 16" by simp
  have us: "hex_digit (n mod 16) \<noteq> CHR ''_''" using hex_chars_plain(2)[OF hex_digit_in[OF d]] .
  show ?case
  proof (cases "k = 0")
    case True
    with Suc.prems us show ?thesis by (simp add: hex_val_digit)
  next
    case False
    with Suc.prems have "n div 16 < 16 ^ k" by (simp add: div_less_iff_less_mult mult.commute)
    with Suc.IH[of "n div 16"] False
    have "hex_digits_us 0 False (hex_pad k (n div 16)) = Some (n div 16)" by simp
    moreover have "hex_pad k (n div 16) \<noteq> []"
      using False by (metis hex_pad_length length_0_conv)
    ultimately show ?thesis
      using hex_digits_us_append[OF d hex_pad_chars[of k "n div 16"], of 0 False] by simp
  qed
qed simp

lemma strip_id: "\<forall>c \<in> set s. \<not> is_space c \<Longrightarrow> strip s = s"
proof -
  assume a: "\<forall>c \<in> set s. \<not> is_space c"
  then have "dropWhile is_space s = s" by (cases s) auto
  moreover have "dropWhile is_space (rev s) = rev s" using a by (cases "rev s") (auto dest: arg_cong[of _ _ set])
  ultimately show ?thesis by (simp add: strip_def)
qed

lemma strip_braces_id:
  "\<forall>c \<in> set s. c \<noteq> CHR 0x7B \<and> c \<noteq> CHR 0x7D \<Longrightarrow> strip_braces s = s"
proof -
  assume a: "\<forall>c \<in> set s. c \<noteq> CHR 0x7B \<and> c \<noteq> CHR 0x7D"
  let ?p = "\<lambda>c. c = CHR 0x7B \<or> c = CHR 0x7D"
  have "dropWhile ?p s = s" using a by (cases s) auto
  moreover have "dropWhile ?p (rev s) = rev s"
    using a by (cases "rev s") (auto dest: arg_cong[of _ _ set])
  ultimately show ?thesis by (simp add: strip_braces_def Let_def)
qed

lemma replace_all_absent:
  "p \<noteq> [] \<Longrightarrow> hd p \<notin> set s \<Longrightarrow> replace_all_str p new s = s"
  by (simp add: replace_all_str_def replace_str_def find_str_None_absent)

lemma skip_0x_hex:
  "set s \<subseteq> hex_chars \<Longrightarrow> skip_0x s = s"
  by (auto simp: skip_0x_def split: list.splits)

lemma int16_hex_pad: "0 < k \<Longrightarrow> n < 16 ^ k \<Longrightarrow> int16 (hex_pad k n) = Some n"
proof -
  assume k: "0 < k" "n < 16 ^ k"
  let ?s = "hex_pad k n"
  note cs = hex_pad_chars[of k n]
  have "strip ?s = ?s" using cs hex_chars_plain(9) by (intro strip_id) blast
  moreover have "(case ?s of [] \<Rightarrow> ?s | c # r \<Rightarrow> if c = CHR ''+'' then r else ?s) = ?s"
    using cs by (auto split: list.splits)
  ultimately show ?thesis
    using skip_0x_hex[OF cs] hex_digits_us_pad[OF k] by (simp add: int16_def Let_def)
qed

lemma uuid_str_set: "set (uuid_str u) \<subseteq> insert (CHR ''-'') hex_chars" (is "_ \<subseteq> ?T")
proof -
  let ?h = "hex_pad 32 (unat u)"
  have "set (take n (drop m ?h)) \<subseteq> hex_chars" "set (take n ?h) \<subseteq> hex_chars"
    "set (drop m ?h) \<subseteq> hex_chars" for n m
    using hex_pad_chars[of 32 "unat u"] by (meson set_take_subset set_drop_subset subset_trans)+
  then have "set (take n (drop m ?h)) \<subseteq> ?T" "set (take n ?h) \<subseteq> ?T" "set (drop m ?h) \<subseteq> ?T"
    for n m by (meson subset_insertI2)+
  then show ?thesis
    by (simp only: uuid_str_def Let_def set_append list.set Un_subset_iff insert_subset insertI1 simp_thms)
qed

lemma uuid_str_filter: "filter (\<lambda>c. c \<noteq> CHR ''-'') (uuid_str u) = hex_pad 32 (unat u)"
proof -
  let ?h = "hex_pad 32 (unat u)"
  have f: "filter (\<lambda>c. c \<noteq> CHR ''-'') t = t" if "set t \<subseteq> set ?h" for t
    using that hex_pad_chars[of 32 "unat u"] hex_chars_plain(1)
    by (intro filter_True) blast
  have s: "set (take n (drop m ?h)) \<subseteq> set ?h" "set (take n ?h) \<subseteq> set ?h"
    "set (drop m ?h) \<subseteq> set ?h" for n m
    by (meson set_take_subset set_drop_subset subset_trans)+
  have "filter (\<lambda>c. c \<noteq> CHR ''-'') (uuid_str u) =
      take 8 ?h @ take 4 (drop 8 ?h) @ take 4 (drop 12 ?h) @ take 4 (drop 16 ?h) @ drop 20 ?h"
    by (simp add: uuid_str_def Let_def f s)
  also have "\<dots> = ?h"
    by (simp flip: append_assoc take_add)
  finally show ?thesis .
qed

lemma uuid_parse_str [simp]: "uuid_parse (uuid_str u) = Some u"
proof -
  have plain: "CHR ''u'' \<notin> set (uuid_str u)" "CHR 0x7B \<notin> set (uuid_str u)" "CHR 0x7D \<notin> set (uuid_str u)"
    using uuid_str_set[of u] by (auto simp: hex_chars_def)
  have "replace_all_str ''uuid:'' [] (replace_all_str ''urn:'' [] (uuid_str u)) = uuid_str u"
    using plain(1) by (simp add: replace_all_absent)
  moreover have "strip_braces (uuid_str u) = uuid_str u"
    using plain(2,3) by (intro strip_braces_id) auto
  moreover have "int16 (hex_pad 32 (unat u)) = Some (unat u)"
    using unsigned_less[of u] by (intro int16_hex_pad) simp_all
  ultimately show ?thesis
    by (simp add: uuid_parse_def Let_def uuid_str_filter)
qed

lemma uuid_str_inj: "uuid_str u = uuid_str v \<longleftrightarrow> u = v"
  by (metis option.inject uuid_parse_str)

end
