(* ===== verification/Session_Store.thy ===== *)
theory Session_Store
  imports Uuid_Text
begin

text \<open>
  The Session Service's data model (\<open>sessions/models.py\<close>), the three tables with their
  constraints (\<open>sessions/schema.py\<close>, \<open>db/migrations\<close>) and the queries of
  \<open>sessions/store.py\<close>. A table is the list of its rows in insertion order; a query is a
  function on the database that either returns a value and the database after it or
  raises, in which case the surrounding transaction leaves the database as it was.
\<close>

section \<open>Domain models\<close>

datatype session_status = ACTIVE | COMPLETED | FAILED | DELETED

fun status_value :: "session_status \<Rightarrow> string" where
  "status_value ACTIVE = ''active''"
| "status_value COMPLETED = ''completed''"
| "status_value FAILED = ''failed''"
| "status_value DELETED = ''deleted''"

definition session_status_of :: "string \<Rightarrow> session_status option" where
  "session_status_of s = find (\<lambda>x. status_value x = s) [ACTIVE, COMPLETED, FAILED, DELETED]"

definition TERMINAL_STATUSES :: "session_status set" where
  "TERMINAL_STATUSES = {COMPLETED, FAILED, DELETED}"

datatype event_type =
    USER_MESSAGE | ASSISTANT_MESSAGE | TOOL_CALL | TOOL_RESULT
  | HARNESS_EVENT | SYSTEM_EVENT | ERROR_EVENT

fun event_type_value :: "event_type \<Rightarrow> string" where
  "event_type_value USER_MESSAGE = ''user_message''"
| "event_type_value ASSISTANT_MESSAGE = ''assistant_message''"
| "event_type_value TOOL_CALL = ''tool_call''"
| "event_type_value TOOL_RESULT = ''tool_result''"
| "event_type_value HARNESS_EVENT = ''harness_event''"
| "event_type_value SYSTEM_EVENT = ''system_event''"
| "event_type_value ERROR_EVENT = ''error''"

definition event_type_of :: "string \<Rightarrow> event_type option" where
  "event_type_of s = find (\<lambda>x. event_type_value x = s)
     [USER_MESSAGE, ASSISTANT_MESSAGE, TOOL_CALL, TOOL_RESULT, HARNESS_EVENT, SYSTEM_EVENT,
      ERROR_EVENT]"

record agent =
  ag_id :: uuid
  ag_tenant :: uuid
  ag_name :: string
  ag_model :: string
  ag_framework :: string
  ag_system_prompt :: "string option"
  ag_tools :: "string list"
  ag_sandbox_recipe :: "dict option"
  ag_created_at :: int

record session =
  se_id :: uuid
  se_tenant :: uuid
  se_agent :: uuid
  se_status :: session_status
  se_last_sequence :: int
  se_metadata :: dict
  se_created_at :: int
  se_updated_at :: int

record event =
  ev_id :: uuid
  ev_session :: uuid
  ev_sequence :: int
  ev_type :: event_type
  ev_payload :: dict
  ev_created_at :: int

definition is_terminal :: "session \<Rightarrow> bool" where
  "is_terminal s \<longleftrightarrow> se_status s \<in> TERMINAL_STATUSES"

definition session_request_id :: "session \<Rightarrow> string option" where
  "session_request_id s = as_str (dget (se_metadata s) ''request_id'')"

datatype session_error =
    NotFoundError uuid
  | FailedPreconditionError session_status
  | ValidationError string
  | IntegrityError
  | DataError
  | RuntimeError
  | ValueError

lemma status_roundtrip [simp]: "session_status_of (status_value s) = Some s"
  by (cases s) (simp_all add: session_status_of_def)

lemma event_type_roundtrip [simp]: "event_type_of (event_type_value t) = Some t"
  by (cases t) (simp_all add: event_type_of_def)

lemma session_status_of_Some: "session_status_of v = Some s \<Longrightarrow> v = status_value s"
  by (auto simp: session_status_of_def split: if_splits)

lemma event_type_of_Some: "event_type_of v = Some t \<Longrightarrow> v = event_type_value t"
  by (auto simp: event_type_of_def split: if_splits)

lemma terminal_iff [simp]: "s \<in> TERMINAL_STATUSES \<longleftrightarrow> s \<noteq> ACTIVE"
  by (cases s) (simp_all add: TERMINAL_STATUSES_def)

section \<open>Tables\<close>

definition DEFAULT_TENANT_ID :: uuid where
  "DEFAULT_TENANT_ID = 0"

record session_row =
  s_id :: uuid
  s_tenant_id :: uuid
  s_agent_id :: uuid
  s_status :: string
  s_last_sequence :: int
  s_metadata :: dict
  s_created_at :: int
  s_updated_at :: int

record event_row =
  e_id :: uuid
  e_session_id :: uuid
  e_sequence :: int
  e_type :: string
  e_payload :: dict
  e_created_at :: int

text \<open>The \<open>agents\<close> table has the fields of the model \<open>agent\<close>, without a coded column.\<close>

record db =
  agents :: "agent list"
  sessions :: "session_row list"
  events :: "event_row list"

text \<open>\<open>Integer\<close> columns are 32-bit signed.\<close>

definition int4_max :: int where
  "int4_max = 2147483647"

section \<open>Rows to models\<close>

definition row_to_session :: "session_row \<Rightarrow> session_error + session" where
  "row_to_session r =
     (case session_status_of (s_status r) of
        None \<Rightarrow> Inl ValueError
      | Some st \<Rightarrow>
          Inr \<lparr>se_id = s_id r, se_tenant = s_tenant_id r, se_agent = s_agent_id r,
               se_status = st, se_last_sequence = s_last_sequence r,
               se_metadata = s_metadata r, se_created_at = s_created_at r,
               se_updated_at = s_updated_at r\<rparr>)"

definition row_to_event :: "event_row \<Rightarrow> session_error + event" where
  "row_to_event r =
     (case event_type_of (e_type r) of
        None \<Rightarrow> Inl ValueError
      | Some t \<Rightarrow>
          Inr \<lparr>ev_id = e_id r, ev_session = e_session_id r, ev_sequence = e_sequence r,
               ev_type = t, ev_payload = e_payload r, ev_created_at = e_created_at r\<rparr>)"

fun rows_to_events :: "event_row list \<Rightarrow> session_error + event list" where
  "rows_to_events [] = Inr []"
| "rows_to_events (r # rs) =
     bindE (row_to_event r) (\<lambda>e. bindE (rows_to_events rs) (\<lambda>es. Inr (e # es)))"

section \<open>Constraints\<close>

text \<open>\<open>metadata->>'request_id'\<close>: the text of the value, SQL \<open>NULL\<close> for a missing key or a
  JSON null.\<close>

fun astext :: "json \<Rightarrow> string option" where
  "astext JNull = None"
| "astext (JStr s) = Some s"
| "astext v = Some (json_dumps False v)"

definition request_id_text :: "dict \<Rightarrow> string option" where
  "request_id_text m = astext (dget m ''request_id'')"

definition request_id_taken :: "db \<Rightarrow> uuid \<Rightarrow> dict \<Rightarrow> bool" where
  "request_id_taken d tenant m =
     (case request_id_text m of
        None \<Rightarrow> False
      | Some t \<Rightarrow> list_ex (\<lambda>r. s_tenant_id r = tenant \<and> request_id_text (s_metadata r) = Some t)
                   (sessions d))"

definition has_agent :: "db \<Rightarrow> uuid \<Rightarrow> bool" where
  "has_agent d a = list_ex (\<lambda>r. ag_id r = a) (agents d)"

definition session_row_of :: "db \<Rightarrow> uuid \<Rightarrow> session_row option" where
  "session_row_of d sid = find (\<lambda>r. s_id r = sid) (sessions d)"

definition update_session_row :: "uuid \<Rightarrow> (session_row \<Rightarrow> session_row) \<Rightarrow> db \<Rightarrow> db" where
  "update_session_row sid f d =
     d\<lparr>sessions := map (\<lambda>r. if s_id r = sid then f r else r) (sessions d)\<rparr>"

section \<open>Queries\<close>

text \<open>\<open>new_id\<close> and \<open>now\<close> are the server's \<open>gen_random_uuid()\<close> and \<open>NOW()\<close>.\<close>

definition insert_session ::
  "uuid \<Rightarrow> int \<Rightarrow> uuid \<Rightarrow> dict \<Rightarrow> db \<Rightarrow> session_error + session \<times> db" where
  "insert_session new_id now agent_id meta d =
     (if session_row_of d new_id \<noteq> None \<or> \<not> has_agent d agent_id
         \<or> request_id_taken d DEFAULT_TENANT_ID meta
      then Inl IntegrityError
      else let r = \<lparr>s_id = new_id, s_tenant_id = DEFAULT_TENANT_ID, s_agent_id = agent_id,
                    s_status = ''active'', s_last_sequence = 0, s_metadata = meta,
                    s_created_at = now, s_updated_at = now\<rparr>
           in bindE (row_to_session r) (\<lambda>s. Inr (s, d\<lparr>sessions := sessions d @ [r]\<rparr>)))"

definition find_session_by_request_id ::
  "string \<Rightarrow> uuid \<Rightarrow> db \<Rightarrow> session_error + session option" where
  "find_session_by_request_id rid tenant d =
     (case find (\<lambda>r. s_tenant_id r = tenant \<and> request_id_text (s_metadata r) = Some rid)
             (sessions d) of
        None \<Rightarrow> Inr None
      | Some r \<Rightarrow> bindE (row_to_session r) (\<lambda>s. Inr (Some s)))"

definition store_get_session :: "uuid \<Rightarrow> db \<Rightarrow> session_error + session" where
  "store_get_session sid d =
     (case session_row_of d sid of None \<Rightarrow> Inl (NotFoundError sid) | Some r \<Rightarrow> row_to_session r)"

definition update_session_status :: "uuid \<Rightarrow> session_status \<Rightarrow> db \<Rightarrow> db" where
  "update_session_status sid st d = update_session_row sid (\<lambda>r. r\<lparr>s_status := status_value st\<rparr>) d"

definition store_get_agent :: "uuid \<Rightarrow> db \<Rightarrow> session_error + agent" where
  "store_get_agent aid d =
     (case find (\<lambda>r. ag_id r = aid) (agents d) of
        None \<Rightarrow> Inl (NotFoundError aid) | Some a \<Rightarrow> Inr a)"

definition mark_session_complete ::
  "int \<Rightarrow> uuid \<Rightarrow> db \<Rightarrow> session_error + session_status \<times> db" where
  "mark_session_complete now sid d =
     bindE (store_get_session sid d) (\<lambda>s.
       if is_terminal s then Inr (se_status s, d)
       else Inr (COMPLETED,
              update_session_row sid
                (\<lambda>r. r\<lparr>s_status := status_value COMPLETED, s_updated_at := now\<rparr>) d))"

definition find_event_by_id :: "uuid \<Rightarrow> uuid \<Rightarrow> db \<Rightarrow> session_error + event option" where
  "find_event_by_id sid eid d =
     (case find (\<lambda>r. e_session_id r = sid \<and> e_id r = eid) (events d) of
        None \<Rightarrow> Inr None
      | Some r \<Rightarrow> bindE (row_to_event r) (\<lambda>e. Inr (Some e)))"

definition load_session_for_emit :: "uuid \<Rightarrow> db \<Rightarrow> session_error + int \<times> session_status" where
  "load_session_for_emit sid d =
     (case session_row_of d sid of
        None \<Rightarrow> Inl (NotFoundError sid)
      | Some r \<Rightarrow> (case session_status_of (s_status r) of
                    None \<Rightarrow> Inl ValueError
                  | Some st \<Rightarrow> Inr (s_last_sequence r, st)))"

definition event_key_taken :: "db \<Rightarrow> uuid \<Rightarrow> uuid \<Rightarrow> int \<Rightarrow> bool" where
  "event_key_taken d sid eid n =
     list_ex (\<lambda>r. e_session_id r = sid \<and> (e_id r = eid \<or> e_sequence r = n)) (events d)"

definition insert_event_and_bump_sequence ::
  "int \<Rightarrow> uuid \<Rightarrow> uuid \<Rightarrow> event_type \<Rightarrow> dict \<Rightarrow> int \<Rightarrow> db \<Rightarrow> session_error + event \<times> db" where
  "insert_event_and_bump_sequence now sid eid etype payload n d =
     (if int4_max < n then Inl DataError
      else if event_key_taken d sid eid n \<or> session_row_of d sid = None then Inl IntegrityError
      else let r = \<lparr>e_id = eid, e_session_id = sid, e_sequence = n,
                    e_type = event_type_value etype, e_payload = payload, e_created_at = now\<rparr>
           in bindE (row_to_event r) (\<lambda>e.
                Inr (e, update_session_row sid
                          (\<lambda>s. s\<lparr>s_last_sequence := n, s_updated_at := now\<rparr>)
                          (d\<lparr>events := events d @ [r]\<rparr>))))"

definition select_events ::
  "uuid \<Rightarrow> int \<Rightarrow> int option \<Rightarrow> event_type list option \<Rightarrow> nat \<Rightarrow> db
    \<Rightarrow> session_error + event list" where
  "select_events sid start end_opt types limit d =
     rows_to_events (take limit (sort_key e_sequence (filter (\<lambda>r.
         e_session_id r = sid
       \<and> start \<le> e_sequence r
       \<and> (case end_opt of None \<Rightarrow> True | Some b \<Rightarrow> e_sequence r \<le> b)
       \<and> (case types of None \<Rightarrow> True | Some ts \<Rightarrow>
            ts = [] \<or> e_type r \<in> set (map event_type_value ts))) (events d))))"

section \<open>Facts about the queries\<close>

definition session_log :: "db \<Rightarrow> uuid \<Rightarrow> event_row list" where
  "session_log d sid = filter (\<lambda>r. e_session_id r = sid) (events d)"

lemma session_row_of_update [simp]:
  assumes "\<And>r. s_id (f r) = s_id r"
  shows "session_row_of (update_session_row sid f d) sid' =
    (if sid' = sid then map_option f (session_row_of d sid') else session_row_of d sid')"
proof -
  have "find (\<lambda>r. s_id r = sid') (map (\<lambda>r. if s_id r = sid then f r else r) rs) =
      (if sid' = sid then map_option f (find (\<lambda>r. s_id r = sid') rs)
       else find (\<lambda>r. s_id r = sid') rs)" for rs
    by (induction rs) (auto simp: assms)
  then show ?thesis by (simp add: session_row_of_def update_session_row_def)
qed

lemma update_session_row_frame [frame, simp]:
  "events (update_session_row sid f d) = events d"
  "agents (update_session_row sid f d) = agents d"
  "session_log (update_session_row sid f d) sid' = session_log d sid'"
  by (simp_all add: update_session_row_def session_log_def)

lemma session_log_append [simp]:
  "session_log (d\<lparr>events := events d @ [r]\<rparr>) sid =
     session_log d sid @ (if e_session_id r = sid then [r] else [])"
  by (simp add: session_log_def)

lemma session_log_sessions [frame, simp]:
  "session_log (d\<lparr>sessions := ss\<rparr>) sid = session_log d sid"
  by (simp add: session_log_def)

lemma session_row_of_events [frame, simp]:
  "session_row_of (d\<lparr>events := es\<rparr>) sid = session_row_of d sid"
  by (simp add: session_row_of_def)

lemma session_row_of_SomeD:
  "session_row_of d sid = Some r \<Longrightarrow> s_id r = sid \<and> r \<in> set (sessions d)"
  by (auto simp: session_row_of_def find_Some_iff in_set_conv_nth)

lemma event_key_taken_log:
  "event_key_taken d sid eid n \<longleftrightarrow>
     (\<exists>r \<in> set (session_log d sid). e_id r = eid \<or> e_sequence r = n)"
  by (auto simp: event_key_taken_def session_log_def list_ex_iff)

lemma find_event_by_id_log:
  "find_event_by_id sid eid d =
     (case find (\<lambda>r. e_id r = eid) (session_log d sid) of
        None \<Rightarrow> Inr None | Some r \<Rightarrow> bindE (row_to_event r) (\<lambda>e. Inr (Some e)))"
proof -
  have eq: "find (\<lambda>r. e_session_id r = sid \<and> e_id r = eid) rs =
      find (\<lambda>r. e_id r = eid) (filter (\<lambda>r. e_session_id r = sid) rs)" for rs
    by (induction rs) auto
  show ?thesis by (simp only: find_event_by_id_def session_log_def eq)
qed

lemma row_to_event_coded [simp]:
  "row_to_event \<lparr>e_id = i, e_session_id = s, e_sequence = n, e_type = event_type_value t,
     e_payload = p, e_created_at = c\<rparr> =
   Inr \<lparr>ev_id = i, ev_session = s, ev_sequence = n, ev_type = t, ev_payload = p,
     ev_created_at = c\<rparr>"
  by (simp add: row_to_event_def)

lemma row_to_event_fields:
  "row_to_event r = Inr e \<Longrightarrow>
     ev_id e = e_id r \<and> ev_session e = e_session_id r \<and> ev_sequence e = e_sequence r
     \<and> ev_payload e = e_payload r \<and> event_type_value (ev_type e) = e_type r"
  by (auto simp: row_to_event_def dest: event_type_of_Some split: option.splits)

lemma rows_to_events_Inr [returns_iff]:
  "rows_to_events rs = Inr es \<longleftrightarrow> list_all2 (\<lambda>r e. row_to_event r = Inr e) rs es"
  by (induction rs arbitrary: es) (auto simp: returns_iff list_all2_Cons1)

lemma rows_to_events_append:
  "rows_to_events rs = Inr es \<Longrightarrow> rows_to_events rs' = Inr es' \<Longrightarrow>
     rows_to_events (rs @ rs') = Inr (es @ es')"
  by (simp add: rows_to_events_Inr list_all2_appendI)

end
