(* ===== verification/Session_Service.thy ===== *)
theory Session_Service
  imports Session_Store
begin

text \<open>
  The public operations of \<open>sessions/service.py\<close>. Each runs in one transaction, so it is
  a function from the database to a result and the database after commit; a raise rolls
  the transaction back. \<open>service_ok\<close> is the invariant of the three tables: the
  constraints of the schema, valid status and type codes, and the dense log (the events
  of a session carry the sequences 1 to \<open>last_sequence\<close> in the order of their arrival).
\<close>

section \<open>Operations\<close>

definition MAX_PAYLOAD_BYTES :: nat where
  "MAX_PAYLOAD_BYTES = 256 * 1024"

text \<open>Evaluation compares with the bound as an integer.\<close>

lemma payload_bound_code [code_unfold]: "MAX_PAYLOAD_BYTES < n \<longleftrightarrow> 262144 < int n"
  by (simp add: MAX_PAYLOAD_BYTES_def)

definition DEFAULT_EVENTS_LIMIT :: int where
  "DEFAULT_EVENTS_LIMIT = 1000"

definition MAX_EVENTS_LIMIT :: int where
  "MAX_EVENTS_LIMIT = 10000"

text \<open>Only the length of the encoding is used.\<close>

definition encode_payload_length :: "dict \<Rightarrow> nat" where
  "encode_payload_length p = utf8_length (json_dumps False (JObj p))"

definition merge_metadata :: "dict option \<Rightarrow> string option \<Rightarrow> session_error + dict" where
  "merge_metadata metadata request_id =
     (let merged = (case metadata of None \<Rightarrow> [] | Some m \<Rightarrow> m);
          metadata_request_id = dget merged ''request_id''
      in case request_id of
           None \<Rightarrow> Inr merged
         | Some rid \<Rightarrow>
             if metadata_request_id \<noteq> JNull \<and> metadata_request_id \<noteq> JStr rid
             then Inl (ValidationError
               (''request_id argument conflicts with metadata['' @ repr_str ''request_id''
                @ '']: '' @ repr_str rid @ '' != '' @ py_repr metadata_request_id))
             else Inr (AList.update ''request_id'' (JStr rid) merged))"

text \<open>
  \<open>create_session\<close> reads the database up to three times: \<open>d1\<close> is what the idempotency
  lookup sees, \<open>d2\<close> what the insert runs on and \<open>d3\<close> what the retry after an integrity
  error reads. Other writers may commit between the three.
\<close>

definition create_session_racing ::
  "uuid \<Rightarrow> int \<Rightarrow> uuid \<Rightarrow> dict option \<Rightarrow> string option \<Rightarrow> db \<Rightarrow> db \<Rightarrow> db
    \<Rightarrow> session_error + session \<times> db" where
  "create_session_racing new_id now agent_id metadata request_id d1 d2 d3 =
     bindE (merge_metadata metadata request_id) (\<lambda>merged.
       let resolved = as_str (dget merged ''request_id'') in
       bindE (case resolved of
                None \<Rightarrow> Inr None
              | Some rid \<Rightarrow> find_session_by_request_id rid DEFAULT_TENANT_ID d1) (\<lambda>existing.
         case existing of
           Some s \<Rightarrow> Inr (s, d2)
         | None \<Rightarrow>
             (case insert_session new_id now agent_id merged d2 of
                Inr (s, d') \<Rightarrow> Inr (s, d')
              | Inl IntegrityError \<Rightarrow>
                  (case resolved of
                     None \<Rightarrow> Inl RuntimeError
                   | Some rid \<Rightarrow>
                       bindE (find_session_by_request_id rid DEFAULT_TENANT_ID d3) (\<lambda>again.
                         case again of Some s \<Rightarrow> Inr (s, d3) | None \<Rightarrow> Inl RuntimeError))
              | Inl e \<Rightarrow> Inl e)))"

definition create_session ::
  "uuid \<Rightarrow> int \<Rightarrow> uuid \<Rightarrow> dict option \<Rightarrow> string option \<Rightarrow> db \<Rightarrow> session_error + session \<times> db" where
  "create_session new_id now agent_id metadata request_id d =
     create_session_racing new_id now agent_id metadata request_id d d d"

definition get_agent :: "uuid \<Rightarrow> db \<Rightarrow> session_error + agent" where
  "get_agent aid d = store_get_agent aid d"

definition mark_complete :: "int \<Rightarrow> uuid \<Rightarrow> db \<Rightarrow> session_error + session_status \<times> db" where
  "mark_complete now sid d = mark_session_complete now sid d"

definition wake :: "uuid \<Rightarrow> db \<Rightarrow> session_error + session" where
  "wake sid d =
     bindE (store_get_session sid d) (\<lambda>s.
       if is_terminal s then Inl (FailedPreconditionError (se_status s)) else Inr s)"

definition emit_event ::
  "int \<Rightarrow> uuid \<Rightarrow> uuid \<Rightarrow> event_type \<Rightarrow> dict \<Rightarrow> db \<Rightarrow> session_error + event \<times> db" where
  "emit_event now sid eid etype payload d =
     (if MAX_PAYLOAD_BYTES < encode_payload_length payload
      then Inl (ValidationError
             (''event payload is '' @ int_str (int (encode_payload_length payload))
              @ '' bytes; max is '' @ int_str (int MAX_PAYLOAD_BYTES)))
      else bindE (find_event_by_id sid eid d) (\<lambda>existing.
        case existing of
          Some e \<Rightarrow> Inr (e, d)
        | None \<Rightarrow>
            bindE (load_session_for_emit sid d) (\<lambda>(last_sequence, status).
              if status \<in> TERMINAL_STATUSES then Inl (FailedPreconditionError status)
              else (case insert_event_and_bump_sequence now sid eid etype payload
                           (last_sequence + 1) d of
                      Inl IntegrityError \<Rightarrow> Inl RuntimeError
                    | r \<Rightarrow> r))))"

definition get_events ::
  "uuid \<Rightarrow> int option \<Rightarrow> int option \<Rightarrow> event_type list option \<Rightarrow> int \<Rightarrow> db
    \<Rightarrow> session_error + event list" where
  "get_events sid start end_opt types limit d =
     (let effective_limit = min limit MAX_EVENTS_LIMIT;
          effective_start = (case start of None \<Rightarrow> 1 | Some s \<Rightarrow> s)
      in if limit < 1 then Inl (ValidationError (''limit must be >= 1 (got '' @ int_str limit @ '')''))
         else if effective_start < 1
           then Inl (ValidationError (''start must be >= 1 (got '' @ int_str effective_start @ '')''))
         else if (case end_opt of None \<Rightarrow> False | Some b \<Rightarrow> b < effective_start)
           then Inl (ValidationError
             (''end ('' @ int_str (case end_opt of None \<Rightarrow> 0 | Some b \<Rightarrow> b)
              @ '') must be >= start ('' @ int_str effective_start @ '')''))
         else select_events sid effective_start end_opt types (nat effective_limit) d)"

text \<open>\<open>get_events(session_id)\<close> with every argument at its default, the way the harness calls it.\<close>

abbreviation get_events_default :: "uuid \<Rightarrow> db \<Rightarrow> session_error + event list" where
  "get_events_default sid \<equiv> get_events sid None None None DEFAULT_EVENTS_LIMIT"

section \<open>The invariant\<close>

definition dense_log :: "db \<Rightarrow> session_row \<Rightarrow> bool" where
  "dense_log d r \<longleftrightarrow>
     map e_sequence (session_log d (s_id r)) = [1..s_last_sequence r] \<and> 0 \<le> s_last_sequence r
     \<and> s_last_sequence r \<le> int4_max \<and> distinct (map e_id (session_log d (s_id r)))"

definition event_row_ok :: "db \<Rightarrow> event_row \<Rightarrow> bool" where
  "event_row_ok d e \<longleftrightarrow> session_row_of d (e_session_id e) \<noteq> None \<and> event_type_of (e_type e) \<noteq> None"

definition request_ids_unique :: "db \<Rightarrow> bool" where
  "request_ids_unique d \<longleftrightarrow>
     distinct (map (\<lambda>r. (s_tenant_id r, request_id_text (s_metadata r)))
       (filter (\<lambda>r. request_id_text (s_metadata r) \<noteq> None) (sessions d)))"

definition service_ok :: "db \<Rightarrow> bool" where
  "service_ok d \<longleftrightarrow>
     distinct (map s_id (sessions d))
   \<and> (\<forall>r \<in> set (sessions d). session_status_of (s_status r) \<noteq> None \<and> has_agent d (s_agent_id r)
        \<and> dense_log d r)
   \<and> (\<forall>e \<in> set (events d). event_row_ok d e)
   \<and> request_ids_unique d"

definition empty_db :: "agent list \<Rightarrow> db" where
  "empty_db as = \<lparr>agents = as, sessions = [], events = []\<rparr>"

lemma rows_valid:
  "\<forall>r \<in> set rs. event_type_of (e_type r) \<noteq> None \<Longrightarrow> \<exists>es. rows_to_events rs = Inr es"
  by (induction rs) (auto simp: row_to_event_def)

lemma service_ok_empty: "service_ok (empty_db as)"
  by (simp add: service_ok_def empty_db_def request_ids_unique_def)

lemma service_okD:
  assumes "service_ok d" and "session_row_of d sid = Some r"
  shows "dense_log d r" "session_status_of (s_status r) \<noteq> None" "has_agent d (s_agent_id r)"
    "s_id r = sid"
  using assms by (auto simp: service_ok_def dest!: session_row_of_SomeD)

lemma service_ok_log:
  assumes "service_ok d" and "session_row_of d sid = Some r"
  shows "map e_sequence (session_log d sid) = [1..s_last_sequence r]"
  using service_okD[OF assms] by (simp add: dense_log_def)

lemma log_empty_if_absent:
  "service_ok d \<Longrightarrow> session_row_of d sid = None \<Longrightarrow> session_log d sid = []"
  by (auto simp: service_ok_def session_log_def event_row_ok_def filter_empty_conv)

lemma log_rows_valid:
  assumes "service_ok d"
  obtains es where "rows_to_events (session_log d sid) = Inr es"
proof -
  have "\<forall>r \<in> set (session_log d sid). event_type_of (e_type r) \<noteq> None"
    using assms by (auto simp: service_ok_def session_log_def event_row_ok_def)
  then show ?thesis using that rows_valid by blast
qed

lemma sequence_sorted:
  assumes "map e_sequence rs = [a..b]"
  shows "sort_key e_sequence rs = rs"
proof -
  have "sorted (map e_sequence rs)" by (simp add: assms)
  then show ?thesis by (simp add: sort_key_id_if_sorted)
qed

section \<open>\<open>emit_event\<close>\<close>

definition appended ::
  "int \<Rightarrow> uuid \<Rightarrow> uuid \<Rightarrow> event_type \<Rightarrow> dict \<Rightarrow> int \<Rightarrow> db \<Rightarrow> db" where
  "appended now sid eid t p n d =
     update_session_row sid (\<lambda>s. s\<lparr>s_last_sequence := n, s_updated_at := now\<rparr>)
       (d\<lparr>events := events d @ [\<lparr>e_id = eid, e_session_id = sid, e_sequence = n,
          e_type = event_type_value t, e_payload = p, e_created_at = now\<rparr>]\<rparr>)"

abbreviation new_event :: "int \<Rightarrow> uuid \<Rightarrow> uuid \<Rightarrow> event_type \<Rightarrow> dict \<Rightarrow> int \<Rightarrow> event" where
  "new_event now sid eid t p n \<equiv>
     \<lparr>ev_id = eid, ev_session = sid, ev_sequence = n, ev_type = t, ev_payload = p,
      ev_created_at = now\<rparr>"

lemma insert_event_Inr [returns_iff]:
  "insert_event_and_bump_sequence now sid eid t p n d = Inr (e, d') \<longleftrightarrow>
     n \<le> int4_max \<and> \<not> event_key_taken d sid eid n \<and> session_row_of d sid \<noteq> None
     \<and> e = new_event now sid eid t p n \<and> d' = appended now sid eid t p n d"
  by (auto simp: insert_event_and_bump_sequence_def appended_def Let_def)

lemma find_event_None [returns_iff]:
  "find_event_by_id sid eid d = Inr None \<longleftrightarrow> (\<forall>r \<in> set (session_log d sid). e_id r \<noteq> eid)"
  by (auto simp: find_event_by_id_log returns_iff find_None_iff split: option.splits dest!: find_SomeD)

lemma load_session_Inr [returns_iff]:
  "load_session_for_emit sid d = Inr (n, st) \<longleftrightarrow>
     (\<exists>r. session_row_of d sid = Some r \<and> session_status_of (s_status r) = Some st
        \<and> n = s_last_sequence r)"
  by (auto simp: load_session_for_emit_def split: option.splits)

text \<open>A successful emit is a replay or an append.\<close>

lemma emit_event_Inr [returns_iff]:
  "emit_event now sid eid t p d = Inr (e, d') \<longleftrightarrow>
     encode_payload_length p \<le> MAX_PAYLOAD_BYTES
     \<and> (find_event_by_id sid eid d = Inr (Some e) \<and> d' = d
        \<or> find_event_by_id sid eid d = Inr None
          \<and> (\<exists>r. session_row_of d sid = Some r \<and> session_status_of (s_status r) = Some ACTIVE
               \<and> s_last_sequence r + 1 \<le> int4_max
               \<and> \<not> event_key_taken d sid eid (s_last_sequence r + 1)
               \<and> e = new_event now sid eid t p (s_last_sequence r + 1)
               \<and> d' = appended now sid eid t p (s_last_sequence r + 1) d))"
  (is "?L = ?R")
proof (cases "MAX_PAYLOAD_BYTES < encode_payload_length p")
  case True
  then show ?thesis by (simp add: emit_event_def)
next
  case False
  show ?thesis
  proof (cases "find_event_by_id sid eid d")
    case (Inl er)
    with False show ?thesis by (simp add: emit_event_def)
  next
    case (Inr found)
    show ?thesis
    proof (cases found)
      case None
      show ?thesis
      proof (cases "load_session_for_emit sid d")
        case (Inl er)
        with False Inr None have "\<not> ?L" by (simp add: emit_event_def)
        moreover have "\<not> ?R" using Inl Inr None by (auto simp: load_session_for_emit_def)
        ultimately show ?thesis by simp
      next
        case (Inr pr)
        then obtain n st where l: "load_session_for_emit sid d = Inr (n, st)" by (cases pr) auto
        have "?L \<longleftrightarrow> st = ACTIVE
            \<and> insert_event_and_bump_sequence now sid eid t p (n + 1) d = Inr (e, d')"
          using False \<open>find_event_by_id sid eid d = Inr found\<close> None l
          by (auto simp: emit_event_def split: sum.splits session_error.splits)
        also have "\<dots> \<longleftrightarrow> ?R"
          using l False \<open>find_event_by_id sid eid d = Inr found\<close> None
          by (auto simp: load_session_Inr insert_event_Inr)
        finally show ?thesis .
      qed
    next
      case (Some x)
      with Inr False show ?thesis by (auto simp: emit_event_def)
    qed
  qed
qed

text \<open>What an append changes.\<close>

lemma appended_log [simp]:
  "session_log (appended now sid eid t p n d) sid' =
     session_log d sid' @
       (if sid' = sid then [\<lparr>e_id = eid, e_session_id = sid, e_sequence = n,
          e_type = event_type_value t, e_payload = p, e_created_at = now\<rparr>] else [])"
  by (simp add: appended_def)

lemma appended_row [simp]:
  "session_row_of (appended now sid eid t p n d) sid' =
     (if sid' = sid
      then map_option (\<lambda>s. s\<lparr>s_last_sequence := n, s_updated_at := now\<rparr>) (session_row_of d sid')
      else session_row_of d sid')"
  by (simp add: appended_def)

lemma appended_agents [frame, simp]: "agents (appended now sid eid t p n d) = agents d"
  by (simp add: appended_def)

lemma has_agent_cong: "agents d = agents d' \<Longrightarrow> has_agent d = has_agent d'"
  by (simp add: has_agent_def fun_eq_iff)

lemma request_ids_unique_update:
  assumes "\<And>r. s_tenant_id (f r) = s_tenant_id r" "\<And>r. s_metadata (f r) = s_metadata r"
  shows "request_ids_unique (update_session_row sid f d) = request_ids_unique d"
proof -
  let ?g = "\<lambda>r. if s_id r = sid then f r else r"
  have g: "s_tenant_id (?g r) = s_tenant_id r" "s_metadata (?g r) = s_metadata r" for r
    using assms by auto
  show ?thesis
    by (simp add: request_ids_unique_def update_session_row_def filter_map o_def g cong: if_cong)
qed

lemma update_session_row_ids [simp]:
  assumes "\<And>r. s_id (f r) = s_id r"
  shows "map s_id (sessions (update_session_row sid f d)) = map s_id (sessions d)"
  using assms by (simp add: update_session_row_def o_def)

lemma sessions_update_cases:
  assumes "r' \<in> set (sessions (update_session_row sid f d))"
  obtains r where "r \<in> set (sessions d)" "r' = (if s_id r = sid then f r else r)"
  using assms by (auto simp: update_session_row_def)

lemma row_of_member:
  "service_ok d \<Longrightarrow> r \<in> set (sessions d) \<Longrightarrow> session_row_of d (s_id r) = Some r"
proof -
  assume "service_ok d" and r: "r \<in> set (sessions d)"
  then have "distinct (map s_id (sessions d))" by (simp add: service_ok_def)
  with r show ?thesis unfolding session_row_of_def
  proof (induction "sessions d" arbitrary: d)
    case (Cons a xs)
    show ?case
    proof (cases "a = r")
      case True
      with Cons.hyps(2)[symmetric] show ?thesis by simp
    next
      case False
      with Cons.prems(1) Cons.hyps(2)[symmetric] have m: "r \<in> set xs" by simp
      with Cons.prems(2) Cons.hyps(2)[symmetric] have "s_id a \<noteq> s_id r" by force
      moreover have "find (\<lambda>x. s_id x = s_id r) xs = Some r"
        using Cons.hyps(1)[of "d\<lparr>sessions := xs\<rparr>"] m Cons.prems(2) Cons.hyps(2)[symmetric] by simp
      ultimately show ?thesis using Cons.hyps(2)[symmetric] by simp
    qed
  qed simp
qed

lemma service_ok_status_update:
  assumes ok: "service_ok d"
    and f: "\<And>r. s_id (f r) = s_id r" "\<And>r. s_tenant_id (f r) = s_tenant_id r"
      "\<And>r. s_metadata (f r) = s_metadata r" "\<And>r. s_agent_id (f r) = s_agent_id r"
      "\<And>r. s_last_sequence (f r) = s_last_sequence r"
      "\<And>r. session_status_of (s_status (f r)) \<noteq> None"
  shows "service_ok (update_session_row sid f d)"
proof -
  let ?d = "update_session_row sid f d"
  have ids: "distinct (map s_id (sessions ?d))"
    using ok f(1) by (simp add: service_ok_def)
  have rows: "session_status_of (s_status r') \<noteq> None \<and> has_agent ?d (s_agent_id r') \<and> dense_log ?d r'"
    if "r' \<in> set (sessions ?d)" for r'
  proof -
    from that obtain r where r: "r \<in> set (sessions d)" "r' = (if s_id r = sid then f r else r)"
      by (rule sessions_update_cases)
    have "has_agent ?d = has_agent d" by (rule has_agent_cong) simp
    with r ok f show ?thesis by (auto simp: service_ok_def dense_log_def)
  qed
  have evs: "event_row_ok ?d e" if "e \<in> set (events ?d)" for e
    using that ok f(1) by (auto simp: service_ok_def event_row_ok_def)
  show ?thesis
    using ids rows evs ok f(2,3) by (simp add: service_ok_def request_ids_unique_update)
qed

lemma service_ok_appended:
  assumes ok: "service_ok d" and row: "session_row_of d sid = Some r"
    and n: "s_last_sequence r + 1 \<le> int4_max"
    and new: "\<forall>x \<in> set (session_log d sid). e_id x \<noteq> eid"
  shows "service_ok (appended now sid eid t p (s_last_sequence r + 1) d)" (is "service_ok ?d")
proof -
  let ?f = "\<lambda>s. s\<lparr>s_last_sequence := s_last_sequence r + 1, s_updated_at := now\<rparr>"
  let ?base = "d\<lparr>events := events d @ [\<lparr>e_id = eid, e_session_id = sid,
      e_sequence = s_last_sequence r + 1, e_type = event_type_value t, e_payload = p,
      e_created_at = now\<rparr>]\<rparr>"
  have d: "?d = update_session_row sid ?f ?base" by (simp add: appended_def)
  have ids: "distinct (map s_id (sessions ?d))"
    using ok unfolding d by (subst update_session_row_ids) (simp_all add: service_ok_def)
  have rows: "session_status_of (s_status x') \<noteq> None \<and> has_agent ?d (s_agent_id x') \<and> dense_log ?d x'"
    if "x' \<in> set (sessions ?d)" for x'
  proof -
    from that obtain x where x: "x \<in> set (sessions d)" "x' = (if s_id x = sid then ?f x else x)"
      unfolding d by (elim sessions_update_cases) simp
    have ha: "has_agent ?d = has_agent d" by (rule has_agent_cong) simp
    have dx: "dense_log d x" and st: "session_status_of (s_status x) \<noteq> None" "has_agent d (s_agent_id x)"
      using ok x(1) by (auto simp: service_ok_def)
    have same: "x = r" if "s_id x = sid"
      using row_of_member[OF ok x(1)] row that by simp
    have "dense_log ?d x'"
      using dx x(2) same n new by (auto simp: dense_log_def upto_snoc)
    then show ?thesis using st ha x(2) by auto
  qed
  have evs: "event_row_ok ?d e" if "e \<in> set (events ?d)" for e
  proof -
    have "e \<in> set (events d) \<or> (e_session_id e = sid \<and> event_type_of (e_type e) \<noteq> None)"
      using that by (auto simp: appended_def)
    then show ?thesis using ok row by (auto simp: service_ok_def event_row_ok_def)
  qed
  have uniq: "request_ids_unique ?d"
    using ok unfolding d
    by (subst request_ids_unique_update) (simp_all add: service_ok_def request_ids_unique_def)
  show ?thesis using ids rows evs uniq by (auto simp: service_ok_def)
qed

end
