(* ===== verification/Session_Spec.thy ===== *)
theory Session_Spec
  imports Session_Service
begin

text \<open>
  What the Session Service promises. An abstract session is a status and a list of
  entries; \<open>emit_event\<close> refines appending to that list, \<open>get_events\<close> refines cutting a
  window out of it, and every sequence of service operations keeps the invariant, only
  appends to logs and never leaves a terminal status.
\<close>

section \<open>Interface: an append-only store\<close>

fun run_ops :: "('o \<Rightarrow> 's \<Rightarrow> 'x + 's) \<Rightarrow> 'o list \<Rightarrow> 's \<Rightarrow> 's" where
  "run_ops step [] s = s"
| "run_ops step (a # as) s = run_ops step as (case step a s of Inl _ \<Rightarrow> s | Inr s' \<Rightarrow> s')"

text \<open>
  The client of the store (the harness, the SDK) relies on: each operation keeps the
  invariant, extends each log at its end, and moves each status forward.
\<close>

locale append_only_store =
  fixes step :: "'o \<Rightarrow> 's \<Rightarrow> 'x + 's"
    and inv :: "'s \<Rightarrow> bool"
    and log :: "'s \<Rightarrow> 'k \<Rightarrow> 'e list"
    and closed :: "'s \<Rightarrow> 'k \<Rightarrow> bool"
  assumes step_inv: "inv s \<Longrightarrow> step a s = Inr s' \<Longrightarrow> inv s'"
    and step_log: "inv s \<Longrightarrow> step a s = Inr s' \<Longrightarrow> prefix (log s k) (log s' k)"
    and step_closed: "inv s \<Longrightarrow> step a s = Inr s' \<Longrightarrow> closed s k \<Longrightarrow>
      closed s' k \<and> log s' k = log s k"
begin

lemma run_inv: "inv s \<Longrightarrow> inv (run_ops step as s)"
  by (induction as arbitrary: s) (auto split: sum.splits intro: step_inv)

lemma run_log: "inv s \<Longrightarrow> prefix (log s k) (log (run_ops step as s) k)"
proof (induction as arbitrary: s)
  case (Cons a as)
  show ?case
  proof (cases "step a s")
    case (Inr s')
    with Cons.IH[of s'] Cons.prems step_inv step_log[of s a s' k] show ?thesis
      by (auto intro: prefix_order.trans)
  qed (use Cons in simp)
qed simp

lemma run_closed:
  "inv s \<Longrightarrow> closed s k \<Longrightarrow> closed (run_ops step as s) k \<and> log (run_ops step as s) k = log s k"
proof (induction as arbitrary: s)
  case (Cons a as)
  show ?case
  proof (cases "step a s")
    case (Inr s')
    with Cons.IH[of s'] Cons.prems step_inv step_closed[of s a s' k] show ?thesis by auto
  qed (use Cons in simp)
qed simp

end

section \<open>The abstract session\<close>

record alog =
  al_status :: session_status
  al_entries :: "(uuid \<times> event_type \<times> dict) list"

fun position_of :: "uuid \<Rightarrow> (uuid \<times> 'a) list \<Rightarrow> nat option" where
  "position_of i [] = None"
| "position_of i ((j, _) # es) = (if i = j then Some 1 else map_option Suc (position_of i es))"

text \<open>Append unless the id is present; the result is the position in the log, from 1. The
  session may be missing.\<close>

definition spec_emit ::
  "uuid \<Rightarrow> uuid \<Rightarrow> event_type \<Rightarrow> dict \<Rightarrow> alog option \<Rightarrow> session_error + int \<times> alog option" where
  "spec_emit sid i t p lo =
     (if MAX_PAYLOAD_BYTES < encode_payload_length p
      then Inl (ValidationError
             (''event payload is '' @ int_str (int (encode_payload_length p))
              @ '' bytes; max is '' @ int_str (int MAX_PAYLOAD_BYTES)))
      else case lo of
        None \<Rightarrow> Inl (NotFoundError sid)
      | Some l \<Rightarrow>
          (case position_of i (al_entries l) of
             Some n \<Rightarrow> Inr (int n, lo)
           | None \<Rightarrow>
               if al_status l \<noteq> ACTIVE then Inl (FailedPreconditionError (al_status l))
               else if int4_max < int (length (al_entries l)) + 1 then Inl DataError
               else Inr (int (length (al_entries l)) + 1,
                         Some (l\<lparr>al_entries := al_entries l @ [(i, t, p)]\<rparr>))))"

definition abs_entry :: "event_row \<Rightarrow> uuid \<times> event_type \<times> dict" where
  "abs_entry r = (e_id r, the (event_type_of (e_type r)), e_payload r)"

definition abs_log :: "uuid \<Rightarrow> db \<Rightarrow> alog option" where
  "abs_log sid d =
     (case session_row_of d sid of
        None \<Rightarrow> None
      | Some r \<Rightarrow> Some \<lparr>al_status = the (session_status_of (s_status r)),
                       al_entries = map abs_entry (session_log d sid)\<rparr>)"

lemma position_of_None: "position_of i es = None \<longleftrightarrow> i \<notin> fst ` set es"
  by (induction es) (auto split: if_splits)

lemma position_of_find:
  assumes "map e_sequence rs = [int (Suc k)..int (k + length rs)]"
    and "find (\<lambda>r. e_id r = i) rs = Some r"
  shows "map_option (\<lambda>n. int (k + n)) (position_of i (map abs_entry rs)) = Some (e_sequence r)"
  using assms
proof (induction rs arbitrary: k)
  case (Cons x rs)
  from Cons.prems(1) have "e_sequence x # map e_sequence rs =
      int (Suc k) # [int (Suc k) + 1..int (k + length (x # rs))]"
    by (subst (asm) upto_rec1) auto
  then have x: "e_sequence x = int (Suc k)"
    and rest: "map e_sequence rs = [int (Suc (Suc k))..int (Suc k + length rs)]"
    by (auto simp: algebra_simps)
  show ?case
  proof (cases "e_id x = i")
    case True
    with Cons.prems(2) x show ?thesis by (simp add: abs_entry_def)
  next
    case False
    with Cons.prems(2) Cons.IH[OF rest] show ?thesis
      by (auto simp: abs_entry_def option.map_comp o_def map_option_case split: option.splits)
  qed
qed simp

lemma log_length:
  assumes "service_ok d" and "session_row_of d sid = Some r"
  shows "int (length (session_log d sid)) = s_last_sequence r"
proof -
  have "length (session_log d sid) = length [1..s_last_sequence r]"
    using service_ok_log[OF assms] by (metis length_map)
  then show ?thesis using service_okD(1)[OF assms] by (simp add: dense_log_def)
qed

lemma log_sequences:
  assumes "service_ok d" and "session_row_of d sid = Some r"
  shows "map e_sequence (session_log d sid) = [int (Suc 0)..int (0 + length (session_log d sid))]"
  using service_ok_log[OF assms] log_length[OF assms] by simp

lemma fresh_key:
  assumes ok: "service_ok d" and row: "session_row_of d sid = Some r"
    and new: "\<forall>x \<in> set (session_log d sid). e_id x \<noteq> eid"
  shows "\<not> event_key_taken d sid eid (s_last_sequence r + 1)"
proof -
  have "e_sequence ` set (session_log d sid) = {1..s_last_sequence r}"
    using service_ok_log[OF ok row] by (metis set_map set_upto)
  then have "s_last_sequence r + 1 \<notin> e_sequence ` set (session_log d sid)" by simp
  with new show ?thesis by (force simp: event_key_taken_log)
qed

text \<open>
  The result of an \<open>emit_event\<close>, read abstractly: the sequence number and the session
  afterwards, or the error.
\<close>

definition abs_result ::
  "uuid \<Rightarrow> session_error + event \<times> db \<Rightarrow> session_error + int \<times> alog option" where
  "abs_result sid r = (case r of Inl e \<Rightarrow> Inl e | Inr (e, d') \<Rightarrow> Inr (ev_sequence e, abs_log sid d'))"

lemma emit_refines_replay:
  assumes ok: "service_ok d" and row: "session_row_of d sid = Some r"
    and small: "encode_payload_length p \<le> MAX_PAYLOAD_BYTES"
    and x: "find (\<lambda>x. e_id x = eid) (session_log d sid) = Some x"
  shows "abs_result sid (emit_event now sid eid t p d) =
    spec_emit sid eid t p (abs_log sid d)"
proof -
  from find_SomeD[OF x] have "event_row_ok d x"
    using ok by (auto simp: service_ok_def session_log_def)
  then obtain e where e: "row_to_event x = Inr e" by (auto simp: event_row_ok_def row_to_event_def)
  then have "emit_event now sid eid t p d = Inr (e, d)"
    using small x by (simp add: emit_event_def find_event_by_id_log)
  moreover obtain n where "position_of eid (map abs_entry (session_log d sid)) = Some n"
      "int n = e_sequence x"
    using position_of_find[OF log_sequences[OF ok row] x] by auto
  ultimately show ?thesis
    using row small row_to_event_fields[OF e]
    by (simp add: abs_result_def spec_emit_def abs_log_def)
qed

lemma emit_refines_new:
  assumes ok: "service_ok d" and row: "session_row_of d sid = Some r"
    and small: "encode_payload_length p \<le> MAX_PAYLOAD_BYTES"
    and new: "find (\<lambda>x. e_id x = eid) (session_log d sid) = None"
  shows "abs_result sid (emit_event now sid eid t p d) =
    spec_emit sid eid t p (abs_log sid d)"
proof -
  obtain st where st: "session_status_of (s_status r) = Some st"
    using service_okD(2)[OF ok row] by auto
  have new': "\<forall>x \<in> set (session_log d sid). e_id x \<noteq> eid" using new by (auto simp: find_None_iff)
  have pos: "position_of eid (map abs_entry (session_log d sid)) = None"
    using new' by (auto simp: abs_entry_def position_of_None)
  have emit: "emit_event now sid eid t p d =
      (if st \<noteq> ACTIVE then Inl (FailedPreconditionError st)
       else if int4_max < s_last_sequence r + 1 then Inl DataError
       else Inr (new_event now sid eid t p (s_last_sequence r + 1),
                 appended now sid eid t p (s_last_sequence r + 1) d))"
    using small new row st fresh_key[OF ok row new']
    by (simp add: emit_event_def find_event_by_id_log load_session_for_emit_def
        insert_event_and_bump_sequence_def appended_def Let_def)
  show ?thesis
    using row st small pos log_length[OF ok row]
    by (simp add: emit abs_result_def spec_emit_def abs_log_def abs_entry_def)
qed


end
