(* ===== verification/Session_Runs.thy ===== *)
theory Session_Runs
  imports Session_Spec
begin

text \<open>
  Sequences of service operations. Every operation keeps \<open>service_ok\<close>, extends logs only at
  their end and leaves a terminal session as it is, so the interface
  \<open>append_only_store\<close> holds of the service and its run lemmas apply to every history. Also
  here: idempotency of \<open>create_session\<close>, with and without a race, and reading the log in
  windows and pages.
\<close>

section \<open>Operations as data\<close>

datatype service_op =
    CreateSession uuid int uuid "dict option" "string option"
  | EmitEvent int uuid uuid event_type dict
  | MarkComplete int uuid

fun service_step :: "service_op \<Rightarrow> db \<Rightarrow> session_error + db" where
  "service_step (CreateSession i now a m rid) d =
     bindE (create_session i now a m rid d) (\<lambda>(_, d'). Inr d')"
| "service_step (EmitEvent now sid eid t p) d =
     bindE (emit_event now sid eid t p d) (\<lambda>(_, d'). Inr d')"
| "service_step (MarkComplete now sid) d =
     bindE (mark_complete now sid d) (\<lambda>(_, d'). Inr d')"

definition session_closed :: "db \<Rightarrow> uuid \<Rightarrow> bool" where
  "session_closed d sid \<longleftrightarrow>
     (case session_row_of d sid of
        None \<Rightarrow> False
      | Some r \<Rightarrow> (case session_status_of (s_status r) of
                     None \<Rightarrow> False | Some st \<Rightarrow> st \<in> TERMINAL_STATUSES))"

section \<open>Creating sessions\<close>

lemma insert_session_Inr [returns_iff]:
  "insert_session i now a m d = Inr (s, d') \<longleftrightarrow>
     session_row_of d i = None \<and> has_agent d a \<and> \<not> request_id_taken d DEFAULT_TENANT_ID m
     \<and> s = \<lparr>se_id = i, se_tenant = DEFAULT_TENANT_ID, se_agent = a, se_status = ACTIVE,
            se_last_sequence = 0, se_metadata = m, se_created_at = now, se_updated_at = now\<rparr>
     \<and> d' = d\<lparr>sessions := sessions d @ [\<lparr>s_id = i, s_tenant_id = DEFAULT_TENANT_ID,
            s_agent_id = a, s_status = ''active'', s_last_sequence = 0, s_metadata = m,
            s_created_at = now, s_updated_at = now\<rparr>]\<rparr>"
  using status_roundtrip[of ACTIVE]
  by (auto simp: insert_session_def row_to_session_def Let_def)

lemma session_row_of_insert:
  "session_row_of d sid = Some r \<Longrightarrow> insert_session i now a m d = Inr (s, d') \<Longrightarrow>
     session_row_of d' sid = Some r"
  by (auto simp: insert_session_Inr session_row_of_def find_append)

lemma service_ok_insert:
  assumes ok: "service_ok d" and ins: "insert_session i now a m d = Inr (s, d')"
  shows "service_ok d'"
proof -
  from ins have new: "session_row_of d i = None" and ag: "has_agent d a"
    and fresh: "\<not> request_id_taken d DEFAULT_TENANT_ID m"
    and d': "d' = d\<lparr>sessions := sessions d @ [\<lparr>s_id = i, s_tenant_id = DEFAULT_TENANT_ID,
            s_agent_id = a, s_status = ''active'', s_last_sequence = 0, s_metadata = m,
            s_created_at = now, s_updated_at = now\<rparr>]\<rparr>"
    by (simp_all add: insert_session_Inr)
  have log: "session_log d i = []" using log_empty_if_absent[OF ok new] .
  have ids: "i \<notin> s_id ` set (sessions d)"
    using new by (auto simp: session_row_of_def find_None_iff)
  have ev: "events d' = events d" by (simp add: d')
  have ha: "has_agent d' = has_agent d" by (rule has_agent_cong) (simp add: d')
  have "request_ids_unique d'"
    using ok fresh
    by (auto simp: d' service_ok_def request_ids_unique_def request_id_taken_def list_ex_iff
        split: option.splits)
  moreover have "\<forall>e \<in> set (events d'). event_row_ok d' e"
    using ok session_row_of_insert[OF _ ins] by (fastforce simp: service_ok_def event_row_ok_def ev)
  moreover have "\<forall>r \<in> set (sessions d'). session_status_of (s_status r) \<noteq> None
      \<and> has_agent d' (s_agent_id r) \<and> dense_log d' r"
    using ok ha ag log status_roundtrip[of ACTIVE]
    by (auto simp: service_ok_def dense_log_def d' int4_max_def)
  moreover have "distinct (map s_id (sessions d'))"
    using ok ids by (simp add: service_ok_def d')
  ultimately show ?thesis by (simp add: service_ok_def)
qed

lemma find_by_request_id_Some:
  "find_session_by_request_id rid tn d = Inr (Some s) \<Longrightarrow>
     se_id s \<in> s_id ` set (sessions d) \<and> request_id_text (se_metadata s) = Some rid"
  by (auto simp: find_session_by_request_id_def row_to_session_def returns_iff
      split: option.splits dest!: find_SomeD)

text \<open>The outcome of a call: a stored row with this request id, or a fresh row.\<close>

lemma create_session_db:
  "create_session i now a m rid d = Inr (s, d') \<Longrightarrow>
     d' = d \<or> (\<exists>merged. merge_metadata m rid = Inr merged
                 \<and> insert_session i now a merged d = Inr (s, d'))"
  by (auto simp: create_session_def create_session_racing_def returns_iff Let_def
      split: option.splits sum.splits session_error.splits)

section \<open>The interface holds\<close>

lemma mark_complete_Inr [returns_iff]:
  "mark_complete now sid d = Inr (st, d') \<longleftrightarrow>
     (\<exists>r cur. session_row_of d sid = Some r \<and> session_status_of (s_status r) = Some cur
        \<and> (if cur \<noteq> ACTIVE then st = cur \<and> d' = d
           else st = COMPLETED
             \<and> d' = update_session_row sid
                 (\<lambda>r. r\<lparr>s_status := status_value COMPLETED, s_updated_at := now\<rparr>) d))"
proof (cases "session_row_of d sid")
  case (Some r)
  then show ?thesis
    by (cases "session_status_of (s_status r)")
      (auto simp: mark_complete_def mark_session_complete_def store_get_session_def
        row_to_session_def is_terminal_def simp del: status_value.simps)
qed (simp add: mark_complete_def mark_session_complete_def store_get_session_def)

lemma service_step_ok:
  assumes ok: "service_ok d" and st: "service_step a d = Inr d'"
  shows "service_ok d'"
proof (cases a)
  case (CreateSession i now ag m rid)
  with st obtain s where "create_session i now ag m rid d = Inr (s, d')"
    by (auto simp: returns_iff)
  then show ?thesis using create_session_db[of i now ag m rid d s d'] service_ok_insert[OF ok] ok
    by blast
next
  case (EmitEvent now sid eid t p)
  with st ok show ?thesis by (auto simp: returns_iff intro: service_ok_appended)
next
  case (MarkComplete now sid)
  have "session_status_of (status_value COMPLETED) \<noteq> None" by (simp only: status_roundtrip) simp
  with MarkComplete st ok show ?thesis
    by (auto simp: returns_iff simp del: status_value.simps split: if_splits
        intro!: service_ok_status_update)
qed

lemma service_step_log:
  assumes "service_step a d = Inr d'"
  shows "prefix (session_log d sid) (session_log d' sid)"
proof (cases a)
  case (CreateSession i now ag m rid)
  with assms obtain s where "create_session i now ag m rid d = Inr (s, d')"
    by (auto simp: returns_iff)
  then show ?thesis by (auto simp: insert_session_Inr dest!: create_session_db)
qed (use assms in \<open>auto simp: returns_iff split: if_splits\<close>)

lemma service_step_closed:
  assumes st: "service_step a d = Inr d'" and cl: "session_closed d sid"
  shows "session_closed d' sid \<and> session_log d' sid = session_log d sid"
proof -
  from cl obtain r cur where r: "session_row_of d sid = Some r"
      "session_status_of (s_status r) = Some cur" "cur \<noteq> ACTIVE"
    by (auto simp: session_closed_def split: option.splits)
  show ?thesis
  proof (cases a)
    case (CreateSession i now ag m rid)
    with st obtain s where "create_session i now ag m rid d = Inr (s, d')"
      by (auto simp: returns_iff)
    then consider "d' = d" | merged where "insert_session i now ag merged d = Inr (s, d')"
      by (auto dest!: create_session_db)
    then show ?thesis
    proof cases
      case 2
      then have "session_row_of d' sid = Some r" "session_log d' sid = session_log d sid"
        using session_row_of_insert[OF r(1)] by (auto simp: insert_session_Inr)
      with r show ?thesis by (simp add: session_closed_def)
    qed (use cl in simp)
  next
    case (EmitEvent now sid' eid t p)
    with st r cl show ?thesis by (auto simp: returns_iff session_closed_def)
  next
    case (MarkComplete now sid')
    with st r cl show ?thesis
      by (auto simp: returns_iff session_closed_def split: if_splits)
  qed
qed

interpretation svc: append_only_store service_step service_ok session_log session_closed
  by unfold_locales (use service_step_ok service_step_log service_step_closed in blast)+

text \<open>In every history of service calls from a database that satisfies the invariant,
  the invariant holds again: constraints, valid codes, and event sequences of each session
  that run from 1 to \<open>last_sequence\<close> without a gap or a duplicate.\<close>

theorem service_history_ok:
  "service_ok d \<Longrightarrow> service_ok (run_ops service_step ops d)"
  by (rule svc.run_inv)


section \<open>Idempotent creation\<close>

lemma merge_metadata_rid:
  "merge_metadata m (Some rid) = Inr merged \<Longrightarrow> dget merged ''request_id'' = JStr rid"
  by (auto simp: merge_metadata_def Let_def split: if_splits)

lemma request_id_text_merged:
  "merge_metadata m (Some rid) = Inr merged \<Longrightarrow> request_id_text merged = Some rid"
  by (simp add: request_id_text_def merge_metadata_rid)

lemma create_session_rid:
  assumes "merge_metadata m (Some rid) = Inr merged"
    and "find_session_by_request_id rid DEFAULT_TENANT_ID d1 = Inr None"
  shows "create_session_racing i now a m (Some rid) d1 d2 d3 =
    (case insert_session i now a merged d2 of
       Inr (s, d') \<Rightarrow> Inr (s, d')
     | Inl IntegrityError \<Rightarrow>
         bindE (find_session_by_request_id rid DEFAULT_TENANT_ID d3) (\<lambda>again.
           case again of Some s \<Rightarrow> Inr (s, d3) | None \<Rightarrow> Inl RuntimeError)
     | Inl e \<Rightarrow> Inl e)"
  using assms merge_metadata_rid[OF assms(1)]
  by (simp add: create_session_racing_def split: sum.split session_error.split)

lemma create_session_rid_hit:
  assumes "merge_metadata m (Some rid) = Inr merged"
    and "find_session_by_request_id rid DEFAULT_TENANT_ID d1 = Inr (Some s)"
  shows "create_session_racing i now a m (Some rid) d1 d2 d3 = Inr (s, d2)"
  using assms merge_metadata_rid[OF assms(1)] by (simp add: create_session_racing_def)

lemma find_after_insert:
  assumes "find_session_by_request_id rid DEFAULT_TENANT_ID d = Inr None"
    and "insert_session i now a m d = Inr (s, d')" and "request_id_text m = Some rid"
  shows "find_session_by_request_id rid DEFAULT_TENANT_ID d' = Inr (Some s)"
  using assms status_roundtrip[of ACTIVE]
  by (auto simp: find_session_by_request_id_def insert_session_Inr find_append row_to_session_def
      returns_iff split: option.splits)

lemma found_is_taken:
  assumes "find_session_by_request_id rid DEFAULT_TENANT_ID d = Inr (Some s)"
    and "request_id_text m = Some rid"
  shows "insert_session i now a m d = Inl IntegrityError"
proof -
  from assms(1) obtain r where "r \<in> set (sessions d)" "s_tenant_id r = DEFAULT_TENANT_ID"
      "request_id_text (s_metadata r) = Some rid"
    by (auto simp: find_session_by_request_id_def returns_iff split: option.splits dest!: find_SomeD)
  then have "request_id_taken d DEFAULT_TENANT_ID m"
    using assms(2) by (auto simp: request_id_taken_def list_ex_iff)
  then show ?thesis by (simp add: insert_session_def)
qed

text \<open>C17. \<open>create_session\<close> is idempotent on the request id: repeating a call that returned,
  with the same request id and whatever agent, metadata, fresh id and time, returns the same
  session and creates nothing.\<close>

theorem create_session_idempotent:
  assumes first: "create_session i now a m (Some rid) d = Inr (s, d')"
    and merges: "is_return (merge_metadata m2 (Some rid))"
  shows "create_session i2 now2 a2 m2 (Some rid) d' = Inr (s, d')"
proof -
  from merges obtain merged2 where m2: "merge_metadata m2 (Some rid) = Inr merged2"
    by (auto simp: is_return_iff)
  from first obtain merged where m: "merge_metadata m (Some rid) = Inr merged"
    by (auto simp: create_session_def create_session_racing_def returns_iff)
  have "find_session_by_request_id rid DEFAULT_TENANT_ID d' = Inr (Some s)"
  proof (cases "find_session_by_request_id rid DEFAULT_TENANT_ID d")
    case (Inl e)
    with first m merge_metadata_rid[OF m] show ?thesis
      by (simp add: create_session_def create_session_racing_def)
  next
    case (Inr found)
    show ?thesis
    proof (cases found)
      case None
      with Inr first create_session_rid[OF m, of d i now a d d]
      have "insert_session i now a merged d = Inr (s, d')"
        by (auto simp: create_session_def split: sum.splits session_error.splits)
      with find_after_insert None Inr request_id_text_merged[OF m] show ?thesis by blast
    next
      case (Some s')
      with Inr first create_session_rid_hit[OF m, of d s' i now a d d] show ?thesis
        by (simp add: create_session_def)
    qed
  qed
  then show ?thesis using create_session_rid_hit[OF m2] by (simp add: create_session_def)
qed

text \<open>Losing the race is harmless: if another writer commits a session with the same
  request id after the lookup and before the insert, the unique index rejects the insert and
  the retry returns the other writer's session, with the database as that writer left it.\<close>

theorem create_session_lost_race:
  assumes "find_session_by_request_id rid DEFAULT_TENANT_ID d1 = Inr None"
    and "find_session_by_request_id rid DEFAULT_TENANT_ID d2 = Inr (Some s)"
    and "is_return (merge_metadata m (Some rid))"
  shows "create_session_racing i now a m (Some rid) d1 d2 d2 = Inr (s, d2)"
proof -
  from assms(3) obtain merged where m: "merge_metadata m (Some rid) = Inr merged"
    by (auto simp: is_return_iff)
  show ?thesis
    using create_session_rid[OF m assms(1)] found_is_taken[OF assms(2) request_id_text_merged[OF m]]
      assms(2) by simp
qed

section \<open>Reading the log\<close>

lemma filter_upto_drop:
  "map f rs = [lo..hi] \<Longrightarrow> filter (\<lambda>r. a \<le> f r) rs = drop (nat (a - lo)) rs"
proof (induction rs arbitrary: lo)
  case (Cons r rs)
  then have "lo \<le> hi" by (metis list.map_disc_iff neq_Nil_conv upto_Nil2 not_le)
  with Cons.prems have r: "f r = lo" "map f rs = [lo + 1..hi]" by (auto simp: upto_rec1)
  show ?case
  proof (cases "a \<le> lo")
    case True
    have "filter (\<lambda>r. a \<le> f r) rs = drop (nat (a - (lo + 1))) rs" by (rule Cons.IH[OF r(2)])
    with True r show ?thesis by simp
  next
    case False
    then have "nat (a - lo) = Suc (nat (a - (lo + 1)))" by simp
    with Cons.IH[OF r(2)] False r show ?thesis by simp
  qed
qed simp

lemma log_map_sequence:
  assumes "service_ok d"
  obtains n where "map e_sequence (session_log d sid) = [1..n]"
proof (cases "session_row_of d sid")
  case None
  then have "map e_sequence (session_log d sid) = [1..0]" using log_empty_if_absent assms by simp
  then show ?thesis by (rule that)
next
  case (Some r)
  then show ?thesis using service_ok_log[OF assms] that by blast
qed

lemma select_events_log:
  assumes "service_ok d"
  shows "select_events sid a b ts cap d =
    rows_to_events (take cap (filter (\<lambda>r. a \<le> e_sequence r
       \<and> (case b of None \<Rightarrow> True | Some b \<Rightarrow> e_sequence r \<le> b)
       \<and> (case ts of None \<Rightarrow> True | Some ts \<Rightarrow> ts = [] \<or> e_type r \<in> set (map event_type_value ts)))
      (session_log d sid)))"
proof -
  obtain n where "map e_sequence (session_log d sid) = [1..n]" by (rule log_map_sequence[OF assms])
  then have "sorted (map e_sequence (filter P (session_log d sid)))" for P
    by (metis sorted_filter sorted_upto)
  then have sorted: "sort_key e_sequence (filter P (session_log d sid)) = filter P (session_log d sid)" for P
    by (simp add: sort_key_id_if_sorted)
  have "filter (\<lambda>r. e_session_id r = sid \<and> P r) (events d) = filter P (session_log d sid)" for P
    by (simp add: session_log_def conj_commute)
  then show ?thesis unfolding select_events_def by (simp only: sorted)
qed

text \<open>Reading from sequence \<open>a\<close> returns the events of the session from position \<open>a\<close> on, in
  log order, at most \<open>limit\<close> and never more than 10,000 of them.\<close>

theorem get_events_from:
  assumes "service_ok d" and "1 \<le> a" and "1 \<le> cap"
  shows "get_events sid (Some a) None None cap d =
    rows_to_events (take (nat (min cap 10000)) (drop (nat (a - 1)) (session_log d sid)))"
proof -
  obtain n where n: "map e_sequence (session_log d sid) = [1..n]"
    by (rule log_map_sequence[OF assms(1)])
  show ?thesis
    using assms filter_upto_drop[OF n, of a]
    by (simp add: get_events_def select_events_log MAX_EVENTS_LIMIT_def)
qed

lemma get_events_default_log:
  "service_ok d \<Longrightarrow> get_events_default sid d = rows_to_events (take 1000 (session_log d sid))"
proof -
  assume ok: "service_ok d"
  obtain n where n: "map e_sequence (session_log d sid) = [1..n]" by (rule log_map_sequence[OF ok])
  show ?thesis
    using filter_upto_drop[OF n, of 1] ok
    by (simp add: get_events_def select_events_log MAX_EVENTS_LIMIT_def DEFAULT_EVENTS_LIMIT_def)
qed

text \<open>C25. The default read is the first 1,000 events. The harness and the SDK read the log this
  way, so once a session has 1,000 events nothing later, not even a new user message, changes
  what they see.\<close>

theorem default_read_saturates:
  assumes "service_ok d" and "1000 \<le> length (session_log d sid)"
  shows "get_events_default sid (run_ops service_step ops d) = get_events_default sid d"
proof -
  obtain rest where "session_log (run_ops service_step ops d) sid = session_log d sid @ rest"
    using svc.run_log[OF assms(1), of sid ops] by (auto simp: prefix_def)
  then show ?thesis
    using assms svc.run_inv[OF assms(1), of ops] by (simp add: get_events_default_log)
qed

end
