(* ===== verification/Emit_Concurrency.thy ===== *)
theory Emit_Concurrency
  imports Session_Runs
begin

text \<open>
  Concurrent emitters. \<open>emit_event\<close> is split into the statements of its transaction: take
  the session's advisory lock, look the event id up, load \<open>last_sequence\<close> and the status,
  insert and bump. Any number of emitters interleave, statement by statement, with each
  other and with \<open>create_session\<close> and \<open>mark_complete\<close>, which do not take the lock. Writes
  become visible at commit, which also releases the lock, so the insert, the bump and the
  commit are one step; every other statement reads the committed tables.
\<close>

section \<open>Emitters\<close>

record emit_request =
  rq_session :: uuid
  rq_event :: uuid
  rq_type :: event_type
  rq_payload :: dict
  rq_now :: int

datatype emitter =
    Idle
  | Waiting emit_request
  | Locked emit_request
  | Checked emit_request
  | Loaded emit_request int
  | Finished "session_error + event"

record cluster =
  cl_db :: db
  cl_lock :: "uuid \<Rightarrow> nat option"
  cl_emitters :: "nat \<Rightarrow> emitter"

text \<open>End of a transaction of emitter \<open>i\<close>: the lock is free again.\<close>

definition finish :: "nat \<Rightarrow> emit_request \<Rightarrow> session_error + event \<Rightarrow> cluster \<Rightarrow> cluster" where
  "finish i q r c = c\<lparr>cl_lock := (cl_lock c)(rq_session q := None),
                      cl_emitters := (cl_emitters c)(i := Finished r)\<rparr>"

definition goto :: "nat \<Rightarrow> emitter \<Rightarrow> cluster \<Rightarrow> cluster" where
  "goto i e c = c\<lparr>cl_emitters := (cl_emitters c)(i := e)\<rparr>"

text \<open>The result of the insert, with the \<open>IntegrityError\<close> handler.\<close>

definition insert_result :: "emit_request \<Rightarrow> int \<Rightarrow> db \<Rightarrow> session_error + event \<times> db" where
  "insert_result q n d =
     (case insert_event_and_bump_sequence (rq_now q) (rq_session q) (rq_event q) (rq_type q)
             (rq_payload q) (n + 1) d of
        Inl IntegrityError \<Rightarrow> Inl RuntimeError
      | r \<Rightarrow> r)"

fun takes_no_lock :: "service_op \<Rightarrow> bool" where
  "takes_no_lock (EmitEvent _ _ _ _ _) = False"
| "takes_no_lock _ = True"

inductive cluster_step :: "cluster \<Rightarrow> cluster \<Rightarrow> bool" where
  request: "cl_emitters c i = Idle \<Longrightarrow>
     encode_payload_length (rq_payload q) \<le> MAX_PAYLOAD_BYTES \<Longrightarrow>
     cluster_step c (goto i (Waiting q) c)"
| acquire: "cl_emitters c i = Waiting q \<Longrightarrow> cl_lock c (rq_session q) = None \<Longrightarrow>
     cluster_step c (goto i (Locked q) (c\<lparr>cl_lock := (cl_lock c)(rq_session q := Some i)\<rparr>))"
| replay: "cl_emitters c i = Locked q \<Longrightarrow>
     find_event_by_id (rq_session q) (rq_event q) (cl_db c) = Inr (Some e) \<Longrightarrow>
     cluster_step c (finish i q (Inr e) c)"
| unreadable: "cl_emitters c i = Locked q \<Longrightarrow>
     find_event_by_id (rq_session q) (rq_event q) (cl_db c) = Inl er \<Longrightarrow>
     cluster_step c (finish i q (Inl er) c)"
| miss: "cl_emitters c i = Locked q \<Longrightarrow>
     find_event_by_id (rq_session q) (rq_event q) (cl_db c) = Inr None \<Longrightarrow>
     cluster_step c (goto i (Checked q) c)"
| load: "cl_emitters c i = Checked q \<Longrightarrow>
     load_session_for_emit (rq_session q) (cl_db c) = Inr (n, st) \<Longrightarrow> st \<notin> TERMINAL_STATUSES \<Longrightarrow>
     cluster_step c (goto i (Loaded q n) c)"
| terminal: "cl_emitters c i = Checked q \<Longrightarrow>
     load_session_for_emit (rq_session q) (cl_db c) = Inr (n, st) \<Longrightarrow> st \<in> TERMINAL_STATUSES \<Longrightarrow>
     cluster_step c (finish i q (Inl (FailedPreconditionError st)) c)"
| load_error: "cl_emitters c i = Checked q \<Longrightarrow>
     load_session_for_emit (rq_session q) (cl_db c) = Inl er \<Longrightarrow>
     cluster_step c (finish i q (Inl er) c)"
| insert: "cl_emitters c i = Loaded q n \<Longrightarrow> insert_result q n (cl_db c) = Inr (e, d') \<Longrightarrow>
     cluster_step c (finish i q (Inr e) (c\<lparr>cl_db := d'\<rparr>))"
| insert_error: "cl_emitters c i = Loaded q n \<Longrightarrow> insert_result q n (cl_db c) = Inl er \<Longrightarrow>
     cluster_step c (finish i q (Inl er) c)"
| other: "takes_no_lock a \<Longrightarrow> service_step a (cl_db c) = Inr d' \<Longrightarrow>
     cluster_step c (c\<lparr>cl_db := d'\<rparr>)"

definition cluster_init :: "db \<Rightarrow> cluster" where
  "cluster_init d = \<lparr>cl_db = d, cl_lock = (\<lambda>_. None), cl_emitters = (\<lambda>_. Idle)\<rparr>"

inductive cluster_reachable :: "db \<Rightarrow> cluster \<Rightarrow> bool" for d where
  start: "cluster_reachable d (cluster_init d)"
| step: "cluster_reachable d c \<Longrightarrow> cluster_step c c' \<Longrightarrow> cluster_reachable d c'"

section \<open>The invariant\<close>

fun holds_lock :: "emitter \<Rightarrow> uuid \<Rightarrow> bool" where
  "holds_lock (Locked q) sid = (rq_session q = sid)"
| "holds_lock (Checked q) sid = (rq_session q = sid)"
| "holds_lock (Loaded q _) sid = (rq_session q = sid)"
| "holds_lock _ sid = False"

definition unseen :: "db \<Rightarrow> emit_request \<Rightarrow> bool" where
  "unseen d q \<longleftrightarrow> (\<forall>r \<in> set (session_log d (rq_session q)). e_id r \<noteq> rq_event q)"

fun emitter_ok :: "db \<Rightarrow> emitter \<Rightarrow> bool" where
  "emitter_ok d (Checked q) = unseen d q"
| "emitter_ok d (Loaded q n) =
     (unseen d q \<and> (\<exists>r. session_row_of d (rq_session q) = Some r \<and> s_last_sequence r = n))"
| "emitter_ok d (Finished r) = (case r of Inl er \<Rightarrow> er \<noteq> RuntimeError
     | Inr e \<Rightarrow> (\<exists>x \<in> set (events d). row_to_event x = Inr e))"
| "emitter_ok d _ = True"

definition cluster_ok :: "cluster \<Rightarrow> bool" where
  "cluster_ok c \<longleftrightarrow> service_ok (cl_db c)
     \<and> (\<forall>i sid. cl_lock c sid = Some i \<longleftrightarrow> holds_lock (cl_emitters c i) sid)
     \<and> (\<forall>i. emitter_ok (cl_db c) (cl_emitters c i))"

lemma holds_lock_unique: "holds_lock e sid \<Longrightarrow> holds_lock e sid' \<Longrightarrow> sid = sid'"
  by (cases e) auto

text \<open>A change of the database that an emitter cannot notice: its own log and pointer stay.\<close>

lemma emitter_ok_cong:
  assumes "emitter_ok d e"
    and "\<And>sid. holds_lock e sid \<Longrightarrow> session_log d' sid = session_log d sid"
    and "\<And>sid r. holds_lock e sid \<Longrightarrow> session_row_of d sid = Some r \<Longrightarrow>
      \<exists>r'. session_row_of d' sid = Some r' \<and> s_last_sequence r' = s_last_sequence r"
    and "set (events d) \<subseteq> set (events d')"
  shows "emitter_ok d' e"
proof (cases e)
  case (Loaded q n)
  with assms show ?thesis by (fastforce simp: unseen_def)
qed (use assms in \<open>auto simp: unseen_def split: sum.splits\<close>)

lemma cluster_ok_goto:
  assumes "cluster_ok c" and "emitter_ok (cl_db c) e"
    and "\<And>sid. holds_lock e sid \<longleftrightarrow> holds_lock (cl_emitters c i) sid"
  shows "cluster_ok (goto i e c)"
  using assms by (auto simp: cluster_ok_def goto_def)

lemma cluster_ok_finish:
  assumes ok: "cluster_ok c" and own: "holds_lock (cl_emitters c i) (rq_session q)"
    and r: "emitter_ok (cl_db c) (Finished r)"
  shows "cluster_ok (finish i q r c)"
proof -
  have lock: "cl_lock c sid = Some j \<longleftrightarrow> holds_lock (cl_emitters c j) sid" for sid j
    using ok by (simp add: cluster_ok_def)
  have "(cl_lock (finish i q r c) sid = Some j) \<longleftrightarrow> holds_lock (cl_emitters (finish i q r c) j) sid"
    for sid j
    using lock[of sid j] lock[of "rq_session q" i] own holds_lock_unique[of "cl_emitters c i"]
    by (auto simp: finish_def)
  with ok r show ?thesis by (auto simp: cluster_ok_def finish_def)
qed

lemma insert_result_ok:
  assumes ok: "service_ok d" and q: "emitter_ok d (Loaded q n)"
  shows "insert_result q n d =
    (if int4_max < n + 1 then Inl DataError
     else Inr (new_event (rq_now q) (rq_session q) (rq_event q) (rq_type q) (rq_payload q) (n + 1),
               appended (rq_now q) (rq_session q) (rq_event q) (rq_type q) (rq_payload q) (n + 1) d))"
proof -
  from q obtain r where r: "session_row_of d (rq_session q) = Some r" "s_last_sequence r = n"
    and new: "unseen d q" by auto
  have "\<not> event_key_taken d (rq_session q) (rq_event q) (n + 1)"
    using fresh_key[OF ok r(1)] new r(2) by (simp add: unseen_def)
  with r show ?thesis
    by (simp add: insert_result_def insert_event_and_bump_sequence_def appended_def Let_def)
qed

lemma insert_result_event:
  "insert_result q n d = Inr (e, d') \<Longrightarrow> \<exists>x \<in> set (events d'). row_to_event x = Inr e"
  by (auto simp: insert_result_def insert_event_Inr appended_def
      split: sum.splits session_error.splits)

lemma cluster_ok_insert:
  assumes ok: "cluster_ok c" and pc: "cl_emitters c i = Loaded q n"
    and ins: "insert_result q n (cl_db c) = Inr (e, d')"
  shows "cluster_ok (c\<lparr>cl_db := d', cl_emitters := (cl_emitters c)(i := Locked q)\<rparr>)"
proof -
  have eok: "emitter_ok (cl_db c) (Loaded q n)" using ok pc by (metis cluster_ok_def)
  have sok: "service_ok (cl_db c)" using ok by (simp add: cluster_ok_def)
  from ins insert_result_ok[OF sok eok]
  have d': "d' = appended (rq_now q) (rq_session q) (rq_event q) (rq_type q) (rq_payload q) (n + 1) (cl_db c)"
    and n: "n + 1 \<le> int4_max" by (auto split: if_splits)
  from eok obtain r where r: "session_row_of (cl_db c) (rq_session q) = Some r"
      "s_last_sequence r = n" and new: "unseen (cl_db c) q" by auto
  have "service_ok d'"
    unfolding d' r(2)[symmetric]
    using service_ok_appended[OF sok r(1)] n r(2) new by (simp add: unseen_def)
  moreover have "emitter_ok d' (cl_emitters c j)" if "j \<noteq> i" for j
  proof (rule emitter_ok_cong[where d = "cl_db c"])
    show "emitter_ok (cl_db c) (cl_emitters c j)" using ok by (simp add: cluster_ok_def)
    have other: "sid \<noteq> rq_session q" if "holds_lock (cl_emitters c j) sid" for sid
    proof
      assume "sid = rq_session q"
      then have "cl_lock c sid = Some j" "cl_lock c sid = Some i"
        using ok pc that by (auto simp: cluster_ok_def)
      with \<open>j \<noteq> i\<close> show False by simp
    qed
    show "session_log d' sid = session_log (cl_db c) sid" if "holds_lock (cl_emitters c j) sid" for sid
      using other[OF that] by (simp add: d')
    show "\<exists>r'. session_row_of d' sid = Some r' \<and> s_last_sequence r' = s_last_sequence r"
      if "holds_lock (cl_emitters c j) sid" "session_row_of (cl_db c) sid = Some r" for sid r
      using other[OF that(1)] that(2) by (simp add: d')
    show "set (events (cl_db c)) \<subseteq> set (events d')" by (auto simp: d' appended_def)
  qed
  ultimately show ?thesis using ok pc by (auto simp: cluster_ok_def)
qed

lemma other_step_stable:
  assumes "takes_no_lock a" and "service_step a d = Inr d'"
  shows "session_log d' sid = session_log d sid"
    and "session_row_of d sid = Some r \<Longrightarrow>
      \<exists>r'. session_row_of d' sid = Some r' \<and> s_last_sequence r' = s_last_sequence r"
proof -
  have "session_log d' sid = session_log d sid \<and> (session_row_of d sid = Some r \<longrightarrow>
      (\<exists>r'. session_row_of d' sid = Some r' \<and> s_last_sequence r' = s_last_sequence r))"
  proof (cases a)
    case (CreateSession i now ag m rid)
    with assms obtain s where "create_session i now ag m rid d = Inr (s, d')"
      by (auto simp: returns_iff)
    then consider "d' = d" | merged where "insert_session i now ag merged d = Inr (s, d')"
      by (auto dest!: create_session_db)
    then show ?thesis
    proof cases
      case 2
      then have "session_log d' sid = session_log d sid" by (simp add: insert_session_Inr)
      with session_row_of_insert[OF _ 2] show ?thesis by blast
    qed simp
  next
    case (MarkComplete now sid')
    with assms show ?thesis by (auto simp: returns_iff split: if_splits)
  qed (use assms in simp)
  then show "session_log d' sid = session_log d sid"
    and "session_row_of d sid = Some r \<Longrightarrow>
      \<exists>r'. session_row_of d' sid = Some r' \<and> s_last_sequence r' = s_last_sequence r" by auto
qed

lemma other_step_events:
  assumes "takes_no_lock a" and "service_step a d = Inr d'"
  shows "events d' = events d"
  using assms
proof (cases a)
  case (CreateSession i now ag m rid)
  with assms obtain s where "create_session i now ag m rid d = Inr (s, d')"
    by (auto simp: returns_iff)
  then show ?thesis by (auto simp: insert_session_Inr dest!: create_session_db)
qed (auto simp: returns_iff split: if_splits)

lemma find_event_Some:
  "find_event_by_id sid eid d = Inr (Some e) \<Longrightarrow> \<exists>x \<in> set (events d). row_to_event x = Inr e"
  by (auto simp: find_event_by_id_def returns_iff split: option.splits dest!: find_SomeD)

lemma find_event_error: "find_event_by_id sid eid d = Inl er \<Longrightarrow> er = ValueError"
  by (auto simp: find_event_by_id_def row_to_event_def split: option.splits)

lemma load_session_error: "load_session_for_emit sid d = Inl er \<Longrightarrow> er \<noteq> RuntimeError"
  by (auto simp: load_session_for_emit_def split: option.splits)

lemma cluster_step_ok:
  assumes "cluster_step c c'" and ok: "cluster_ok c"
  shows "cluster_ok c'"
  using assms(1)
proof cases
  case (request i q)
  with ok show ?thesis by (auto intro!: cluster_ok_goto)
next
  case (acquire i q)
  have "cl_lock c (rq_session q) \<noteq> Some j" for j using acquire by simp
  then have "\<not> holds_lock (cl_emitters c j) (rq_session q)" for j
    using ok by (auto simp: cluster_ok_def)
  with acquire ok show ?thesis by (auto simp: cluster_ok_def goto_def)
next
  case (replay i q e)
  with ok find_event_Some show ?thesis by (auto intro!: cluster_ok_finish)
next
  case (unreadable i q er)
  with ok find_event_error show ?thesis by (force intro!: cluster_ok_finish)
next
  case (miss i q)
  with ok show ?thesis by (auto intro!: cluster_ok_goto simp: find_event_None unseen_def)
next
  case (load i q n st)
  then have "unseen (cl_db c) q" using ok by (metis cluster_ok_def emitter_ok.simps(1))
  with load ok show ?thesis by (auto intro!: cluster_ok_goto simp: load_session_Inr)
next
  case (terminal i q n st)
  with ok show ?thesis by (auto intro!: cluster_ok_finish)
next
  case (load_error i q er)
  with ok load_session_error show ?thesis by (force intro!: cluster_ok_finish)
next
  case (insert i q n e d')
  have "finish i q (Inr e) (c\<lparr>cl_db := d'\<rparr>) =
      finish i q (Inr e) (c\<lparr>cl_db := d', cl_emitters := (cl_emitters c)(i := Locked q)\<rparr>)"
    by (simp add: finish_def)
  moreover have "cluster_ok \<dots>"
    using insert_result_event[OF insert(3)]
    by (intro cluster_ok_finish[OF cluster_ok_insert[OF ok insert(2,3)]]) simp_all
  ultimately show ?thesis using insert(1) by simp
next
  case (insert_error i q n er)
  have "emitter_ok (cl_db c) (Loaded q n)" "service_ok (cl_db c)"
    using ok insert_error(2) by (metis cluster_ok_def)+
  with insert_result_ok[of "cl_db c" q n] insert_error(3) have "er = DataError"
    by (simp split: if_splits)
  with insert_error ok show ?thesis by (auto intro!: cluster_ok_finish)
next
  case (other a d')
  note st = other_step_stable[OF other(2,3)]
  have em: "emitter_ok d' (cl_emitters c i)" for i
  proof (rule emitter_ok_cong[of "cl_db c"])
    show "emitter_ok (cl_db c) (cl_emitters c i)" using ok by (simp add: cluster_ok_def)
    show "set (events (cl_db c)) \<subseteq> set (events d')" using other_step_events[OF other(2,3)] by simp
  qed (rule st; assumption)+
  moreover have "service_ok d'" using service_step_ok[OF _ other(3)] ok by (simp add: cluster_ok_def)
  ultimately show ?thesis using ok other(1) by (simp add: cluster_ok_def)
qed

lemma cluster_ok_init: "service_ok d \<Longrightarrow> cluster_ok (cluster_init d)"
  by (simp add: cluster_ok_def cluster_init_def)

lemma cluster_reachable_ok: "cluster_reachable d c \<Longrightarrow> service_ok d \<Longrightarrow> cluster_ok c"
  by (induction rule: cluster_reachable.induct) (blast intro: cluster_ok_init cluster_step_ok)+

lemma event_of_key:
  assumes ok: "service_ok d" and x: "x \<in> set (events d)" "row_to_event x = Inr e"
    and y: "y \<in> set (events d)" "row_to_event y = Inr f"
    and same: "ev_session e = ev_session f" "ev_id e = ev_id f"
  shows "e = f"
proof -
  let ?sid = "ev_session e"
  have m: "x \<in> set (session_log d ?sid)" "y \<in> set (session_log d ?sid)"
    using x y same row_to_event_fields[OF x(2)] row_to_event_fields[OF y(2)]
    by (auto simp: session_log_def)
  have "session_log d ?sid \<noteq> []" using m(1) by auto
  then obtain r where "session_row_of d ?sid = Some r"
    using log_empty_if_absent[OF ok, of ?sid] by (cases "session_row_of d ?sid") auto
  from service_okD(1,4)[OF ok this] have "distinct (map e_id (session_log d ?sid))"
    by (simp add: dense_log_def)
  moreover have "e_id x = e_id y"
    using same row_to_event_fields[OF x(2)] row_to_event_fields[OF y(2)] by simp
  ultimately have "x = y" using m by (auto simp: distinct_map dest: inj_onD)
  then show ?thesis using x(2) y(2) by simp
qed

text \<open>C2. However emitters interleave with each other and with the operations that take no
  lock, the tables stay well formed (the sequences of every session are 1, 2, 3, ... without
  gap or duplicate), at most one emitter is inside the critical section of a session, no
  emitter fails with the unique-constraint error, and two emitters that return an event with
  the same session and id return the very same stored event.\<close>

theorem concurrent_emit_safe:
  assumes "cluster_reachable d c" and "service_ok d"
  shows "service_ok (cl_db c)
    \<and> (holds_lock (cl_emitters c i) sid \<and> holds_lock (cl_emitters c j) sid \<longrightarrow> i = j)
    \<and> cl_emitters c i \<noteq> Finished (Inl RuntimeError)
    \<and> (cl_emitters c i = Finished (Inr e) \<and> cl_emitters c j = Finished (Inr f)
        \<and> ev_session e = ev_session f \<and> ev_id e = ev_id f \<longrightarrow> e = f)"
proof -
  have ok: "cluster_ok c" using cluster_reachable_ok assms by blast
  then have sok: "service_ok (cl_db c)"
    and lock: "\<And>i sid. cl_lock c sid = Some i \<longleftrightarrow> holds_lock (cl_emitters c i) sid"
    and em: "\<And>i. emitter_ok (cl_db c) (cl_emitters c i)" by (simp_all add: cluster_ok_def)
  have "cl_emitters c i \<noteq> Finished (Inl RuntimeError)" using em[of i] by auto
  moreover have "e = f" if "cl_emitters c i = Finished (Inr e)" "cl_emitters c j = Finished (Inr f)"
      "ev_session e = ev_session f" "ev_id e = ev_id f"
    using em[of i] em[of j] that event_of_key[OF sok] by auto
  ultimately show ?thesis using sok lock[of sid i] lock[of sid j] by auto
qed

end
