(* ===== verification/Examples_Sessions.thy ===== *)
theory Examples_Sessions
  imports Emit_Concurrency
begin

text \<open>Concrete databases, and the session properties applied to them.\<close>

definition sample_agent :: agent where
  "sample_agent =
     \<lparr>ag_id = 1, ag_tenant = DEFAULT_TENANT_ID, ag_name = ''a'', ag_model = ''m'',
      ag_framework = ''vanilla'', ag_system_prompt = Some ''be brief'', ag_tools = [],
      ag_sandbox_recipe = None, ag_created_at = 0\<rparr>"

definition sample_session :: session_row where
  "sample_session =
     \<lparr>s_id = 7, s_tenant_id = DEFAULT_TENANT_ID, s_agent_id = 1, s_status = ''active'',
      s_last_sequence = 2, s_metadata = [(''request_id'', JStr ''r'')],
      s_created_at = 0, s_updated_at = 0\<rparr>"

definition sample_event :: "uuid \<Rightarrow> int \<Rightarrow> string \<Rightarrow> dict \<Rightarrow> event_row" where
  "sample_event i n t p =
     \<lparr>e_id = i, e_session_id = 7, e_sequence = n, e_type = t, e_payload = p, e_created_at = 0\<rparr>"

text \<open>One open session with a user message and an answer.\<close>

definition sample_db :: db where
  "sample_db =
     \<lparr>agents = [sample_agent], sessions = [sample_session],
      events = [sample_event 11 1 ''user_message'' [(''content'', JStr ''hi'')],
                sample_event 12 2 ''assistant_message''
                  [(''content'', JStr ''hello''), (''is_complete'', JBool True)]]\<rparr>"

lemma sample_db_ok: "service_ok sample_db"
  by code_simp


theorem service_history_ok_witness:
  "service_ok (run_ops service_step [EmitEvent 5 7 13 USER_MESSAGE [], MarkComplete 6 7] sample_db)"
  by (rule service_history_ok[OF sample_db_ok])


definition sample_found :: session where
  "sample_found =
     \<lparr>se_id = 7, se_tenant = DEFAULT_TENANT_ID, se_agent = 1, se_status = ACTIVE,
       se_last_sequence = 2, se_metadata = [(''request_id'', JStr ''r'')], se_created_at = 0,
       se_updated_at = 0\<rparr>"

lemma sample_created:
  "create_session 8 5 1 None (Some ''r'') sample_db = Inr (sample_found, sample_db)"
  by code_simp

theorem create_session_idempotent_witness:
  "\<exists>s. create_session 9 6 2 (Some []) (Some ''r'') sample_db = Inr (s, sample_db)"
proof -
  have "is_return (merge_metadata (Some []) (Some ''r''))" by code_simp
  from create_session_idempotent[OF sample_created this, of 9 6 2] show ?thesis by blast
qed

theorem create_session_lost_race_witness:
  "create_session_racing 8 5 1 None (Some ''r'') (empty_db [sample_agent]) sample_db sample_db
     = Inr (sample_found, sample_db)"
proof (rule create_session_lost_race)
  show "find_session_by_request_id ''r'' DEFAULT_TENANT_ID (empty_db [sample_agent]) = Inr None"
    by code_simp
  show "find_session_by_request_id ''r'' DEFAULT_TENANT_ID sample_db = Inr (Some sample_found)"
    by code_simp
  show "is_return (merge_metadata None (Some ''r''))" by code_simp
qed

theorem get_events_from_witness:
  "get_events 7 (Some 2) None None 5 sample_db
    = rows_to_events (take (nat (min 5 10000)) (drop (nat (2 - 1)) (session_log sample_db 7)))"
  by (rule get_events_from[OF sample_db_ok]) simp_all

text \<open>A session with 1,000 events.\<close>

definition long_db :: db where
  "long_db =
     \<lparr>agents = [sample_agent], sessions = [sample_session\<lparr>s_last_sequence := 1000\<rparr>],
      events = map (\<lambda>n. sample_event (of_int n) n ''user_message'' []) [1..1000]\<rparr>"

lemma long_log: "session_log long_db 7 = events long_db"
  by (simp add: session_log_def long_db_def sample_event_def)

lemma long_db_ok: "service_ok long_db"
proof -
  have "uint (of_int n :: uuid) = n" if "n \<in> {1..1000}" for n
    using that by (simp add: unsigned_of_int take_bit_int_eq_self)
  then have inj: "inj_on (of_int :: int \<Rightarrow> uuid) {1..1000}" by (metis inj_onI)
  have "dense_log long_db (sample_session\<lparr>s_last_sequence := 1000\<rparr>)"
    using inj by (simp add: dense_log_def sample_session_def long_log[unfolded sample_session_def])
      (simp add: long_db_def sample_event_def int4_max_def o_def distinct_map)
  moreover have "session_row_of long_db 7 \<noteq> None"
    by (simp add: session_row_of_def long_db_def sample_session_def)
  moreover have "event_type_of ''user_message'' \<noteq> None" "session_status_of ''active'' \<noteq> None"
    by code_simp+
  ultimately show ?thesis
    by (auto simp: service_ok_def long_db_def event_row_ok_def sample_event_def sample_session_def
        has_agent_def sample_agent_def request_ids_unique_def)
qed

theorem default_read_saturates_witness:
  "get_events_default 7 (run_ops service_step [EmitEvent 5 7 2000 USER_MESSAGE []] long_db)
    = get_events_default 7 long_db"
proof -
  have "1000 \<le> length (session_log long_db 7)" by (simp add: long_log) (simp add: long_db_def)
  from default_read_saturates[OF long_db_ok this] show ?thesis .
qed

section \<open>Two emitters with one event\<close>

definition sample_request :: emit_request where
  "sample_request = \<lparr>rq_session = 7, rq_event = 20, rq_type = USER_MESSAGE, rq_payload = [],
     rq_now = 5\<rparr>"

definition sample_appended :: event where
  "sample_appended = \<lparr>ev_id = 20, ev_session = 7, ev_sequence = 3, ev_type = USER_MESSAGE,
     ev_payload = [], ev_created_at = 5\<rparr>"

definition sample_db2 :: db where
  "sample_db2 = appended 5 7 20 USER_MESSAGE [] 3 sample_db"

text \<open>Emitter 0 appends the event, emitter 1, which waited for the lock, finds it.\<close>

definition race_end :: cluster where
  "race_end = \<lparr>cl_db = sample_db2, cl_lock = (\<lambda>_. None),
     cl_emitters = (\<lambda>_. Idle)(0 := Finished (Inr sample_appended), 1 := Finished (Inr sample_appended))\<rparr>"

lemma race_reachable: "cluster_reachable sample_db race_end"
proof -
  let ?q = sample_request
  have q: "rq_session ?q = 7" by (simp add: sample_request_def)
  have "encode_payload_length (rq_payload ?q) = 2" by code_simp
  then have small: "encode_payload_length (rq_payload ?q) \<le> MAX_PAYLOAD_BYTES"
    by (simp add: MAX_PAYLOAD_BYTES_def)
  have miss: "find_event_by_id (rq_session ?q) (rq_event ?q) sample_db = Inr None" by code_simp
  have hit: "find_event_by_id (rq_session ?q) (rq_event ?q) sample_db2 = Inr (Some sample_appended)"
    by code_simp
  have loads: "load_session_for_emit (rq_session ?q) sample_db = Inr (2, ACTIVE)" by code_simp
  have ins: "insert_result ?q 2 sample_db = Inr (sample_appended, sample_db2)" by code_simp
  define c1 where "c1 = goto 0 (Waiting ?q) (cluster_init sample_db)"
  define c2 where "c2 = goto 1 (Waiting ?q) c1"
  define c3 where "c3 = goto 0 (Locked ?q) (c2\<lparr>cl_lock := (cl_lock c2)(rq_session ?q := Some 0)\<rparr>)"
  define c4 where "c4 = goto 0 (Checked ?q) c3"
  define c5 where "c5 = goto 0 (Loaded ?q 2) c4"
  define c6 where "c6 = finish 0 ?q (Inr sample_appended) (c5\<lparr>cl_db := sample_db2\<rparr>)"
  define c7 where "c7 = goto 1 (Locked ?q) (c6\<lparr>cl_lock := (cl_lock c6)(rq_session ?q := Some 1)\<rparr>)"
  define c8 where "c8 = finish 1 ?q (Inr sample_appended) c7"
  note cs = c1_def c2_def c3_def c4_def c5_def c6_def c7_def c8_def goto_def finish_def cluster_init_def q
  have "cluster_step (cluster_init sample_db) c1" unfolding c1_def
    by (rule cluster_step.request) (use small in \<open>simp_all add: cluster_init_def\<close>)
  moreover have "cluster_step c1 c2" unfolding c2_def
    by (rule cluster_step.request) (use small in \<open>simp_all add: cs\<close>)
  moreover have "cluster_step c2 c3" unfolding c3_def
    by (rule cluster_step.acquire) (simp_all add: cs)
  moreover have "cluster_step c3 c4" unfolding c4_def
    by (rule cluster_step.miss) (use miss in \<open>simp_all add: cs\<close>)
  moreover have "cluster_step c4 c5" unfolding c5_def
    by (rule cluster_step.load[where st = ACTIVE]) (use loads in \<open>simp_all add: cs\<close>)
  moreover have "cluster_step c5 c6" unfolding c6_def
    by (rule cluster_step.insert) (use ins in \<open>simp_all add: cs\<close>)
  moreover have "cluster_step c6 c7" unfolding c7_def
    by (rule cluster_step.acquire) (simp_all add: cs)
  moreover have "cluster_step c7 c8" unfolding c8_def
    by (rule cluster_step.replay) (use hit in \<open>simp_all add: cs\<close>)
  moreover have "c8 = race_end"
    by (simp add: cs race_end_def fun_eq_iff)
  ultimately show ?thesis
    using cluster_reachable.start[of sample_db] cluster_reachable.step by metis
qed

theorem concurrent_emit_safe_witness:
  "service_ok (cl_db race_end) \<and> cl_emitters race_end 1 \<noteq> Finished (Inl RuntimeError)"
  using concurrent_emit_safe[OF race_reachable sample_db_ok] by blast

end
