(* ===== verification/Router_Types.thy ===== *)
theory Router_Types
  imports Uuid_Text
begin

text \<open>
  The value types of \<open>router/types.py\<close>: streaming chunks with their factory functions,
  token usage, messages and content blocks, tool definitions, and the part of a profile
  the router reads. A float of a configuration is its exact rational value.
\<close>

section \<open>Chunks\<close>

datatype chunk_type =
    Text_Delta | Tool_Call_Start | Tool_Call_Delta | Tool_Call_End | Usage_Chunk | Done_Chunk
  | Error_Chunk

record model_chunk =
  ck_type :: chunk_type
  ck_content :: dict

text \<open>\<open>cost_usd\<close> is the text of the float.\<close>

record usage =
  input_tokens :: int
  output_tokens :: int
  cached_input_tokens :: int
  reasoning_tokens :: int
  cost_usd :: "string option"

definition usage_dump :: "usage \<Rightarrow> dict" where
  "usage_dump u =
     [(''input_tokens'', JInt (input_tokens u)), (''output_tokens'', JInt (output_tokens u)),
      (''cached_input_tokens'', JInt (cached_input_tokens u)),
      (''reasoning_tokens'', JInt (reasoning_tokens u)),
      (''cost_usd'', case cost_usd u of None \<Rightarrow> JNull | Some r \<Rightarrow> JFloat r)]"

definition text_delta :: "string \<Rightarrow> model_chunk" where
  "text_delta text = \<lparr>ck_type = Text_Delta, ck_content = [(''text'', JStr text)]\<rparr>"

definition tool_call_start :: "string \<Rightarrow> string \<Rightarrow> int \<Rightarrow> model_chunk" where
  "tool_call_start tool_id tool_name index =
     \<lparr>ck_type = Tool_Call_Start,
      ck_content = [(''tool_id'', JStr tool_id), (''tool_name'', JStr tool_name),
                    (''index'', JInt index)]\<rparr>"

definition tool_call_delta :: "string \<Rightarrow> string \<Rightarrow> int \<Rightarrow> model_chunk" where
  "tool_call_delta tool_id partial_json index =
     \<lparr>ck_type = Tool_Call_Delta,
      ck_content = [(''tool_id'', JStr tool_id), (''partial_json'', JStr partial_json),
                    (''index'', JInt index)]\<rparr>"

definition tool_call_end :: "string \<Rightarrow> string \<Rightarrow> dict \<Rightarrow> int \<Rightarrow> model_chunk" where
  "tool_call_end tool_id tool_name tool_input index =
     \<lparr>ck_type = Tool_Call_End,
      ck_content = [(''tool_id'', JStr tool_id), (''tool_name'', JStr tool_name),
                    (''input'', JObj tool_input), (''index'', JInt index)]\<rparr>"

definition usage_chunk :: "usage \<Rightarrow> model_chunk" where
  "usage_chunk u = \<lparr>ck_type = Usage_Chunk, ck_content = usage_dump u\<rparr>"

definition done_chunk :: model_chunk where
  "done_chunk = \<lparr>ck_type = Done_Chunk, ck_content = []\<rparr>"

definition error_chunk :: "string \<Rightarrow> bool \<Rightarrow> int option \<Rightarrow> model_chunk" where
  "error_chunk message retryable status_code =
     \<lparr>ck_type = Error_Chunk,
      ck_content = [(''message'', JStr message), (''retryable'', JBool retryable),
                    (''status_code'', case status_code of None \<Rightarrow> JNull | Some n \<Rightarrow> JInt n)]\<rparr>"

section \<open>Messages and tools\<close>

datatype role = System | User | Assistant | Tool

datatype block_type = Text_Block | Tool_Use | Tool_Result

record content_block =
  cb_type :: block_type
  cb_text :: "string option"
  cb_id :: "string option"
  cb_name :: "string option"
  cb_input :: "dict option"
  cb_tool_use_id :: "string option"
  cb_content :: "json option"
  cb_is_error :: "bool option"

definition text_block :: "string \<Rightarrow> content_block" where
  "text_block t = \<lparr>cb_type = Text_Block, cb_text = Some t, cb_id = None, cb_name = None,
     cb_input = None, cb_tool_use_id = None, cb_content = None, cb_is_error = None\<rparr>"

definition tool_use_block :: "string \<Rightarrow> string \<Rightarrow> dict \<Rightarrow> content_block" where
  "tool_use_block i n inp = \<lparr>cb_type = Tool_Use, cb_text = None, cb_id = Some i,
     cb_name = Some n, cb_input = Some inp, cb_tool_use_id = None, cb_content = None,
     cb_is_error = None\<rparr>"

definition result_block :: "string \<Rightarrow> json \<Rightarrow> bool option \<Rightarrow> content_block" where
  "result_block i c err = \<lparr>cb_type = Tool_Result, cb_text = None, cb_id = None,
     cb_name = None, cb_input = None, cb_tool_use_id = Some i, cb_content = Some c,
     cb_is_error = err\<rparr>"

datatype message_content = Plain string | Blocks "content_block list"

record message =
  role :: role
  content :: message_content

definition msg :: "role \<Rightarrow> message_content \<Rightarrow> message" where
  "msg r c = \<lparr>role = r, content = c\<rparr>"

record tool_def =
  td_name :: string
  td_description :: string
  td_input_schema :: dict

section \<open>Router profile\<close>

datatype caching_strategy = Explicit_Breakpoints | Automatic_Prefix | Explicit_Api | No_Caching

datatype breakpoint = After_System_Prompt | After_Compaction_Summary

record model_config =
  provider :: string
  model_id :: string
  display_name :: "string option"
  model_description :: "string option"

record caching_config =
  provider_strategy :: caching_strategy
  breakpoints :: "breakpoint list"
  cache_ttl_seconds :: int

record sampling =
  temperature :: rat
  top_p :: rat
  max_tokens :: int

record error_handling =
  retry_on_transient :: bool
  max_retries :: int
  backoff_base_seconds :: rat
  backoff_multiplier :: rat

record pricing =
  input_per_million :: rat
  output_per_million :: rat
  cached_input_per_million :: "rat option"

record router_profile =
  rp_model :: model_config
  rp_caching :: caching_config
  rp_sampling :: sampling
  rp_error_handling :: error_handling
  rp_pricing :: "pricing option"

lemma chunk_types [simp]:
  "ck_type (text_delta t) = Text_Delta"
  "ck_type (tool_call_start a b i) = Tool_Call_Start"
  "ck_type (tool_call_delta a p i) = Tool_Call_Delta"
  "ck_type (tool_call_end a b j i) = Tool_Call_End"
  "ck_type (usage_chunk u) = Usage_Chunk"
  "ck_type done_chunk = Done_Chunk"
  "ck_type (error_chunk m r s) = Error_Chunk"
  by (simp_all add: text_delta_def tool_call_start_def tool_call_delta_def tool_call_end_def
      usage_chunk_def done_chunk_def error_chunk_def)

lemma msg_simps [simp]: "role (msg r c) = r" "content (msg r c) = c"
  by (simp_all add: msg_def)

lemma block_simps [simp]:
  "cb_type (text_block t) = Text_Block" "cb_text (text_block t) = Some t"
  "cb_type (tool_use_block i n d) = Tool_Use" "cb_id (tool_use_block i n d) = Some i"
  "cb_type (result_block i c e) = Tool_Result" "cb_tool_use_id (result_block i c e) = Some i"
  by (simp_all add: text_block_def tool_use_block_def result_block_def)

end
