(* ===== verification/Effects.thy ===== *)
theory Effects
  imports Python_Text
begin

text \<open>
  Programs with effects: a program runs in a state, returns or raises, and keeps the state it
  had reached when it raised. An exception is its class name and its \<open>str\<close>.
\<close>

datatype exn = Exn (exn_class: string) (exn_text: string)

type_synonym ('s, 'a) prog = "'s \<Rightarrow> (exn + 'a) \<times> 's"

definition returnM :: "'a \<Rightarrow> ('s, 'a) prog" where
  "returnM x s = (Inr x, s)"

definition raiseM :: "exn \<Rightarrow> ('s, 'a) prog" where
  "raiseM e s = (Inl e, s)"

definition bindM :: "('s, 'a) prog \<Rightarrow> ('a \<Rightarrow> ('s, 'b) prog) \<Rightarrow> ('s, 'b) prog" where
  "bindM m f s = (case m s of (Inl e, s') \<Rightarrow> (Inl e, s') | (Inr x, s') \<Rightarrow> f x s')"

text \<open>\<open>try: m except Exception as e: h e\<close>\<close>

definition tryM :: "('s, 'a) prog \<Rightarrow> (exn \<Rightarrow> ('s, 'a) prog) \<Rightarrow> ('s, 'a) prog" where
  "tryM m h s = (case m s of (Inl e, s') \<Rightarrow> h e s' | (Inr x, s') \<Rightarrow> (Inr x, s'))"

text \<open>\<open>with contextlib.suppress(Exception): m\<close>\<close>

definition suppressM :: "('s, unit) prog \<Rightarrow> ('s, unit) prog" where
  "suppressM m = tryM m (\<lambda>_. returnM ())"

fun forM :: "('a \<Rightarrow> ('s, unit) prog) \<Rightarrow> 'a list \<Rightarrow> ('s, unit) prog" where
  "forM f [] = returnM ()"
| "forM f (x # xs) = bindM (f x) (\<lambda>_. forM f xs)"

definition getM :: "('s, 's) prog" where
  "getM s = (Inr s, s)"

definition modifyM :: "('s \<Rightarrow> 's) \<Rightarrow> ('s, unit) prog" where
  "modifyM f s = (Inr (), f s)"

text \<open>Running a program of a component inside the state that holds the component.\<close>

definition zoom :: "('s \<Rightarrow> 't) \<Rightarrow> ('t \<Rightarrow> 's \<Rightarrow> 's) \<Rightarrow> ('t, 'a) prog \<Rightarrow> ('s, 'a) prog" where
  "zoom proj put m s = (case m (proj s) of (r, t) \<Rightarrow> (r, put t s))"

lemma effect_simps [simp]:
  "returnM x s = (Inr x, s)"
  "raiseM e s = (Inl e, s)"
  "getM s = (Inr s, s)"
  "modifyM f s = (Inr (), f s)"
  by (simp_all add: returnM_def raiseM_def getM_def modifyM_def)

lemma bindM_return [simp]: "m s = (Inr x, s') \<Longrightarrow> bindM m f s = f x s'"
  by (simp add: bindM_def)

lemma bindM_raise [simp]: "m s = (Inl e, s') \<Longrightarrow> bindM m f s = (Inl e, s')"
  by (simp add: bindM_def)

lemma tryM_return [simp]: "m s = (Inr x, s') \<Longrightarrow> tryM m h s = (Inr x, s')"
  by (simp add: tryM_def)

lemma tryM_raise [simp]: "m s = (Inl e, s') \<Longrightarrow> tryM m h s = h e s'"
  by (simp add: tryM_def)

lemma bindM_Inr [returns_iff]:
  "bindM m f s = (Inr y, s') \<longleftrightarrow> (\<exists>x s1. m s = (Inr x, s1) \<and> f x s1 = (Inr y, s'))"
  by (auto simp: bindM_def split: prod.split sum.split)

lemma bindM_cases:
  obtains e s' where "m s = (Inl e, s')" "bindM m f s = (Inl e, s')"
  | x s' where "m s = (Inr x, s')" "bindM m f s = f x s'"
  by (cases "m s"; cases "fst (m s)") auto

lemma suppressM_returns [simp]: "fst (suppressM m s) = Inr ()"
  by (cases "m s"; cases "fst (m s)") (auto simp: suppressM_def)

lemma forM_append: "forM f (xs @ ys) = bindM (forM f xs) (\<lambda>_. forM f ys)"
proof (induction xs)
  case (Cons x xs)
  show ?case
  proof
    fix s
    show "forM f ((x # xs) @ ys) s = bindM (forM f (x # xs)) (\<lambda>_. forM f ys) s"
      by (cases "f x s"; cases "fst (f x s)")
        (auto simp: Cons.IH bindM_def split: prod.split sum.split)
  qed
qed (simp add: fun_eq_iff bindM_def)

text \<open>A property of the state kept by every step of a program.\<close>

definition keeps :: "('s \<Rightarrow> bool) \<Rightarrow> ('s, 'a) prog \<Rightarrow> bool" where
  "keeps P m \<longleftrightarrow> (\<forall>s. P s \<longrightarrow> P (snd (m s)))"

lemma keepsD: "keeps P m \<Longrightarrow> P s \<Longrightarrow> P (snd (m s))"
  by (simp add: keeps_def)

lemma keeps_basic [intro, simp]:
  "keeps P (returnM x)" "keeps P (raiseM e)" "keeps P getM"
  by (simp_all add: keeps_def)

lemma keeps_bindM [intro]:
  assumes "keeps P m" and "\<And>x. keeps P (f x)"
  shows "keeps P (bindM m f)"
  unfolding keeps_def
proof (intro allI impI)
  fix s assume P: "P s"
  show "P (snd (bindM m f s))"
    using keepsD[OF assms(1) P] keepsD[OF assms(2)]
    by (cases rule: bindM_cases[where m = m and s = s and f = f]) auto
qed

lemma keeps_tryM [intro]:
  assumes "keeps P m" and "\<And>e. keeps P (h e)"
  shows "keeps P (tryM m h)"
  unfolding keeps_def
proof (intro allI impI)
  fix s assume P: "P s"
  show "P (snd (tryM m h s))"
    using keepsD[OF assms(1) P] keepsD[OF assms(2)]
    by (cases "m s"; cases "fst (m s)") auto
qed

lemma keeps_suppressM [intro]: "keeps P m \<Longrightarrow> keeps P (suppressM m)"
  unfolding suppressM_def by blast

lemma keeps_forM [intro]: "(\<And>x. x \<in> set xs \<Longrightarrow> keeps P (f x)) \<Longrightarrow> keeps P (forM f xs)"
  by (induction xs) auto

end
