(* ===== verification/Sandbox_Service.thy ===== *)
theory Sandbox_Service
  imports Router_Types Effects
begin

text \<open>
  The sandbox's public types (\<open>sandbox/types.py\<close>), its lifecycle rules
  (\<open>sandbox/state_machine.py\<close>) and the service that enforces them (\<open>sandbox/service.py\<close>) over
  any backend (\<open>sandbox/base.py\<close>).
\<close>

section \<open>Types\<close>

datatype sandbox_status = PROVISIONING | READY | RUNNING | IDLE | DESTROYED | ERROR

fun sandbox_status_value :: "sandbox_status \<Rightarrow> string" where
  "sandbox_status_value PROVISIONING = ''provisioning''"
| "sandbox_status_value READY = ''ready''"
| "sandbox_status_value RUNNING = ''running''"
| "sandbox_status_value IDLE = ''idle''"
| "sandbox_status_value DESTROYED = ''destroyed''"
| "sandbox_status_value ERROR = ''error''"

text \<open>The statuses are finitely many, so a fact about all of them is evaluated.\<close>

instantiation sandbox_status :: enum
begin

definition enum_sandbox_status :: "sandbox_status list" where
  "enum_sandbox_status = [PROVISIONING, READY, RUNNING, IDLE, DESTROYED, ERROR]"

definition enum_all_sandbox_status :: "(sandbox_status \<Rightarrow> bool) \<Rightarrow> bool" where
  "enum_all_sandbox_status P = list_all P [PROVISIONING, READY, RUNNING, IDLE, DESTROYED, ERROR]"

definition enum_ex_sandbox_status :: "(sandbox_status \<Rightarrow> bool) \<Rightarrow> bool" where
  "enum_ex_sandbox_status P = list_ex P [PROVISIONING, READY, RUNNING, IDLE, DESTROYED, ERROR]"

instance
proof
  have "x \<in> {PROVISIONING, READY, RUNNING, IDLE, DESTROYED, ERROR}" for x by (cases x) simp_all
  then have univ: "UNIV = {PROVISIONING, READY, RUNNING, IDLE, DESTROYED, ERROR}" by blast
  show "UNIV = set (Enum.enum :: sandbox_status list)" by (simp add: univ enum_sandbox_status_def)
  show "distinct (Enum.enum :: sandbox_status list)" by (simp add: enum_sandbox_status_def)
  show "Enum.enum_all P = Ball UNIV P" "Enum.enum_ex P = Bex UNIV P" for P :: "sandbox_status \<Rightarrow> bool"
    by (simp_all add: univ enum_all_sandbox_status_def enum_ex_sandbox_status_def)
qed

end

datatype network_policy = Open | Isolated | Allowlist

record recipe =
  runtime :: string
  packages :: "string list"
  files :: "(string \<times> string) list"
  env :: "(string \<times> string) list"
  cpu_limit :: int
  memory_limit_mb :: int
  timeout_seconds :: int
  network_policy :: network_policy

definition default_recipe :: recipe where
  "default_recipe =
     \<lparr>runtime = ''python:3.12-slim'', packages = [], files = [], env = [], cpu_limit = 2,
      memory_limit_mb = 4096, timeout_seconds = 600, network_policy = Open\<rparr>"

record tool_result =
  tr_is_error :: bool
  tr_content :: string
  tr_stdout :: string
  tr_stderr :: string
  tr_exit_code :: "int option"
  tr_error :: "string option"

definition make_tool_result :: "bool \<Rightarrow> string \<Rightarrow> string option \<Rightarrow> tool_result" where
  "make_tool_result is_error text err =
     \<lparr>tr_is_error = is_error, tr_content = text, tr_stdout = [], tr_stderr = [],
      tr_exit_code = None, tr_error = err\<rparr>"

section \<open>State machine\<close>

fun ALLOWED_TRANSITIONS :: "sandbox_status \<Rightarrow> sandbox_status list" where
  "ALLOWED_TRANSITIONS PROVISIONING = [READY, ERROR, DESTROYED]"
| "ALLOWED_TRANSITIONS READY = [RUNNING, DESTROYED, ERROR]"
| "ALLOWED_TRANSITIONS RUNNING = [IDLE, ERROR, DESTROYED]"
| "ALLOWED_TRANSITIONS IDLE = [RUNNING, DESTROYED, ERROR]"
| "ALLOWED_TRANSITIONS ERROR = [DESTROYED]"
| "ALLOWED_TRANSITIONS DESTROYED = []"

definition permitted :: "sandbox_status \<Rightarrow> sandbox_status \<Rightarrow> bool" where
  "permitted cur nxt \<longleftrightarrow> nxt = cur \<or> nxt \<in> set (ALLOWED_TRANSITIONS cur)"

definition transition_error :: "sandbox_status \<Rightarrow> sandbox_status \<Rightarrow> string \<Rightarrow> exn" where
  "transition_error cur nxt sandbox_id =
     Exn ''InvalidTransitionError''
       (''sandbox'' @ (if sandbox_id = [] then [] else '' '' @ sandbox_id)
        @ '': cannot transition '' @ sandbox_status_value cur @ '' -> ''
        @ sandbox_status_value nxt @ ''; allowed: ''
        @ py_repr (JList (map JStr (sort (map sandbox_status_value (ALLOWED_TRANSITIONS cur))))))"

definition assert_transition ::
  "sandbox_status \<Rightarrow> sandbox_status \<Rightarrow> string \<Rightarrow> ('s, unit) prog" where
  "assert_transition cur nxt sandbox_id =
     (if nxt = cur then returnM ()
      else if nxt \<notin> set (ALLOWED_TRANSITIONS cur)
      then raiseM (transition_error cur nxt sandbox_id)
      else returnM ())"

section \<open>The backend contract\<close>

record 'b backend =
  be_provision :: "recipe \<Rightarrow> ('b, string) prog"
  be_execute :: "string \<Rightarrow> string \<Rightarrow> dict \<Rightarrow> ('b, tool_result) prog"
  be_destroy :: "string \<Rightarrow> ('b, unit) prog"
  be_status :: "string \<Rightarrow> ('b, sandbox_status) prog"

section \<open>The service\<close>

record 'b sandbox =
  sb_status :: "string \<Rightarrow> sandbox_status option"
  sb_backend :: 'b

abbreviation on_backend :: "('b, 'a) prog \<Rightarrow> ('b sandbox, 'a) prog" where
  "on_backend \<equiv> zoom sb_backend (\<lambda>b. sb_backend_update (\<lambda>_. b))"

definition set_status :: "string \<Rightarrow> sandbox_status \<Rightarrow> 'b sandbox \<Rightarrow> 'b sandbox" where
  "set_status i st s = s\<lparr>sb_status := (sb_status s)(i \<mapsto> st)\<rparr>"

definition tracked :: "string \<Rightarrow> 'b sandbox \<Rightarrow> sandbox_status" where
  "tracked i s = (case sb_status s i of None \<Rightarrow> READY | Some st \<Rightarrow> st)"

definition transition :: "string \<Rightarrow> sandbox_status \<Rightarrow> ('b sandbox, unit) prog" where
  "transition i nxt = bindM getM (\<lambda>s.
     bindM (assert_transition (tracked i s) nxt i) (\<lambda>_. modifyM (set_status i nxt)))"

definition sandbox_provision :: "'b backend \<Rightarrow> recipe \<Rightarrow> ('b sandbox, string) prog" where
  "sandbox_provision B r =
     bindM (on_backend (be_provision B r)) (\<lambda>i.
     bindM (modifyM (set_status i READY)) (\<lambda>_. returnM i))"

text \<open>\<open>result.is_error and result.error and "timeout" in result.error.lower()\<close>\<close>

definition reads_as_timeout :: "tool_result \<Rightarrow> bool" where
  "reads_as_timeout result \<longleftrightarrow> tr_is_error result
     \<and> (case tr_error result of None \<Rightarrow> False
        | Some e \<Rightarrow> e \<noteq> [] \<and> contains_str ''timeout'' (lower e))"

definition sandbox_execute ::
  "'b backend \<Rightarrow> string \<Rightarrow> string \<Rightarrow> dict \<Rightarrow> ('b sandbox, tool_result) prog" where
  "sandbox_execute B i tool_name tool_input =
     bindM getM (\<lambda>s.
     bindM (assert_transition (tracked i s) RUNNING i) (\<lambda>_.
     bindM (modifyM (set_status i RUNNING)) (\<lambda>_.
     bindM
       (tryM (on_backend (be_execute B i tool_name tool_input))
          (\<lambda>e. bindM (transition i ERROR) (\<lambda>_. raiseM e))) (\<lambda>result.
     bindM (transition i (if reads_as_timeout result then ERROR else IDLE)) (\<lambda>_.
     returnM result)))))"

definition sandbox_destroy :: "'b backend \<Rightarrow> string \<Rightarrow> ('b sandbox, unit) prog" where
  "sandbox_destroy B i =
     bindM getM (\<lambda>s.
     case sb_status s i of
       None \<Rightarrow> on_backend (be_destroy B i)
     | Some current \<Rightarrow>
         bindM (assert_transition current DESTROYED i) (\<lambda>_.
         bindM (on_backend (be_destroy B i)) (\<lambda>_.
         modifyM (set_status i DESTROYED))))"

definition sandbox_current_status :: "'b backend \<Rightarrow> string \<Rightarrow> ('b sandbox, sandbox_status) prog" where
  "sandbox_current_status B i =
     bindM getM (\<lambda>s.
     bindM (on_backend (be_status B i)) (\<lambda>backend_view.
     case sb_status s i of
       None \<Rightarrow> returnM backend_view
     | Some st \<Rightarrow>
         if backend_view = DESTROYED \<or> backend_view = ERROR
         then bindM (modifyM (set_status i backend_view)) (\<lambda>_. returnM backend_view)
         else returnM st))"

section \<open>Facts about the state\<close>

lemma set_status_simps [simp]:
  "sb_status (set_status i st s) = (sb_status s)(i \<mapsto> st)"
  "sb_backend (set_status i st s) = sb_backend s"
  "tracked i (set_status i st s) = st"
  by (simp_all add: set_status_def tracked_def)

lemma on_backend_eq:
  "on_backend m s = (fst (m (sb_backend s)), s\<lparr>sb_backend := snd (m (sb_backend s))\<rparr>)"
  by (simp add: zoom_def split: prod.split)

lemma assert_transition_eq:
  "assert_transition cur nxt i s =
     (if permitted cur nxt then Inr () else Inl (transition_error cur nxt i), s)"
  by (auto simp: assert_transition_def permitted_def)

lemma transition_eq:
  "transition i nxt s =
     (if permitted (tracked i s) nxt then (Inr (), set_status i nxt s)
      else (Inl (transition_error (tracked i s) nxt i), s))"
  by (simp add: transition_def bindM_def assert_transition_eq)

text \<open>The diagram: every status may end in \<open>DESTROYED\<close>, which nothing leaves; a failed sandbox can
  only be destroyed; and a tool runs only in a ready or idle one, or while one is running.\<close>

lemma lifecycle:
  "\<forall>st. permitted st DESTROYED \<and> permitted st st \<and> (permitted DESTROYED st \<longleftrightarrow> st = DESTROYED)
     \<and> (permitted ERROR st \<longleftrightarrow> st \<in> {ERROR, DESTROYED})
     \<and> (permitted st RUNNING \<longleftrightarrow> st \<in> {READY, RUNNING, IDLE})"
  by code_simp

lemma permitted_simps [simp]:
  "permitted RUNNING IDLE" "permitted RUNNING ERROR" "permitted st DESTROYED"
  "permitted st st"
  using lifecycle by (simp_all add: permitted_def)

lemma permitted_running: "permitted st RUNNING \<longleftrightarrow> st \<in> {READY, RUNNING, IDLE}"
  using lifecycle by blast

lemma execute_outcome:
  "sandbox_execute B i tool_name tool_input s =
     (let cur = tracked i s; (r, b) = be_execute B i tool_name tool_input (sb_backend s);
          end_state = (\<lambda>st. set_status i st (s\<lparr>sb_backend := b\<rparr>))
      in if cur \<in> {PROVISIONING, ERROR, DESTROYED}
         then (Inl (transition_error cur RUNNING i), s)
         else case r of
                Inl e \<Rightarrow> (Inl e, end_state ERROR)
              | Inr result \<Rightarrow>
                  (Inr result, end_state (if reads_as_timeout result then ERROR else IDLE)))"
proof -
  obtain r b where run: "be_execute B i tool_name tool_input (sb_backend s) = (r, b)"
    by (cases "be_execute B i tool_name tool_input (sb_backend s)")
  have ran: "on_backend (be_execute B i tool_name tool_input) (set_status i RUNNING s)
      = (r, set_status i RUNNING (s\<lparr>sb_backend := b\<rparr>))"
    by (simp add: on_backend_eq run set_status_def)
  have twice: "set_status i x (set_status i y t) = set_status i x t" for x y and t :: "'a sandbox"
    by (simp add: set_status_def)
  have refused: "\<not> permitted (tracked i s) RUNNING
      \<longleftrightarrow> tracked i s \<in> {PROVISIONING, ERROR, DESTROYED}"
    by (cases "tracked i s") (simp_all add: permitted_running)
  show ?thesis
  proof (cases "permitted (tracked i s) RUNNING")
    case False
    then show ?thesis using refused
      by (auto simp: sandbox_execute_def bindM_def assert_transition_eq Let_def split: prod.split)
  next
    case True
    then have "tracked i s \<notin> {PROVISIONING, ERROR, DESTROYED}" using refused by blast
    with True show ?thesis
      by (cases r)
        (simp_all add: sandbox_execute_def bindM_def tryM_def assert_transition_eq ran run
          transition_eq twice Let_def)
  qed
qed

text \<open>C31. Executing a tool, on every branch. A sandbox that is being provisioned, has failed or
  is gone is refused and nothing happens; otherwise the backend runs the tool once and the
  sandbox ends IDLE, or ERROR when the backend raised (the exception is passed on) or the
  result reads as a timeout. It is never left RUNNING.\<close>

theorem sandbox_execute_outcome:
  "sandbox_execute B i tool_name tool_input s =
     (let cur = tracked i s; (r, b) = be_execute B i tool_name tool_input (sb_backend s);
          end_state = (\<lambda>st. set_status i st (s\<lparr>sb_backend := b\<rparr>))
      in if cur \<in> {PROVISIONING, ERROR, DESTROYED}
         then (Inl (transition_error cur RUNNING i), s)
         else case r of
                Inl e \<Rightarrow> (Inl e, end_state ERROR)
              | Inr result \<Rightarrow>
                  (Inr result, end_state (if reads_as_timeout result then ERROR else IDLE)))"
  by (rule execute_outcome)

section \<open>Runs of the service\<close>

inductive sandbox_step :: "'b backend \<Rightarrow> 'b sandbox \<Rightarrow> 'b sandbox \<Rightarrow> bool" for B where
  provision: "sandbox_provision B r s = (x, s') \<Longrightarrow> sandbox_step B s s'"
| execute: "sandbox_execute B i tool tool_input s = (x, s') \<Longrightarrow> sandbox_step B s s'"
| destroy: "sandbox_destroy B i s = (x, s') \<Longrightarrow> sandbox_step B s s'"
| status: "sandbox_current_status B i s = (x, s') \<Longrightarrow> sandbox_step B s s'"

inductive_cases sandbox_stepE: "sandbox_step B s s'"

text \<open>What may be recorded while no call is running.\<close>

definition at_rest :: "'b sandbox \<Rightarrow> bool" where
  "at_rest s \<longleftrightarrow> (\<forall>i st. sb_status s i = Some st \<longrightarrow> st \<in> {READY, IDLE, ERROR, DESTROYED})"

lemma at_rest_set: "at_rest s \<Longrightarrow> st \<in> {READY, IDLE, ERROR, DESTROYED} \<Longrightarrow> at_rest (set_status i st s)"
  by (auto simp: at_rest_def)

lemma at_rest_backend [simp]: "at_rest (sb_backend_update f s) = at_rest s"
  by (simp add: at_rest_def)

lemma keeps_on_backend: "keeps at_rest (on_backend m)"
  by (simp add: keeps_def on_backend_eq)

lemma keeps_rest_set: "st \<in> {READY, IDLE, ERROR, DESTROYED} \<Longrightarrow> keeps at_rest (modifyM (set_status i st))"
  using at_rest_set by (auto simp: keeps_def)

lemma execute_at_rest: "keeps at_rest (sandbox_execute B i tool tool_input)"
  unfolding keeps_def
proof (intro allI impI)
  fix s :: "'a sandbox" assume "at_rest s"
  then show "at_rest (snd (sandbox_execute B i tool tool_input s))"
    unfolding execute_outcome
    by (cases "be_execute B i tool tool_input (sb_backend s)";
        cases "fst (be_execute B i tool tool_input (sb_backend s))")
      (simp_all add: Let_def at_rest_set)
qed

lemma provision_at_rest: "keeps at_rest (sandbox_provision B r)"
  unfolding sandbox_provision_def
  by (intro keeps_bindM keeps_on_backend keeps_rest_set keeps_basic) simp

lemma assert_keeps: "keeps P (assert_transition a b i)"
  by (simp add: keeps_def assert_transition_eq)

lemma destroy_at_rest: "keeps at_rest (sandbox_destroy B i)"
  unfolding sandbox_destroy_def
  by (intro keeps_bindM keeps_basic)
    (auto split: option.split intro!: keeps_bindM keeps_on_backend keeps_rest_set assert_keeps)

lemma status_at_rest: "keeps at_rest (sandbox_current_status B i)"
  unfolding sandbox_current_status_def
  by (intro keeps_bindM keeps_basic keeps_on_backend)
    (auto split: option.split intro!: keeps_bindM keeps_rest_set)

lemmas service_at_rest = provision_at_rest execute_at_rest destroy_at_rest status_at_rest


section \<open>What a backend promises\<close>

text \<open>The docstrings of \<open>SandboxBackend\<close>: \<open>destroy\<close> is idempotent and does not raise, and a
  sandbox that is gone reports DESTROYED.\<close>

locale sandbox_backend =
  fixes B :: "'b backend"
  assumes destroy_returns: "fst (be_destroy B i b) = Inr ()"
    and destroy_again: "snd (be_destroy B i (snd (be_destroy B i b))) = snd (be_destroy B i b)"
    and destroyed_status:
      "be_status B i (snd (be_destroy B i b)) = (Inr DESTROYED, snd (be_destroy B i b))"
begin

lemma on_destroy: "on_backend (be_destroy B i) s
    = (Inr (), s\<lparr>sb_backend := snd (be_destroy B i (sb_backend s))\<rparr>)"
  by (simp add: on_backend_eq destroy_returns)

lemma destroy_eq:
  "sandbox_destroy B i s =
     (Inr (), (case sb_status s i of None \<Rightarrow> id | Some _ \<Rightarrow> set_status i DESTROYED)
                (s\<lparr>sb_backend := snd (be_destroy B i (sb_backend s))\<rparr>))"
  by (auto simp: sandbox_destroy_def bindM_def assert_transition_eq on_destroy split: option.split)

lemma destroy_never_raises: "fst (sandbox_destroy B i s) = Inr ()"
  by (simp add: destroy_eq)

lemma destroy_twice:
  "snd (sandbox_destroy B i (snd (sandbox_destroy B i s))) = snd (sandbox_destroy B i s)"
  by (cases "sb_status s i")
    (simp_all add: destroy_eq destroy_again set_status_def)

lemma destroyed_reported:
  "sandbox_current_status B i (snd (sandbox_destroy B i s)) = (Inr DESTROYED, snd (sandbox_destroy B i s))"
  by (cases "sb_status s i")
    (auto simp: destroy_eq sandbox_current_status_def bindM_def on_backend_eq destroyed_status set_status_def)

lemma destroyed_refuses:
  assumes "sb_status s i \<noteq> None"
  shows "sandbox_execute B i tool tool_input (snd (sandbox_destroy B i s))
    = (Inl (transition_error DESTROYED RUNNING i), snd (sandbox_destroy B i s))"
  using assms by (auto simp: execute_outcome destroy_eq tracked_def Let_def split: prod.split)

end

end
