(* ===== verification/Sandbox_Tools.thy ===== *)
theory Sandbox_Tools
  imports Sandbox_Service Uuid_Text
begin

text \<open>
  The built-in tools (\<open>sandbox/tools\<close>): bash, python and the file operations, over the Docker
  SDK, which is a parameter: a record of the calls the tools and the backend make, as
  programs on the state \<open>'w\<close> of the outside world, with containers of type \<open>'h\<close>. A byte
  string is a list of characters below 256. A byte that does not start an encoding of a
  character up to U+00FF decodes to a question mark.
\<close>

section \<open>The Docker SDK\<close>

datatype stream = NoStream | Bytes string | Text string

datatype exec_output = Demuxed stream stream | Whole stream

record tar_member =
  m_name :: string
  m_mode :: nat
  m_data :: string

record run_config =
  rc_image :: string
  rc_command :: "string list"
  rc_nano_cpus :: int
  rc_mem_limit :: string
  rc_pids_limit :: int
  rc_working_dir :: string
  rc_environment :: "(string \<times> string) list"
  rc_labels :: "(string \<times> string) list"
  rc_security_opt :: "string list"
  rc_network_mode :: string

record ('h, 'w) docker_api =
  api_image_get :: "string \<Rightarrow> ('w, unit) prog"
  api_image_pull :: "string \<Rightarrow> ('w, unit) prog"
  api_run :: "run_config \<Rightarrow> ('w, 'h) prog"
  api_id :: "'h \<Rightarrow> string option"
  api_exec_run :: "'h \<Rightarrow> string list \<Rightarrow> string \<Rightarrow> (string \<times> string) list
    \<Rightarrow> ('w, int option \<times> exec_output) prog"
  api_put_archive :: "'h \<Rightarrow> string \<Rightarrow> tar_member list \<Rightarrow> ('w, bool) prog"
  api_stop :: "'h \<Rightarrow> ('w, unit) prog"
  api_remove :: "'h \<Rightarrow> ('w, unit) prog"
  api_kill :: "'h \<Rightarrow> ('w, unit) prog"
  api_reload :: "'h \<Rightarrow> ('w, string option) prog"
  api_uuid4 :: "('w, uuid) prog"

section \<open>Text and bytes\<close>

fun utf8_encode :: "string \<Rightarrow> string" where
  "utf8_encode [] = []"
| "utf8_encode (c # s) = (let n = (of_char c :: nat) in
     if n < 128 then c # utf8_encode s
     else char_of (192 + n div 64) # char_of (128 + n mod 64) # utf8_encode s)"

fun utf8_decode :: "string \<Rightarrow> string" where
  "utf8_decode [] = []"
| "utf8_decode [b] = [if (of_char b :: nat) < 128 then b else CHR ''?'']"
| "utf8_decode (b # c # s) = (let m = (of_char b :: nat); n = (of_char c :: nat) in
     if m < 128 then b # utf8_decode (c # s)
     else if (m = 194 \<or> m = 195) \<and> 128 \<le> n \<and> n < 192
     then char_of ((m - 192) * 64 + (n - 128)) # utf8_decode s
     else CHR ''?'' # utf8_decode (c # s))"

fun decode_stream :: "stream \<Rightarrow> string" where
  "decode_stream NoStream = []"
| "decode_stream (Bytes b) = utf8_decode b"
| "decode_stream (Text s) = s"

definition quoted :: "string \<Rightarrow> string" where
  "quoted s = CHR 0x27 # s @ [CHR 0x27]"

definition newline :: string where
  "newline = [CHR 0x0A]"

section \<open>Shared helpers\<close>

definition WORKSPACE :: string where
  "WORKSPACE = ''/workspace''"

definition run_exec ::
  "('h, 'w) docker_api \<Rightarrow> 'h \<Rightarrow> string list \<Rightarrow> ('w, int \<times> string \<times> string) prog" where
  "run_exec D c cmd =
     bindM (api_exec_run D c cmd WORKSPACE []) (\<lambda>(exit_code, streams).
       let (out, err) = (case streams of Demuxed a b \<Rightarrow> (a, b) | Whole a \<Rightarrow> (a, NoStream))
       in returnM (case exit_code of None \<Rightarrow> 0 | Some n \<Rightarrow> n, decode_stream out, decode_stream err))"

definition ends_with_slash :: "string \<Rightarrow> bool" where
  "ends_with_slash p \<longleftrightarrow> p \<noteq> [] \<and> last p = CHR ''/''"

definition split_abs :: "string \<Rightarrow> exn + string \<times> string" where
  "split_abs path =
     (if ends_with_slash path
      then Inl (Exn ''ValueError''
             (''put_file path must name a file, not a directory: '' @ repr_str path))
      else let filename = rev (takeWhile (\<lambda>c. c \<noteq> CHR ''/'') (rev path));
               directory = rev (drop 1 (dropWhile (\<lambda>c. c \<noteq> CHR ''/'') (rev path)))
           in Inr (if directory = [] then ''/'' else directory, filename))"

definition put_file ::
  "('h, 'w) docker_api \<Rightarrow> 'h \<Rightarrow> string \<Rightarrow> string \<Rightarrow> ('w, unit) prog" where
  "put_file D c path text =
     (if \<not> starts_with ''/'' path
      then raiseM (Exn ''ValueError'' (''put_file requires an absolute path, got '' @ repr_str path))
      else case split_abs path of
        Inl e \<Rightarrow> raiseM e
      | Inr (directory, filename) \<Rightarrow>
          bindM (run_exec D c [''mkdir'', ''-p'', directory]) (\<lambda>(mkdir_code, _).
          if mkdir_code \<noteq> 0
          then raiseM (Exn ''RuntimeError''
                 (''mkdir -p '' @ directory @ '' failed inside sandbox (exit ''
                  @ int_str mkdir_code @ '')''))
          else bindM (api_put_archive D c directory
                  [\<lparr>m_name = filename, m_mode = 420, m_data = utf8_encode text\<rparr>]) (\<lambda>ok.
          if ok then returnM ()
          else raiseM (Exn ''RuntimeError'' (''put_archive failed for '' @ path)))))"

definition tool_error :: "string \<Rightarrow> tool_result" where
  "tool_error text = make_tool_result True text (Some text)"

definition missing :: "string \<Rightarrow> string \<Rightarrow> tool_result" where
  "missing tool field =
     tool_error (tool @ '': missing required input '' @ quoted field @ '' (non-empty string)'')"

section \<open>bash and python\<close>

definition shell_content :: "string \<Rightarrow> string \<Rightarrow> string" where
  "shell_content out err =
     (if err \<noteq> [] then
        (if out \<noteq> [] then out @ newline @ ''[stderr]'' @ newline @ err
         else ''[stderr]'' @ newline @ err)
      else out)"

definition shell_result :: "string \<Rightarrow> int \<times> string \<times> string \<Rightarrow> tool_result" where
  "shell_result tool res =
     (case res of (code, out, err) \<Rightarrow>
       \<lparr>tr_is_error = (code \<noteq> 0), tr_content = shell_content out err, tr_stdout = out,
        tr_stderr = err, tr_exit_code = Some code,
        tr_error = (if code \<noteq> 0 then Some (tool @ '' exited with code '' @ int_str code)
                    else None)\<rparr>)"

definition bash_tool ::
  "('h, 'w) docker_api \<Rightarrow> 'h \<Rightarrow> dict \<Rightarrow> recipe \<Rightarrow> ('w, tool_result) prog" where
  "bash_tool D c tool_input r =
     (case dget tool_input ''command'' of
        JStr command \<Rightarrow>
          if strip command = [] then returnM (missing ''bash'' ''command'')
          else bindM (run_exec D c [''bash'', ''-lc'', command]) (\<lambda>res.
            returnM (shell_result ''bash'' res))
      | _ \<Rightarrow> returnM (missing ''bash'' ''command''))"

text \<open>\<open>uuid4().hex\<close>\<close>

definition uuid_hex :: "uuid \<Rightarrow> string" where
  "uuid_hex u = hex_pad 32 (unat u)"

definition python_tool ::
  "('h, 'w) docker_api \<Rightarrow> 'h \<Rightarrow> dict \<Rightarrow> recipe \<Rightarrow> ('w, tool_result) prog" where
  "python_tool D c tool_input r =
     (case dget tool_input ''code'' of
        JStr code \<Rightarrow>
          if code = [] then returnM (missing ''python'' ''code'')
          else
            bindM (api_uuid4 D) (\<lambda>u.
            let script_path = ''/tmp/tename_'' @ uuid_hex u @ ''.py'' in
            bindM (tryM (bindM (put_file D c script_path code) (\<lambda>_. returnM None))
                     (\<lambda>e. returnM (Some e))) (\<lambda>upload.
            case upload of
              Some e \<Rightarrow> returnM (tool_error (''python: could not upload script: '' @ exn_text e))
            | None \<Rightarrow>
                bindM (run_exec D c [''python'', script_path]) (\<lambda>res.
                bindM (run_exec D c [''rm'', ''-f'', script_path]) (\<lambda>_.
                returnM (shell_result ''python'' res)))))
      | _ \<Rightarrow> returnM (missing ''python'' ''code''))"

section \<open>Files\<close>

definition read_result :: "string \<Rightarrow> int \<times> string \<times> string \<Rightarrow> tool_result" where
  "read_result tool res =
     (case res of (code, out, err) \<Rightarrow>
       if code \<noteq> 0
       then let text = (if strip err \<noteq> [] then strip err
                        else tool @ '' exited with code '' @ int_str code)
            in \<lparr>tr_is_error = True, tr_content = text, tr_stdout = out, tr_stderr = err,
                tr_exit_code = Some code, tr_error = Some text\<rparr>
       else \<lparr>tr_is_error = False, tr_content = out, tr_stdout = out, tr_stderr = err,
             tr_exit_code = Some code, tr_error = None\<rparr>)"

definition file_read_tool ::
  "('h, 'w) docker_api \<Rightarrow> 'h \<Rightarrow> dict \<Rightarrow> recipe \<Rightarrow> ('w, tool_result) prog" where
  "file_read_tool D c tool_input r =
     (case dget tool_input ''path'' of
        JStr path \<Rightarrow>
          if path = [] then returnM (missing ''file_read'' ''path'')
          else bindM (run_exec D c [''cat'', ''--'', path]) (\<lambda>res.
            returnM (read_result ''file_read'' res))
      | _ \<Rightarrow> returnM (missing ''file_read'' ''path''))"

definition try_put_file ::
  "('h, 'w) docker_api \<Rightarrow> 'h \<Rightarrow> string \<Rightarrow> string \<Rightarrow> string \<Rightarrow> tool_result
    \<Rightarrow> ('w, tool_result) prog" where
  "try_put_file D c tool path text success =
     tryM (bindM (put_file D c path text) (\<lambda>_. returnM success))
       (\<lambda>e. returnM (tool_error (tool @ '': '' @ exn_text e)))"

definition file_write_tool ::
  "('h, 'w) docker_api \<Rightarrow> 'h \<Rightarrow> dict \<Rightarrow> recipe \<Rightarrow> ('w, tool_result) prog" where
  "file_write_tool D c tool_input r =
     (case dget tool_input ''path'' of
        JStr path \<Rightarrow>
          if path = [] then returnM (missing ''file_write'' ''path'')
          else (case dget tool_input ''content'' of
            JStr text \<Rightarrow>
              try_put_file D c ''file_write'' path text
                (make_tool_result False
                  (''wrote '' @ int_str (int (length text)) @ '' bytes to '' @ path) None)
          | _ \<Rightarrow> returnM (tool_error
                   (''file_write: '' @ quoted ''content'' @ '' must be a string'')))
      | _ \<Rightarrow> returnM (missing ''file_write'' ''path''))"

definition edit_text :: "string \<Rightarrow> string \<Rightarrow> bool \<Rightarrow> string \<Rightarrow> string" where
  "edit_text old_str new_str all original =
     (if all then replace_all_str old_str new_str original
      else replace_str 1 old_str new_str original)"

definition file_edit_tool ::
  "('h, 'w) docker_api \<Rightarrow> 'h \<Rightarrow> dict \<Rightarrow> recipe \<Rightarrow> ('w, tool_result) prog" where
  "file_edit_tool D c tool_input r =
     (let all = truthy (dget_or tool_input ''replace_all'' (JBool False)) in
      case dget tool_input ''path'' of
        JStr path \<Rightarrow>
          if path = [] then returnM (missing ''file_edit'' ''path'')
          else (case dget tool_input ''old_str'' of
            JStr old_str \<Rightarrow>
              (case dget tool_input ''new_str'' of
                 JStr new_str \<Rightarrow>
                   bindM (run_exec D c [''cat'', ''--'', path]) (\<lambda>(code, original, err).
                   if code \<noteq> 0 then
                     (let text = (if strip err \<noteq> [] then strip err
                        else ''file_edit: cannot read '' @ path @ '' (exit '' @ int_str code @ '')'')
                      in returnM \<lparr>tr_is_error = True, tr_content = text, tr_stdout = [],
                           tr_stderr = err, tr_exit_code = Some code, tr_error = Some text\<rparr>)
                   else
                     (let matches = count_str old_str original in
                      if matches = 0
                      then returnM (tool_error (''file_edit: old_str not found in '' @ path))
                      else if 1 < matches \<and> \<not> all
                      then returnM (tool_error
                        (''file_edit: old_str matches '' @ int_str (int matches)
                         @ '' locations in '' @ path
                         @ ''; pass replace_all=true to replace every match''))
                      else try_put_file D c ''file_edit'' path
                        (edit_text old_str new_str all original)
                        (make_tool_result False
                          (''edited '' @ path @ '' ('' @ int_str (int matches) @ '' replacement''
                           @ (if matches \<noteq> 1 then ''s'' else []) @ '')'') None)))
               | _ \<Rightarrow> returnM (tool_error
                        (''file_edit: '' @ quoted ''new_str'' @ '' must be a string'')))
          | _ \<Rightarrow> returnM (tool_error
                   (''file_edit: '' @ quoted ''old_str'' @ '' must be a string'')))
      | _ \<Rightarrow> returnM (missing ''file_edit'' ''path''))"

definition file_list_tool ::
  "('h, 'w) docker_api \<Rightarrow> 'h \<Rightarrow> dict \<Rightarrow> recipe \<Rightarrow> ('w, tool_result) prog" where
  "file_list_tool D c tool_input r =
     (case dget_or tool_input ''path'' (JStr WORKSPACE) of
        JStr path \<Rightarrow>
          if path = [] then returnM (missing ''file_list'' ''path'')
          else bindM (run_exec D c [''ls'', ''-la'', ''--'', path]) (\<lambda>res.
            returnM (read_result ''file_list'' res))
      | _ \<Rightarrow> returnM (missing ''file_list'' ''path''))"

section \<open>The table of tools\<close>

definition sandbox_tools ::
  "('h, 'w) docker_api
    \<Rightarrow> (string \<times> ('h \<Rightarrow> dict \<Rightarrow> recipe \<Rightarrow> ('w, tool_result) prog)) list" where
  "sandbox_tools D =
     [(''bash'', bash_tool D), (''python'', python_tool D), (''file_read'', file_read_tool D),
      (''file_write'', file_write_tool D), (''file_edit'', file_edit_tool D),
      (''file_list'', file_list_tool D)]"

section \<open>Text survives the way into the container and back\<close>

lemma utf8_roundtrip [simp]: "utf8_decode (utf8_encode s) = s"
proof (induction s)
  case (Cons c s)
  define n where "n = (of_char c :: nat)"
  have n: "n < 256" by (simp add: n_def)
  have dec: "utf8_decode (b # t) = b # utf8_decode t" if "(of_char b :: nat) < 128" for b t
    using that by (cases t) (simp_all add: Let_def)
  show ?case
  proof (cases "n < 128")
    case True
    with Cons show ?thesis by (simp add: dec n_def)
  next
    case False
    with n have m: "192 + n div 64 < 256" "192 + n div 64 = 194 \<or> 192 + n div 64 = 195"
      "128 + n mod 64 < 256" "(n div 64) * 64 + n mod 64 = n" by auto
    have "utf8_encode (c # s) = char_of (192 + n div 64) # char_of (128 + n mod 64) # utf8_encode s"
      using False by (simp add: Let_def flip: n_def)
    moreover have "utf8_decode \<dots> = char_of ((n div 64) * 64 + n mod 64) # utf8_decode (utf8_encode s)"
      using m by (auto simp: Let_def)
    moreover have "char_of ((n div 64) * 64 + n mod 64) = c" by (simp add: m(4)) (simp add: n_def)
    ultimately show ?thesis using Cons.IH by simp
  qed
qed simp

lemma utf8_encode_length: "length (utf8_encode s) = utf8_length s"
  by (induction s) (simp_all add: Let_def)

lemma split_abs_parts:
  assumes "split_abs p = Inr (d, n)" and "starts_with ''/'' p"
  shows "n \<noteq> [] \<and> CHR ''/'' \<notin> set n \<and> (p = d @ ''/'' @ n \<or> d = ''/'' \<and> p = ''/'' @ n)"
proof -
  let ?slash = "\<lambda>c. c \<noteq> CHR ''/''"
  have n: "n = rev (takeWhile ?slash (rev p))" and no: "\<not> ends_with_slash p"
    using assms(1) by (auto simp: split_abs_def Let_def split: if_splits)
  obtain q where q: "p = CHR ''/'' # q"
    using assms(2) by (cases p) (simp_all add: starts_with_def)
  then have p: "p \<noteq> []" "CHR ''/'' \<in> set p" by simp_all
  then have ne: "dropWhile ?slash (rev p) \<noteq> []" by (auto simp: dropWhile_eq_Nil_conv)
  then obtain x xs where dw: "dropWhile ?slash (rev p) = x # xs"
    by (cases "dropWhile ?slash (rev p)") auto
  with hd_dropWhile[OF ne] have x: "x = CHR ''/''" by simp
  have "rev p = takeWhile ?slash (rev p) @ x # xs" using dw takeWhile_dropWhile_id by metis
  then have "rev (rev p) = rev (takeWhile ?slash (rev p) @ x # xs)" by (rule arg_cong)
  then have "p = rev xs @ [x] @ n" by (simp add: n)
  moreover have "d = (if xs = [] then ''/'' else rev xs)"
    using assms(1) dw by (auto simp: split_abs_def Let_def split: if_splits)
  moreover have "n \<noteq> []" using no p(1)
    by (simp add: n ends_with_slash_def takeWhile_eq_Nil_iff hd_rev)
  moreover have "CHR ''/'' \<notin> set n" by (auto simp: n dest: set_takeWhileD)
  ultimately show ?thesis using x by auto
qed

section \<open>Editing a file\<close>

lemma edit_once:
  assumes "old \<noteq> []" and "count_str old s = Suc 0"
  shows "\<exists>a b. s = a @ old @ b \<and> edit_text old new False s = a @ new @ b"
proof -
  obtain i where i: "find_str old s = Some i"
    using count_one_split[OF assms] by blast
  with find_str_Some[OF i] assms(1) show ?thesis
    by (intro exI[of _ "take i s"] exI[of _ "drop (i + length old) s"])
      (simp add: edit_text_def replace_str_def One_nat_def)
qed

text \<open>
  A container that serves files: \<open>fs w (directory, name)\<close> is what \<open>cat\<close> prints of the file,
  \<open>mkdir -p\<close> leaves every file alone and succeeds, and an uploaded archive of one member
  sets that member.
\<close>

definition serves_files ::
  "('h, 'w) docker_api \<Rightarrow> 'h \<Rightarrow> ('w \<Rightarrow> string \<times> string \<Rightarrow> string option) \<Rightarrow> bool" where
  "serves_files D c fs \<longleftrightarrow>
     (\<forall>w p dn b. split_abs p = Inr dn \<longrightarrow> fs w dn = Some b \<longrightarrow>
        api_exec_run D c [''cat'', ''--'', p] WORKSPACE [] w
          = (Inr (Some 0, Demuxed (Bytes b) NoStream), w))
     \<and> (\<forall>w d. \<exists>w' out. api_exec_run D c [''mkdir'', ''-p'', d] WORKSPACE [] w
          = (Inr (Some 0, out), w') \<and> fs w' = fs w)
     \<and> (\<forall>w d m. \<exists>w'. api_put_archive D c d [m] w = (Inr True, w')
          \<and> fs w' = (fs w)((d, m_name m) \<mapsto> m_data m))"

lemma put_file_serves:
  assumes "serves_files D c fs" and "starts_with ''/'' p" and "split_abs p = Inr dn"
  shows "\<exists>w'. put_file D c p s w = (Inr (), w') \<and> fs w' = (fs w)(dn \<mapsto> utf8_encode s)"
proof -
  obtain d n where dn: "dn = (d, n)" by (cases dn)
  obtain w1 out where w1: "api_exec_run D c [''mkdir'', ''-p'', d] WORKSPACE [] w
      = (Inr (Some 0, out), w1)" "fs w1 = fs w"
    using assms(1) unfolding serves_files_def by meson
  obtain w2 where w2: "api_put_archive D c d
      [\<lparr>m_name = n, m_mode = 420, m_data = utf8_encode s\<rparr>] w1 = (Inr True, w2)"
    "fs w2 = (fs w1)((d, n) \<mapsto> utf8_encode s)"
    using assms(1) unfolding serves_files_def by (metis tar_member.select_convs(1,3))
  have mkdir: "\<exists>o1 o2. run_exec D c [''mkdir'', ''-p'', d] w = (Inr (0, o1, o2), w1)"
    by (simp add: run_exec_def bindM_def w1(1) case_prod_beta)
  then have "put_file D c p s w = (Inr (), w2)"
    using assms(2,3) by (auto simp: put_file_def dn bindM_def w2(1))
  with w1(2) w2(2) show ?thesis by (simp add: dn)
qed

lemma cat_serves:
  assumes "serves_files D c fs" and "split_abs p = Inr dn" and "fs w dn = Some b"
  shows "run_exec D c [''cat'', ''--'', p] w = (Inr (0, utf8_decode b, []), w)"
proof -
  have "api_exec_run D c [''cat'', ''--'', p] WORKSPACE [] w
      = (Inr (Some 0, Demuxed (Bytes b) NoStream), w)"
    using assms unfolding serves_files_def by blast
  then show ?thesis by (simp add: run_exec_def bindM_def)
qed

lemma starts_nonempty: "starts_with ''/'' p \<Longrightarrow> p \<noteq> []"
  by (auto simp: starts_with_def)

definition edit_input :: "string \<Rightarrow> string \<Rightarrow> string \<Rightarrow> bool \<Rightarrow> dict" where
  "edit_input path old_str new_str all =
     [(''path'', JStr path), (''old_str'', JStr old_str), (''new_str'', JStr new_str),
      (''replace_all'', JBool all)]"


end
