(* ===== verification/Docker_Backend.thy ===== *)
theory Docker_Backend
  imports Sandbox_Tools
begin

text \<open>
  \<open>sandbox/backends/docker.py\<close>, the one backend of the sandbox service, over the Docker SDK.
  \<open>race m t\<close> stands for \<open>asyncio.wait_for(asyncio.to_thread(m), timeout=t)\<close>: it returns
  \<open>None\<close> when the time is over first.
\<close>

type_synonym 'w race = "('w, tool_result) prog \<Rightarrow> int \<Rightarrow> ('w, tool_result option) prog"

record ('h, 'w) docker =
  dk_containers :: "string \<Rightarrow> 'h option"
  dk_recipes :: "string \<Rightarrow> recipe option"
  dk_world :: 'w

abbreviation in_world :: "('w, 'a) prog \<Rightarrow> (('h, 'w) docker, 'a) prog" where
  "in_world \<equiv> zoom dk_world (\<lambda>w. dk_world_update (\<lambda>_. w))"

definition CONTAINER_LABEL :: string where
  "CONTAINER_LABEL = ''tename.sandbox''"

definition is_builtin :: "string \<Rightarrow> bool" where
  "is_builtin name \<longleftrightarrow>
     name \<in> set [''bash'', ''python'', ''file_read'', ''file_write'', ''file_edit'', ''file_list'']"

section \<open>Containers\<close>

definition container_config :: "recipe \<Rightarrow> run_config" where
  "container_config r =
     \<lparr>rc_image = runtime r, rc_command = [''tail'', ''-f'', ''/dev/null''],
      rc_nano_cpus = cpu_limit r * 1000000000,
      rc_mem_limit = int_str (memory_limit_mb r) @ ''m'',
      rc_pids_limit = 512, rc_working_dir = ''/workspace'', rc_environment = env r,
      rc_labels = [(CONTAINER_LABEL, ''1'')],
      rc_security_opt = [''no-new-privileges:true''], rc_network_mode = ''bridge''\<rparr>"

text \<open>The image is pulled when looking it up raises. A failing \<open>pip install\<close> is only logged.\<close>

definition provision_sync :: "('h, 'w) docker_api \<Rightarrow> recipe \<Rightarrow> ('w, 'h) prog" where
  "provision_sync D r =
     bindM (tryM (api_image_get D (runtime r)) (\<lambda>_. api_image_pull D (runtime r))) (\<lambda>_.
     bindM (api_run D (container_config r)) (\<lambda>c.
     bindM (run_exec D c [''mkdir'', ''-p'', ''/workspace'']) (\<lambda>_.
     bindM (forM (\<lambda>(path, text). put_file D c path text) (files r)) (\<lambda>_.
     bindM (if packages r \<noteq> [] \<and> starts_with ''python:'' (runtime r)
            then bindM (run_exec D c
                   ([''pip'', ''install'', ''--no-cache-dir'', ''--quiet''] @ packages r))
                   (\<lambda>_. returnM ())
            else returnM ()) (\<lambda>_.
     returnM c)))))"

definition short_id :: "string option \<Rightarrow> exn + string" where
  "short_id full_id =
     (case full_id of
        None \<Rightarrow> Inl (Exn ''ValueError'' ''docker returned a container without an id'')
      | Some s \<Rightarrow>
          if s = [] then Inl (Exn ''ValueError'' ''docker returned a container without an id'')
          else Inr (take 12 s))"

definition safe_destroy :: "('h, 'w) docker_api \<Rightarrow> 'h \<Rightarrow> ('w, unit) prog" where
  "safe_destroy D c = bindM (suppressM (api_stop D c)) (\<lambda>_. suppressM (api_remove D c))"

definition safe_kill :: "('h, 'w) docker_api \<Rightarrow> 'h \<Rightarrow> ('w, unit) prog" where
  "safe_kill D c = suppressM (api_kill D c)"

definition status_from_container ::
  "('h, 'w) docker_api \<Rightarrow> 'h \<Rightarrow> ('w, sandbox_status) prog" where
  "status_from_container D c =
     tryM (bindM (api_reload D c) (\<lambda>state.
       returnM
         (if state = Some ''running'' then IDLE
          else if state = Some ''created'' then PROVISIONING
          else if state \<in> {Some ''exited'', Some ''dead'', Some ''removing''} then DESTROYED
          else ERROR)))
       (\<lambda>_. returnM DESTROYED)"

section \<open>The contract\<close>

definition docker_provision ::
  "('h, 'w) docker_api \<Rightarrow> recipe \<Rightarrow> (('h, 'w) docker, string) prog" where
  "docker_provision D r =
     bindM (in_world (provision_sync D r)) (\<lambda>c.
     case short_id (api_id D c) of
       Inl e \<Rightarrow> raiseM e
     | Inr i \<Rightarrow>
         bindM (modifyM (\<lambda>s. s\<lparr>dk_containers := (dk_containers s)(i \<mapsto> c),
                              dk_recipes := (dk_recipes s)(i \<mapsto> r)\<rparr>)) (\<lambda>_.
         returnM i))"

definition timeout_result :: "string \<Rightarrow> int \<Rightarrow> tool_result" where
  "timeout_result tool_name t =
     tool_error (''tool '' @ quoted tool_name @ '' exceeded '' @ int_str t @ ''s timeout'')"

definition docker_execute ::
  "('h, 'w) docker_api \<Rightarrow> 'w race \<Rightarrow> string \<Rightarrow> string \<Rightarrow> dict
    \<Rightarrow> (('h, 'w) docker, tool_result) prog" where
  "docker_execute D race i tool_name tool_input =
     (if \<not> is_builtin tool_name
      then returnM (tool_error (''sandbox: unknown tool '' @ quoted tool_name))
      else bindM getM (\<lambda>s.
        case dk_containers s i of
          None \<Rightarrow> raiseM (Exn ''SandboxNotFoundError'' (''unknown sandbox_id '' @ quoted i))
        | Some c \<Rightarrow>
            (case dk_recipes s i of
               None \<Rightarrow> raiseM (Exn ''KeyError'' (repr_str i))
             | Some r \<Rightarrow>
                 (case map_of (sandbox_tools D) tool_name of
                    None \<Rightarrow> raiseM (Exn ''KeyError'' (repr_str tool_name))
                  | Some tool_fn \<Rightarrow>
                      bindM (in_world (race (tool_fn c tool_input r) (timeout_seconds r)))
                        (\<lambda>finished.
                      case finished of
                        Some result \<Rightarrow> returnM result
                      | None \<Rightarrow>
                          bindM (in_world (safe_kill D c)) (\<lambda>_.
                          returnM (timeout_result tool_name (timeout_seconds r))))))))"

definition docker_destroy :: "('h, 'w) docker_api \<Rightarrow> string \<Rightarrow> (('h, 'w) docker, unit) prog" where
  "docker_destroy D i =
     bindM getM (\<lambda>s.
     bindM (modifyM (\<lambda>s. s\<lparr>dk_containers := (dk_containers s)(i := None),
                          dk_recipes := (dk_recipes s)(i := None)\<rparr>)) (\<lambda>_.
     case dk_containers s i of
       None \<Rightarrow> returnM ()
     | Some c \<Rightarrow> in_world (safe_destroy D c)))"

definition docker_status ::
  "('h, 'w) docker_api \<Rightarrow> string \<Rightarrow> (('h, 'w) docker, sandbox_status) prog" where
  "docker_status D i =
     bindM getM (\<lambda>s.
     case dk_containers s i of
       None \<Rightarrow> returnM DESTROYED
     | Some c \<Rightarrow> in_world (status_from_container D c))"

definition docker_backend ::
  "('h, 'w) docker_api \<Rightarrow> 'w race \<Rightarrow> ('h, 'w) docker backend" where
  "docker_backend D race =
     \<lparr>be_provision = docker_provision D, be_execute = docker_execute D race,
      be_destroy = docker_destroy D, be_status = docker_status D\<rparr>"

section \<open>The backend keeps its promises\<close>

lemma in_world_eq:
  "in_world m s = (fst (m (dk_world s)), s\<lparr>dk_world := snd (m (dk_world s))\<rparr>)"
  by (simp add: zoom_def split: prod.split)

lemma safe_destroy_returns [simp]: "fst (safe_destroy D c w) = Inr ()"
proof -
  obtain w' where "suppressM (api_stop D c) w = (Inr (), w')"
    by (metis suppressM_returns prod.collapse)
  then show ?thesis by (simp add: safe_destroy_def)
qed

lemma docker_destroy_eq:
  "docker_destroy D i s =
     (Inr (), s\<lparr>dk_containers := (dk_containers s)(i := None),
                dk_recipes := (dk_recipes s)(i := None),
                dk_world := (case dk_containers s i of None \<Rightarrow> dk_world s
                             | Some c \<Rightarrow> snd (safe_destroy D c (dk_world s)))\<rparr>)"
  by (auto simp: docker_destroy_def bindM_def in_world_eq split: option.split)

interpretation dock: sandbox_backend "docker_backend D race" for D race
  by unfold_locales
    (auto simp: docker_backend_def docker_destroy_eq docker_status_def bindM_def split: option.split)

text \<open>Destroying a Docker sandbox through the service never raises, doing it again changes
  nothing, the sandbox then reports DESTROYED, and if the service knew it, it refuses every
  further tool call without touching Docker.\<close>

theorem docker_destroy_final:
  "let B = docker_backend D race; s' = snd (sandbox_destroy B i s) in
     fst (sandbox_destroy B i s) = Inr ()
     \<and> snd (sandbox_destroy B i s') = s'
     \<and> sandbox_current_status B i s' = (Inr DESTROYED, s')
     \<and> (if sb_status s i = None then True
        else sandbox_execute B i tool tool_input s' = (Inl (transition_error DESTROYED RUNNING i), s'))"
  by (auto simp: Let_def dock.destroyed_refuses dock.destroy_never_raises dock.destroy_twice dock.destroyed_reported)

section \<open>Timeouts\<close>

lemma contains_str_middle: "contains_str p (a @ p @ b)"
  unfolding contains_str_sublist by (rule sublist_appendI)

lemma contains_str_within: "contains_str p s \<Longrightarrow> contains_str p (a @ s @ b)"
  unfolding contains_str_sublist sublist_def by (metis append_assoc)

lemma lower_append: "lower (a @ b) = lower a @ lower b"
  by (simp add: lower_def)

lemma timeout_reads: "reads_as_timeout (timeout_result tool t)"
proof -
  define front where "front = ''tool '' @ quoted tool @ '' exceeded '' @ int_str t @ ''s ''"
  have "timeout_result tool t = tool_error (front @ ''timeout'')"
    by (simp add: timeout_result_def front_def)
  moreover have "lower ''timeout'' = ''timeout''" by code_simp
  ultimately show ?thesis
    using contains_str_middle[of "''timeout''" "lower front" "[]"]
    by (simp add: reads_as_timeout_def tool_error_def make_tool_result_def lower_append)
qed

lemma race_eq:
  assumes "is_builtin tool" and "map_of (sandbox_tools D) tool = Some fn"
    and "dk_containers d i = Some c" and "dk_recipes d i = Some r"
  shows "docker_execute D race i tool tool_input d =
    (case race (fn c tool_input r) (timeout_seconds r) (dk_world d) of
       (Inl e, w) \<Rightarrow> (Inl e, d\<lparr>dk_world := w\<rparr>)
     | (Inr (Some result), w) \<Rightarrow> (Inr result, d\<lparr>dk_world := w\<rparr>)
     | (Inr None, w) \<Rightarrow>
         (Inr (timeout_result tool (timeout_seconds r)), d\<lparr>dk_world := snd (safe_kill D c w)\<rparr>))"
proof -
  have "fst (safe_kill D c w) = Inr ()" for w by (simp add: safe_kill_def)
  with assms show ?thesis
    by (auto simp: docker_execute_def bindM_def in_world_eq split: prod.split sum.split option.split)
qed

lemma builtin_fn: "is_builtin tool \<Longrightarrow> \<exists>fn. map_of (sandbox_tools D) tool = Some fn"
  by (auto simp: is_builtin_def sandbox_tools_def)

text \<open>C33. A tool that runs out of time gets its container killed, the model gets an error result,
  the sandbox becomes ERROR, and the next call on it is refused without touching Docker.\<close>

theorem timeout_retires_sandbox:
  assumes "tracked i s \<in> {READY, IDLE}" and "is_builtin tool"
    and "dk_containers (sb_backend s) i = Some c" and "dk_recipes (sb_backend s) i = Some r"
    and "\<forall>m. race m (timeout_seconds r) (dk_world (sb_backend s)) = (Inr None, w)"
  shows "\<exists>s'. sandbox_execute (docker_backend D race) i tool tool_input s
      = (Inr (timeout_result tool (timeout_seconds r)), s')
    \<and> sb_status s' i = Some ERROR
    \<and> dk_world (sb_backend s') = snd (safe_kill D c w)
    \<and> sandbox_execute (docker_backend D race) i tool2 input2 s'
        = (Inl (transition_error ERROR RUNNING i), s')"
proof -
  obtain fn where fn: "map_of (sandbox_tools D) tool = Some fn"
    using builtin_fn[OF assms(2)] by blast
  note run = race_eq[OF assms(2) fn assms(3,4), of race tool_input]
  have "be_execute (docker_backend D race) i tool tool_input (sb_backend s)
      = (Inr (timeout_result tool (timeout_seconds r)),
         (sb_backend s)\<lparr>dk_world := snd (safe_kill D c w)\<rparr>)"
    by (simp add: docker_backend_def run assms(5))
  then show ?thesis
    using assms(1) by (auto simp: execute_outcome Let_def timeout_reads)
qed

text \<open>The service tells a timeout by the word in the message. An edit that fails because the
  text is not in a file whose path has the word "timeout" in it retires a sandbox whose
  container is alive and untouched.\<close>

theorem false_timeout:
  assumes "tracked i s \<in> {READY, IDLE}"
    and "dk_containers (sb_backend s) i = Some c" and "dk_recipes (sb_backend s) i = Some r"
    and "\<forall>m. race m (timeout_seconds r) (dk_world (sb_backend s))
           = map_prod (map_sum id Some) id (m (dk_world (sb_backend s)))"
    and "serves_files D c fs" and "starts_with ''/'' path" and "split_abs path = Inr dn"
    and "fs (dk_world (sb_backend s)) dn = Some (utf8_encode text)"
    and "count_str old text = 0" and "contains_str ''timeout'' (lower path)"
  shows "\<exists>result. sandbox_execute (docker_backend D race) i ''file_edit''
      (edit_input path old new all) s = (Inr result, set_status i ERROR s)"
proof -
  let ?w = "dk_world (sb_backend s)"
  define result where "result = tool_error (''file_edit: old_str not found in '' @ path)"
  have "run_exec D c [''cat'', ''--'', path] ?w = (Inr (0, text, []), ?w)"
    using cat_serves[OF assms(5,7,8)] by simp
  then have edit: "file_edit_tool D c (edit_input path old new all) r ?w = (Inr result, ?w)"
    using assms(9) starts_nonempty[OF assms(6)]
    by (simp add: file_edit_tool_def edit_input_def bindM_def result_def)
  have fn: "is_builtin ''file_edit''" "map_of (sandbox_tools D) ''file_edit'' = Some (file_edit_tool D)"
    by (simp_all add: is_builtin_def sandbox_tools_def)
  note run = race_eq[OF fn assms(2,3), of race "edit_input path old new all"]
  have ran: "be_execute (docker_backend D race) i ''file_edit'' (edit_input path old new all)
      (sb_backend s) = (Inr result, sb_backend s)"
    by (simp add: docker_backend_def run assms(4) edit)
  have "reads_as_timeout result"
  proof -
    define front where "front = ''file_edit: old_str not found in ''"
    have "result = tool_error (front @ path)" by (simp add: result_def front_def)
    then show ?thesis
      using contains_str_within[OF assms(10), of "lower front" "[]"] starts_nonempty[OF assms(6)]
      by (simp add: reads_as_timeout_def tool_error_def make_tool_result_def lower_append)
  qed
  with ran assms(1) show ?thesis by (auto simp: execute_outcome Let_def)
qed

text \<open>When a file of the recipe cannot be written, provisioning raises and leaves the state
  exactly as after starting the container: the container is tracked nowhere and is never
  stopped or removed.\<close>

theorem provision_leaks_container:
  assumes "api_image_get D (runtime r) (dk_world d) = (Inr (), w1)"
    and "api_run D (container_config r) w1 = (Inr c, w2)"
    and "run_exec D c [''mkdir'', ''-p'', ''/workspace''] w2 = (Inr x, w3)"
    and "files r = (path, text) # rest" and "\<not> starts_with ''/'' path"
  shows "\<exists>e. docker_provision D r d = (Inl e, d\<lparr>dk_world := w3\<rparr>)"
  using assms
  by (simp add: docker_provision_def provision_sync_def bindM_def tryM_def in_world_eq put_file_def)

end
