(* ===== verification/Examples_Sandbox.thy ===== *)
theory Examples_Sandbox
  imports Docker_Backend
begin

text \<open>A Docker with one directory tree, and the sandbox properties applied to it.\<close>

type_synonym tree = "string \<times> string \<Rightarrow> string option"

definition toy_exec :: "string list \<Rightarrow> tree \<Rightarrow> int option \<times> exec_output" where
  "toy_exec cmd w =
     (case cmd of
        [a, b, p] \<Rightarrow>
          if a = ''cat'' \<and> b = ''--'' then
            (case split_abs p of
               Inl _ \<Rightarrow> (Some 1, Demuxed NoStream NoStream)
             | Inr dn \<Rightarrow> (case w dn of
                 None \<Rightarrow> (Some 1, Demuxed NoStream (Bytes ''cat: no such file''))
               | Some bytes \<Rightarrow> (Some 0, Demuxed (Bytes bytes) NoStream)))
          else (Some 0, Demuxed NoStream NoStream)
      | _ \<Rightarrow> (Some 0, Demuxed NoStream NoStream))"

definition toy_docker :: "(string, tree) docker_api" where
  "toy_docker =
     \<lparr>api_image_get = (\<lambda>_. returnM ()), api_image_pull = (\<lambda>_. returnM ()),
      api_run = (\<lambda>r. returnM ''c0ffee000000aaaa''), api_id = Some,
      api_exec_run = (\<lambda>c cmd dir en w. (Inr (toy_exec cmd w), w)),
      api_put_archive = (\<lambda>c d ms w.
        (Inr True, foldl (\<lambda>w m. w((d, m_name m) \<mapsto> m_data m)) w ms)),
      api_stop = (\<lambda>_. returnM ()), api_remove = (\<lambda>_. returnM ()), api_kill = (\<lambda>_. returnM ()),
      api_reload = (\<lambda>_. returnM (Some ''running'')), api_uuid4 = returnM 9\<rparr>"

lemma toy_serves: "serves_files toy_docker c (\<lambda>w. w)"
  by (auto simp: serves_files_def toy_docker_def toy_exec_def)

definition in_time :: "'w race" where
  "in_time m t w = map_prod (map_sum id Some) id (m w)"

definition too_late :: "'w race" where
  "too_late m t w = (Inr None, w)"

text \<open>A ready sandbox with a file that mentions a timeout.\<close>

definition toy_tree :: tree where
  "toy_tree = (\<lambda>_. None)((''/workspace'', ''timeout.py'') \<mapsto> utf8_encode ''limit = 5'')"

definition toy_sandbox :: "(string, tree) docker sandbox" where
  "toy_sandbox =
     \<lparr>sb_status = (\<lambda>_. None)(''c0ffee000000'' \<mapsto> READY),
      sb_backend = \<lparr>dk_containers = (\<lambda>_. None)(''c0ffee000000'' \<mapsto> ''c0ffee000000aaaa''),
                    dk_recipes = (\<lambda>_. None)(''c0ffee000000'' \<mapsto> default_recipe),
                    dk_world = toy_tree\<rparr>\<rparr>"

lemma toy_ready: "tracked ''c0ffee000000'' toy_sandbox \<in> {READY, IDLE}"
  by (simp add: toy_sandbox_def tracked_def)

lemma toy_container:
  "dk_containers (sb_backend toy_sandbox) ''c0ffee000000'' = Some ''c0ffee000000aaaa''"
  "dk_recipes (sb_backend toy_sandbox) ''c0ffee000000'' = Some default_recipe"
  "dk_world (sb_backend toy_sandbox) = toy_tree"
  by (simp_all add: toy_sandbox_def)

lemma toy_path:
  "starts_with ''/'' ''/workspace/timeout.py''"
  "split_abs ''/workspace/timeout.py'' = Inr (''/workspace'', ''timeout.py'')"
  "contains_str ''timeout'' (lower ''/workspace/timeout.py'')"
  by code_simp+

theorem timeout_retires_sandbox_witness:
  "\<exists>s'. sandbox_execute (docker_backend toy_docker too_late) ''c0ffee000000'' ''bash''
        [(''cmd'', JStr ''sleep 900'')] toy_sandbox
      = (Inr (timeout_result ''bash'' (timeout_seconds default_recipe)), s')
    \<and> sb_status s' ''c0ffee000000'' = Some ERROR"
proof -
  have "is_builtin ''bash''" by (simp add: is_builtin_def)
  moreover have "\<forall>m. too_late m (timeout_seconds default_recipe) (dk_world (sb_backend toy_sandbox))
      = (Inr None, toy_tree)"
    by (simp add: too_late_def toy_container)
  ultimately show ?thesis
    using timeout_retires_sandbox[OF toy_ready _ toy_container(1,2)] by blast
qed

theorem false_timeout_witness:
  "\<exists>result. sandbox_execute (docker_backend toy_docker in_time) ''c0ffee000000'' ''file_edit''
      (edit_input ''/workspace/timeout.py'' ''absent'' ''x'' False) toy_sandbox
    = (Inr result, set_status ''c0ffee000000'' ERROR toy_sandbox)"
proof (rule false_timeout[OF toy_ready toy_container(1,2) _ toy_serves toy_path(1,2) _ _ toy_path(3)])
  show "\<forall>m. in_time m (timeout_seconds default_recipe) (dk_world (sb_backend toy_sandbox))
      = map_prod (map_sum id Some) id (m (dk_world (sb_backend toy_sandbox)))"
    by (simp add: in_time_def)
  show "dk_world (sb_backend toy_sandbox) (''/workspace'', ''timeout.py'')
      = Some (utf8_encode ''limit = 5'')"
    by (simp add: toy_container toy_tree_def)
  show "count_str ''absent'' ''limit = 5'' = 0" by code_simp
qed

theorem provision_leaks_container_witness:
  "\<exists>e. docker_provision toy_docker (default_recipe\<lparr>files := [(''notes.txt'', [])]\<rparr>)
      \<lparr>dk_containers = \<lambda>_. None, dk_recipes = \<lambda>_. None, dk_world = toy_tree\<rparr>
    = (Inl e, \<lparr>dk_containers = \<lambda>_. None, dk_recipes = \<lambda>_. None, dk_world = toy_tree\<rparr>)"
proof -
  have run: "run_exec toy_docker c [''mkdir'', ''-p'', ''/workspace''] toy_tree
      = (Inr (0, [], []), toy_tree)" for c
    by (simp add: run_exec_def toy_docker_def bindM_def toy_exec_def)
  show ?thesis
    using provision_leaks_container[of toy_docker "default_recipe\<lparr>files := [(''notes.txt'', [])]\<rparr>"
        "\<lparr>dk_containers = \<lambda>_. None, dk_recipes = \<lambda>_. None, dk_world = toy_tree\<rparr>" toy_tree
        "''c0ffee000000aaaa''" toy_tree "(0, [], [])" toy_tree "''notes.txt''" "[]" "[]"]
      run[of "''c0ffee000000aaaa''"]
    by (simp add: toy_docker_def starts_with_def)
qed


definition toy_file :: string where
  "toy_file = ''/workspace/timeout.py''"

definition toy_dir :: "string \<times> string" where
  "toy_dir = (''/workspace'', ''timeout.py'')"

definition toy_text :: string where
  "toy_text = ''limit = 5''"

definition toy_old :: string where
  "toy_old = ''5''"

lemma toy_edit:
  "starts_with ''/'' toy_file" "split_abs toy_file = Inr toy_dir" "count_str toy_old toy_text = 1"
  "toy_old \<noteq> []"
  by code_simp+

lemma toy_stored: "toy_tree toy_dir = Some (utf8_encode toy_text)"
  by (simp add: toy_tree_def toy_dir_def toy_text_def)


end
