(* ===== verification/Vault.thy ===== *)
theory Vault
  imports Effects
begin

text \<open>
  The credential vault (\<open>vault/service.py\<close>, \<open>vault/crypto.py\<close>). Fernet, PBKDF2 and the
  operating system's entropy are parameters (\<open>crypto\<close>); the backing file is the JSON value
  its text denotes, or the reason it cannot be read. Whether and where a write fails is a
  component of the state; an atomic replace either happens or not.
\<close>

section \<open>Base64\<close>

definition b64_alphabet :: string where
  "b64_alphabet =
     ''ABCDEFGHIJKLMNOPQRSTUVWXYZabcdefghijklmnopqrstuvwxyz0123456789+/''"

definition b64_digit :: "nat \<Rightarrow> char" where
  "b64_digit n = b64_alphabet ! n"

fun index_of :: "'a \<Rightarrow> 'a list \<Rightarrow> nat option" where
  "index_of x [] = None"
| "index_of x (y # ys) = (if x = y then Some 0 else map_option Suc (index_of x ys))"

definition b64_value :: "char \<Rightarrow> nat option" where
  "b64_value c = index_of c b64_alphabet"

fun b64encode :: "string \<Rightarrow> string" where
  "b64encode [] = []"
| "b64encode [x] = (let a = (of_char x :: nat) in
     [b64_digit (a div 4), b64_digit (a mod 4 * 16), CHR ''='', CHR ''=''])"
| "b64encode [x, y] = (let a = (of_char x :: nat); b = (of_char y :: nat) in
     [b64_digit (a div 4), b64_digit (a mod 4 * 16 + b div 16), b64_digit (b mod 16 * 4),
      CHR ''=''])"
| "b64encode (x # y # z # s) =
     (let a = (of_char x :: nat); b = (of_char y :: nat); c = (of_char z :: nat) in
      [b64_digit (a div 4), b64_digit (a mod 4 * 16 + b div 16),
       b64_digit (b mod 16 * 4 + c div 64), b64_digit (c mod 64)] @ b64encode s)"

text \<open>\<open>b64decode(s, validate=True)\<close>: groups of four, padding only at the end. Unused low bits of
  the last digit are ignored, as the standard library does.\<close>

fun b64decode :: "string \<Rightarrow> string option" where
  "b64decode [] = Some []"
| "b64decode (p # q # r # t # s) =
     (case (b64_value p, b64_value q) of
        (Some i, Some j) \<Rightarrow>
          if r = CHR ''='' \<and> t = CHR ''='' \<and> s = []
          then Some [char_of (i * 4 + j div 16)]
          else (case b64_value r of
            None \<Rightarrow> None
          | Some k \<Rightarrow>
              if t = CHR ''='' \<and> s = []
              then Some [char_of (i * 4 + j div 16), char_of (j mod 16 * 16 + k div 4)]
              else (case (b64_value t, b64decode s) of
                (Some l, Some rest) \<Rightarrow>
                  Some ([char_of (i * 4 + j div 16), char_of (j mod 16 * 16 + k div 4),
                         char_of (k mod 4 * 64 + l)] @ rest)
              | _ \<Rightarrow> None))
      | _ \<Rightarrow> None)"
| "b64decode _ = None"

lemma b64_value_digit: "n < 64 \<Longrightarrow> b64_value (b64_digit n) = Some n \<and> b64_digit n \<noteq> CHR ''=''"
proof -
  have "list_all (\<lambda>n. b64_value (b64_digit n) = Some n \<and> b64_digit n \<noteq> CHR ''='') [0..<64]"
    by code_simp
  then show "n < 64 \<Longrightarrow> ?thesis" by (simp add: list_all_iff)
qed

text \<open>Three bytes are four sextets.\<close>

lemma sextets:
  fixes a b c :: nat
  assumes "a < 256" and "b < 256" and "c < 256"
  shows "a div 4 < 64" and "a mod 4 * 16 + b div 16 < 64" and "b mod 16 * 4 + c div 64 < 64"
    and "c mod 64 < 64"
    and "a div 4 * 4 + (a mod 4 * 16 + b div 16) div 16 = a"
    and "(a mod 4 * 16 + b div 16) mod 16 * 16 + (b mod 16 * 4 + c div 64) div 4 = b"
    and "(b mod 16 * 4 + c div 64) mod 4 * 64 + c mod 64 = c"
proof -
  have b: "b div 16 < 16" and c: "c div 64 < 4" using assms by auto
  show "a div 4 < 64" "c mod 64 < 64" using assms by auto
  have "a mod 4 \<le> 3" "b mod 16 \<le> 15" by (simp_all flip: less_Suc_eq_le)
  with b c show "a mod 4 * 16 + b div 16 < 64" "b mod 16 * 4 + c div 64 < 64" by linarith+
  show "a div 4 * 4 + (a mod 4 * 16 + b div 16) div 16 = a" using b by simp
  show "(a mod 4 * 16 + b div 16) mod 16 * 16 + (b mod 16 * 4 + c div 64) div 4 = b"
    using b c by simp
  show "(b mod 16 * 4 + c div 64) mod 4 * 64 + c mod 64 = c" using c by simp
qed

lemma byte: "(of_char x :: nat) < 256"
  by simp

lemma b64_roundtrip [simp]: "b64decode (b64encode s) = Some s"
proof (induction s rule: b64encode.induct)
  case (2 x)
  show ?case
    using sextets[OF byte[of x], of 0 0] by (simp add: Let_def b64_value_digit)
next
  case (3 x y)
  show ?case
    using sextets[OF byte[of x] byte[of y], of 0] by (simp add: Let_def b64_value_digit)
next
  case (4 x y z s)
  then show ?case
    using sextets[OF byte[of x] byte[of y] byte[of z]] by (simp add: Let_def b64_value_digit)
qed simp

section \<open>Cryptography\<close>

definition DEFAULT_ITERATIONS :: int where
  "DEFAULT_ITERATIONS = 600000"

definition SALT_BYTES :: nat where
  "SALT_BYTES = 16"

record key_parameters =
  kp_salt :: string
  kp_iterations :: int

text \<open>\<open>urandom n d\<close> is the \<open>d\<close>-th draw of \<open>n\<close> bytes; the initialisation vector of an encryption
  is drawn the same way inside Fernet, so \<open>encrypt\<close> takes the draw. \<open>pbkdf2\<close> covers the
  derivation with its base64 armour.\<close>

record crypto =
  urandom :: "nat \<Rightarrow> nat \<Rightarrow> string"
  pbkdf2 :: "string \<Rightarrow> string \<Rightarrow> int \<Rightarrow> string"
  encrypt :: "string \<Rightarrow> nat \<Rightarrow> string \<Rightarrow> string"
  decrypt :: "string \<Rightarrow> string \<Rightarrow> string option"

datatype vault_file = Unreadable string | Not_Json | Parsed json

text \<open>An \<open>OSError\<close> of making the directory or the temporary file is raised as it is; one of writing
  or replacing is wrapped.\<close>

datatype write_failure = No_Directory exn | No_Replace string

record vault =
  v_path :: string
  v_passphrase :: "string option"
  v_file :: "vault_file option"
  v_write_error :: "write_failure option"
  v_draws :: nat

definition vault_error :: "string \<Rightarrow> exn" where
  "vault_error text = Exn ''VaultError'' text"

definition locked_error :: "string \<Rightarrow> exn" where
  "locked_error text = Exn ''VaultLockedError'' text"

definition not_found_error :: "string \<Rightarrow> exn" where
  "not_found_error text = Exn ''VaultCredentialNotFoundError'' text"

definition configuration_error :: "string \<Rightarrow> exn" where
  "configuration_error text = Exn ''VaultConfigurationError'' text"

definition generate_salt :: "crypto \<Rightarrow> (vault, string) prog" where
  "generate_salt C =
     bindM getM (\<lambda>v. bindM (modifyM (v_draws_update Suc)) (\<lambda>_.
     returnM (urandom C SALT_BYTES (v_draws v))))"

definition derive_key :: "crypto \<Rightarrow> string \<Rightarrow> key_parameters \<Rightarrow> exn + string" where
  "derive_key C passphrase params =
     (if passphrase = [] then Inl (locked_error ''vault passphrase is empty'')
      else Inr (pbkdf2 C passphrase (kp_salt params) (kp_iterations params)))"

definition encrypt_value :: "crypto \<Rightarrow> string \<Rightarrow> string \<Rightarrow> (vault, string) prog" where
  "encrypt_value C key plaintext =
     bindM getM (\<lambda>v. bindM (modifyM (v_draws_update Suc)) (\<lambda>_.
     returnM (encrypt C key (v_draws v) plaintext)))"

definition is_ascii :: "string \<Rightarrow> bool" where
  "is_ascii s \<longleftrightarrow> list_all (\<lambda>c. (of_char c :: nat) < 128) s"

text \<open>\<open>token.encode("ascii")\<close> raises outside the handler for a token that is no string or not
  ASCII.\<close>

definition decrypt_value :: "crypto \<Rightarrow> string \<Rightarrow> json \<Rightarrow> exn + string" where
  "decrypt_value C key token =
     (case token of
        JStr t \<Rightarrow>
          if \<not> is_ascii t then Inl (Exn ''UnicodeEncodeError'' t)
          else (case decrypt C key t of
                  None \<Rightarrow> Inl (locked_error ''vault credential failed authenticated decryption'')
                | Some plaintext \<Rightarrow> Inr plaintext)
      | _ \<Rightarrow> Inl (Exn ''AttributeError'' ''encode''))"

section \<open>The file\<close>

definition VAULT_FILE_VERSION :: int where
  "VAULT_FILE_VERSION = 1"

definition VAULT_PASSPHRASE_ENV :: string where
  "VAULT_PASSPHRASE_ENV = ''TENAME_VAULT_PASSPHRASE''"

text \<open>\<open>version == 1\<close> also holds of \<open>True\<close> and of \<open>1.0\<close>.\<close>

definition version_ok :: "json \<Rightarrow> bool" where
  "version_ok v \<longleftrightarrow> as_int v = Some VAULT_FILE_VERSION \<or> v = JFloat ''1.0''"

definition setdefault :: "string \<Rightarrow> json \<Rightarrow> dict \<Rightarrow> dict" where
  "setdefault k v d = (if map_of d k = None then d @ [(k, v)] else d)"

text \<open>A loaded state with its key parameters.\<close>

definition load_state_or_none :: "vault \<Rightarrow> exn + (dict \<times> key_parameters) option" where
  "load_state_or_none v =
     (let bad = (\<lambda>what. configuration_error (''vault file '' @ v_path v @ what)) in
      case v_file v of
        None \<Rightarrow> Inr None
      | Some (Unreadable exc) \<Rightarrow> Inl (bad ('' is unreadable: '' @ exc))
      | Some Not_Json \<Rightarrow> Inl (bad '' is not valid JSON'')
      | Some (Parsed doc) \<Rightarrow>
          (case doc of
             JObj st \<Rightarrow>
               if \<not> version_ok (dget st ''version'')
               then Inl (bad ('' has unsupported version '' @ py_repr (dget st ''version'')
                      @ '' (this build handles version 1)''))
               else (case (dget st ''salt'', as_int (dget st ''iterations'')) of
                 (JStr salt_b64, Some iterations) \<Rightarrow>
                   (case b64decode salt_b64 of
                      None \<Rightarrow> Inl (bad '' has a malformed salt field'')
                    | Some salt \<Rightarrow>
                        let st = setdefault ''credentials'' (JObj []) st in
                        if as_obj (dget st ''credentials'') = None
                        then Inl (bad ('' has a non-object '' @ repr_str ''credentials'' @ '' field''))
                        else Inr (Some (st, \<lparr>kp_salt = salt, kp_iterations = iterations\<rparr>)))
               | _ \<Rightarrow> Inl (bad ('' is missing required '' @ repr_str ''salt'' @ '' / ''
                            @ repr_str ''iterations'' @ '' fields'')))
           | _ \<Rightarrow> Inl (bad '' is not a JSON object'')))"

definition load_state :: "(vault, (dict \<times> key_parameters) option) prog" where
  "load_state = bindM getM (\<lambda>v. case load_state_or_none v of
     Inl e \<Rightarrow> raiseM e | Inr r \<Rightarrow> returnM r)"

definition load_or_init_state :: "crypto \<Rightarrow> (vault, dict \<times> key_parameters) prog" where
  "load_or_init_state C =
     bindM load_state (\<lambda>loaded.
     case loaded of
       Some (st, params) \<Rightarrow> returnM (st, params)
     | None \<Rightarrow>
         bindM (generate_salt C) (\<lambda>salt.
         returnM
           ([(''version'', JInt VAULT_FILE_VERSION), (''salt'', JStr (b64encode salt)),
             (''iterations'', JInt DEFAULT_ITERATIONS), (''credentials'', JObj [])],
            \<lparr>kp_salt = salt, kp_iterations = DEFAULT_ITERATIONS\<rparr>)))"

definition load_state_required :: "(vault, dict \<times> key_parameters) prog" where
  "load_state_required =
     bindM load_state (\<lambda>loaded.
     case loaded of
       Some r \<Rightarrow> returnM r
     | None \<Rightarrow>
         bindM getM (\<lambda>v. raiseM (not_found_error
           (''vault file '' @ v_path v @ '' does not exist yet; nothing to retrieve''))))"

text \<open>\<open>json.dumps(state, sort_keys=True)\<close> read back: every mapping sorted by key.\<close>

fun sort_keys :: "json \<Rightarrow> json" and sort_items :: "json list \<Rightarrow> json list"
  and sort_pairs :: "dict \<Rightarrow> dict" where
  "sort_keys (JObj d) = JObj (sort_pairs d)"
| "sort_keys (JList xs) = JList (sort_items xs)"
| "sort_keys JNull = JNull"
| "sort_keys (JBool b) = JBool b"
| "sort_keys (JInt i) = JInt i"
| "sort_keys (JFloat r) = JFloat r"
| "sort_keys (JStr s) = JStr s"
| "sort_items [] = []"
| "sort_items (x # xs) = sort_keys x # sort_items xs"
| "sort_pairs [] = []"
| "sort_pairs ((k, v) # d) = insort_key fst (k, sort_keys v) (sort_pairs d)"

definition write_exception :: "string \<Rightarrow> write_failure \<Rightarrow> exn" where
  "write_exception path failure =
     (case failure of
        No_Directory e \<Rightarrow> e
      | No_Replace exc \<Rightarrow> configuration_error (''failed to write vault file '' @ path @ '': '' @ exc))"

definition write_state :: "dict \<Rightarrow> key_parameters \<Rightarrow> (vault, unit) prog" where
  "write_state st params =
     (let st1 = AList.update ''version'' (JInt VAULT_FILE_VERSION) st;
          st2 = AList.update ''salt'' (JStr (b64encode (kp_salt params))) st1;
          st3 = AList.update ''iterations'' (JInt (kp_iterations params)) st2;
          st4 = setdefault ''credentials'' (JObj []) st3
      in bindM getM (\<lambda>v.
         case v_write_error v of
           Some failure \<Rightarrow> raiseM (write_exception (v_path v) failure)
         | None \<Rightarrow> modifyM (v_file_update (\<lambda>_. Some (Parsed (sort_keys (JObj st4)))))))"

definition credentials_dict :: "dict \<Rightarrow> dict" where
  "credentials_dict st = (case dget st ''credentials'' of JObj d \<Rightarrow> d | _ \<Rightarrow> [])"

section \<open>Operations\<close>

definition validate_name :: "string \<Rightarrow> exn + unit" where
  "validate_name name =
     (if name = [] then Inl (vault_error ''credential name must be a non-empty string'')
      else if list_ex is_space name
      then Inl (vault_error (''credential name '' @ repr_str name
                  @ '' must not contain whitespace''))
      else Inr ())"

definition liftE :: "exn + 'a \<Rightarrow> ('s, 'a) prog" where
  "liftE r = (case r of Inl e \<Rightarrow> raiseM e | Inr x \<Rightarrow> returnM x)"

definition vault_key :: "crypto \<Rightarrow> key_parameters \<Rightarrow> (vault, string) prog" where
  "vault_key C params =
     bindM getM (\<lambda>v.
     case v_passphrase v of
       None \<Rightarrow> raiseM (configuration_error
         (''vault passphrase is not set (pass `passphrase=` or set '' @ VAULT_PASSPHRASE_ENV
          @ '')''))
     | Some p \<Rightarrow> liftE (derive_key C p params))"

definition vault_store :: "crypto \<Rightarrow> string \<Rightarrow> string \<Rightarrow> (vault, unit) prog" where
  "vault_store C name value =
     bindM (liftE (validate_name name)) (\<lambda>_.
     bindM (load_or_init_state C) (\<lambda>(st, params).
     bindM (vault_key C params) (\<lambda>key.
     bindM (encrypt_value C key value) (\<lambda>token.
     write_state
       (AList.update ''credentials''
          (JObj (AList.update name (JStr token) (credentials_dict st))) st) params))))"

definition vault_retrieve :: "crypto \<Rightarrow> string \<Rightarrow> (vault, string) prog" where
  "vault_retrieve C name =
     bindM (liftE (validate_name name)) (\<lambda>_.
     bindM load_state_required (\<lambda>(st, params).
     let token = dget (credentials_dict st) name in
     if token = JNull
     then raiseM (not_found_error (''no credential named '' @ repr_str name))
     else bindM (vault_key C params) (\<lambda>key. liftE (decrypt_value C key token))))"

definition vault_revoke :: "string \<Rightarrow> (vault, bool) prog" where
  "vault_revoke name =
     bindM (liftE (validate_name name)) (\<lambda>_.
     bindM load_state (\<lambda>loaded.
     case loaded of
       None \<Rightarrow> returnM False
     | Some (st, params) \<Rightarrow>
         if map_of (credentials_dict st) name = None then returnM False
         else bindM (write_state
                (AList.update ''credentials''
                   (JObj (AList.delete name (credentials_dict st))) st) params)
              (\<lambda>_. returnM True)))"

definition vault_list :: "(vault, string list) prog" where
  "vault_list =
     bindM load_state (\<lambda>loaded.
     case loaded of
       None \<Rightarrow> returnM []
     | Some (st, params) \<Rightarrow> returnM (sort (map fst (credentials_dict st))))"

fun decrypt_all :: "crypto \<Rightarrow> string \<Rightarrow> dict \<Rightarrow> exn + (string \<times> string) list" where
  "decrypt_all C key [] = Inr []"
| "decrypt_all C key ((name, token) # rest) =
     bindE (decrypt_value C key token) (\<lambda>plaintext.
     bindE (decrypt_all C key rest) (\<lambda>ps. Inr ((name, plaintext) # ps)))"

fun encrypt_all :: "crypto \<Rightarrow> string \<Rightarrow> (string \<times> string) list \<Rightarrow> (vault, dict) prog" where
  "encrypt_all C key [] = returnM []"
| "encrypt_all C key ((name, plaintext) # rest) =
     bindM (encrypt_value C key plaintext) (\<lambda>token.
     bindM (encrypt_all C key rest) (\<lambda>d. returnM ((name, JStr token) # d)))"

definition change_passphrase :: "crypto \<Rightarrow> string \<Rightarrow> (vault, unit) prog" where
  "change_passphrase C new_passphrase =
     (if new_passphrase = []
      then raiseM (configuration_error ''new vault passphrase must be non-empty'')
      else
        bindM load_state_required (\<lambda>(st, params).
        bindM (vault_key C params) (\<lambda>old_key.
        bindM (liftE (decrypt_all C old_key (credentials_dict st))) (\<lambda>plaintexts.
        bindM (generate_salt C) (\<lambda>salt.
        let new_params = \<lparr>kp_salt = salt, kp_iterations = DEFAULT_ITERATIONS\<rparr> in
        bindM (modifyM (v_passphrase_update (\<lambda>_. Some new_passphrase))) (\<lambda>_.
        bindM (vault_key C new_params) (\<lambda>new_key.
        bindM (encrypt_all C new_key plaintexts) (\<lambda>creds.
        write_state (AList.update ''credentials'' (JObj creds) st) new_params))))))))"

end
