(* ===== verification/Vault_Facts.thy ===== *)
theory Vault_Facts
  imports Vault
begin

text \<open>
  What the vault guarantees: what was stored is retrieved, other credentials are not
  disturbed, a change of passphrase keeps every credential; and two ways to lose access, a
  store under a wrong passphrase and a failed write during a change of passphrase.
\<close>

section \<open>Assumptions on the cryptography\<close>

text \<open>Documented behaviour of Fernet: decryption inverts encryption under the same key, a token is
  ASCII, and decryption under another key raises \<open>InvalidToken\<close>.\<close>

definition fernet_ok :: "crypto \<Rightarrow> bool" where
  "fernet_ok C \<longleftrightarrow> (\<forall>k n p. decrypt C k (encrypt C k n p) = Some p \<and> is_ascii (encrypt C k n p))"

definition fernet_authentic :: "crypto \<Rightarrow> bool" where
  "fernet_authentic C \<longleftrightarrow> (\<forall>k k' n p. k' \<noteq> k \<longrightarrow> decrypt C k' (encrypt C k n p) = None)"

text \<open>A Python dictionary has each key once.\<close>

definition dict_ok :: "('k \<times> 'v) list \<Rightarrow> bool" where
  "dict_ok d \<longleftrightarrow> distinct (map fst d)"

definition vault_ok :: "vault \<Rightarrow> bool" where
  "vault_ok v \<longleftrightarrow> (\<forall>st. v_file v = Some (Parsed (JObj st)) \<longrightarrow>
     dict_ok st \<and> dict_ok (credentials_dict st))"

section \<open>Reading back what was written\<close>

lemma insort_lookup:
  "k \<notin> fst ` set d \<Longrightarrow> map_of (insort_key fst (k, v) d) = (map_of d)(k \<mapsto> v)"
  by (induction d) auto

lemma sort_pairs_keys: "fst ` set (sort_pairs d) = fst ` set d"
proof (induction d)
  case (Cons kv d)
  then show ?case by (cases kv) (simp add: set_insort_key)
qed simp

lemma sort_pairs_lookup:
  "dict_ok d \<Longrightarrow> map_of (sort_pairs d) k = map_option sort_keys (map_of d k)"
proof (induction d)
  case (Cons kv d)
  then show ?case
    by (cases kv) (simp add: dict_ok_def insort_lookup sort_pairs_keys)
qed simp

lemma sort_pairs_dget: "dict_ok d \<Longrightarrow> dget (sort_pairs d) k = sort_keys (dget d k)"
  by (simp add: dget_def sort_pairs_lookup split: option.split)

lemma distinct_insort_pairs:
  "k \<notin> fst ` set d \<Longrightarrow> dict_ok d \<Longrightarrow> dict_ok (insort_key fst (k, v) d)"
  by (induction d) (auto simp: dict_ok_def set_insort_key)

lemma sort_pairs_ok: "dict_ok d \<Longrightarrow> dict_ok (sort_pairs d)"
proof (induction d)
  case (Cons kv d)
  obtain k v where kv: "kv = (k, v)" by (cases kv)
  with Cons.prems have "k \<notin> fst ` set d" "dict_ok d" by (simp_all add: dict_ok_def)
  with Cons.IH show ?case by (simp add: kv distinct_insort_pairs sort_pairs_keys)
qed simp

lemma dict_ok_update: "dict_ok d \<Longrightarrow> dict_ok (AList.update k v d)"
  by (simp add: dict_ok_def distinct_update)

lemma dict_ok_setdefault: "dict_ok d \<Longrightarrow> dict_ok (setdefault k v d)"
  by (auto simp: dict_ok_def setdefault_def map_of_eq_None_iff)

lemma dget_setdefault:
  "dget (setdefault k v d) k' = (if k' = k \<and> map_of d k = None then v else dget d k')"
  by (auto simp: setdefault_def dget_def map_add_def split: option.split)

lemma decrypt_sorted [simp]: "decrypt_value C key (sort_keys t) = decrypt_value C key t"
  by (cases t) (simp_all add: decrypt_value_def)

lemma sort_keys_null [simp]: "sort_keys t = JNull \<longleftrightarrow> t = JNull"
  by (cases t) simp_all

lemma write_state_loaded:
  assumes "v_write_error v = None" and "dict_ok st" and "dget st ''credentials'' = JObj creds"
    and "dict_ok creds"
  shows "\<exists>st'. write_state st params v = (Inr (), v\<lparr>v_file := Some (Parsed (JObj st'))\<rparr>)
    \<and> load_state_or_none (v\<lparr>v_file := Some (Parsed (JObj st'))\<rparr>) = Inr (Some (st', params))
    \<and> credentials_dict st' = sort_pairs creds \<and> dict_ok st'"
proof -
  define st3 where "st3 = AList.update ''iterations'' (JInt (kp_iterations params))
    (AList.update ''salt'' (JStr (b64encode (kp_salt params)))
      (AList.update ''version'' (JInt VAULT_FILE_VERSION) st))"
  define st4 where "st4 = setdefault ''credentials'' (JObj []) st3"
  have look: "dget st3 k = (if k = ''iterations'' then JInt (kp_iterations params)
      else if k = ''salt'' then JStr (b64encode (kp_salt params))
      else if k = ''version'' then JInt VAULT_FILE_VERSION else dget st k)" for k
    by (simp add: st3_def)
  have "map_of st3 ''credentials'' \<noteq> None"
    using look[of "''credentials''"] assms(3) by (auto simp: dget_def split: option.splits)
  then have st4: "st4 = st3" by (simp add: st4_def setdefault_def)
  have ok: "dict_ok st3" by (simp add: st3_def dict_ok_update assms(2))
  have written: "write_state st params v = (Inr (), v\<lparr>v_file := Some (Parsed (JObj (sort_pairs st3)))\<rparr>)"
    using st4 by (simp add: write_state_def Let_def bindM_def assms(1) st4_def flip: st3_def)
  have d: "dget (sort_pairs st3) k = sort_keys (dget st3 k)" for k
    by (rule sort_pairs_dget[OF ok])
  then have creds: "dget (sort_pairs st3) ''credentials'' = JObj (sort_pairs creds)"
    by (simp add: look assms(3))
  then have "setdefault ''credentials'' (JObj []) (sort_pairs st3) = sort_pairs st3"
    by (auto simp: setdefault_def dget_def split: option.splits)
  then have "load_state_or_none (v\<lparr>v_file := Some (Parsed (JObj (sort_pairs st3)))\<rparr>)
      = Inr (Some (sort_pairs st3, params))"
    by (simp add: load_state_or_none_def Let_def d look assms(3) version_ok_def VAULT_FILE_VERSION_def)
  with written creds show ?thesis
    by (intro exI[of _ "sort_pairs st3"]) (simp add: credentials_dict_def sort_pairs_ok ok)
qed

section \<open>Loading\<close>

lemma load_simps:
  "load_state v = (case load_state_or_none v of Inl e \<Rightarrow> (Inl e, v) | Inr r \<Rightarrow> (Inr r, v))"
  by (simp add: load_state_def bindM_def split: sum.split)

lemma liftE_eq: "liftE r s = (r, s)"
  by (cases r) (simp_all add: liftE_def)

lemma vault_key_eq:
  "vault_key C params v =
     ((case v_passphrase v of
         None \<Rightarrow> Inl (configuration_error
           (''vault passphrase is not set (pass `passphrase=` or set '' @ VAULT_PASSPHRASE_ENV
            @ '')''))
       | Some p \<Rightarrow> derive_key C p params), v)"
  by (simp add: vault_key_def bindM_def liftE_eq split: option.split)

lemma loaded_ok:
  assumes "load_state_or_none v = Inr (Some (st, params))" and "vault_ok v"
  shows "dict_ok st" "dict_ok (credentials_dict st)"
    "dget st ''credentials'' = JObj (credentials_dict st)"
proof -
  obtain st0 where st0: "v_file v = Some (Parsed (JObj st0))"
    "st = setdefault ''credentials'' (JObj []) st0" "as_obj (dget st ''credentials'') \<noteq> None"
    using assms(1)
    by (auto simp: load_state_or_none_def Let_def split: option.splits vault_file.splits
        json.splits if_splits)
  from st0(1) assms(2) have ok: "dict_ok st0" "dict_ok (credentials_dict st0)"
    by (auto simp: vault_ok_def)
  then show "dict_ok st" by (simp add: st0(2) dict_ok_setdefault)
  show *: "dget st ''credentials'' = JObj (credentials_dict st)"
    using st0(3) by (cases "dget st ''credentials''") (simp_all add: credentials_dict_def)
  show "dict_ok (credentials_dict st)"
  proof (cases "map_of st0 ''credentials''")
    case None
    then show ?thesis by (simp add: st0(2) credentials_dict_def dget_setdefault dict_ok_def)
  next
    case (Some x)
    then have "st = st0" by (simp add: st0(2) setdefault_def)
    with ok show ?thesis by simp
  qed
qed

lemma retrieve_loaded:
  assumes "load_state_or_none v = Inr (Some (st, params))"
  shows "vault_retrieve C name v =
    (bindE (validate_name name) (\<lambda>_.
       if dget (credentials_dict st) name = JNull
       then Inl (not_found_error (''no credential named '' @ repr_str name))
       else bindE (fst (vault_key C params v)) (\<lambda>key.
         decrypt_value C key (dget (credentials_dict st) name))), v)"
proof (cases "validate_name name")
  case (Inr u)
  then show ?thesis
    by (cases "fst (vault_key C params v)")
      (simp_all add: vault_retrieve_def load_state_required_def bindM_def liftE_eq load_simps
        assms vault_key_eq)
qed (simp add: vault_retrieve_def bindM_def liftE_eq)

section \<open>Storing\<close>

text \<open>What the vault works on: the loaded state or a fresh one, and the vault after drawing the
  salt of a fresh one.\<close>

lemma load_draws [simp]:
  "load_state_or_none (v_draws_update f v) = load_state_or_none v"
  "load_state_or_none (v_passphrase_update g v) = load_state_or_none v"
  by (simp_all add: load_state_or_none_def)

lemma key_of_file [simp]:
  "vault_key C params (v_file_update f v) = (fst (vault_key C params v), v_file_update f v)"
  "vault_key C params (v_draws_update g v) = (fst (vault_key C params v), v_draws_update g v)"
  by (simp_all add: vault_key_eq)

lemma load_or_init_ok:
  assumes "load_or_init_state C v = (Inr (st, params), v1)" and "vault_ok v"
  shows "dict_ok st" and "dict_ok (credentials_dict st)"
    and "dget st ''credentials'' = JObj (credentials_dict st)"
    and "\<exists>f. v1 = v_draws_update f v"
    and "load_state_or_none v = Inr (Some (st, params)) \<or> load_state_or_none v = Inr None"
proof -
  consider (old) "load_state_or_none v = Inr (Some (st, params))" "v1 = v"
    | (new) "load_state_or_none v = Inr None" "v1 = v_draws_update Suc v"
      "st = [(''version'', JInt VAULT_FILE_VERSION),
        (''salt'', JStr (b64encode (urandom C SALT_BYTES (v_draws v)))),
        (''iterations'', JInt DEFAULT_ITERATIONS), (''credentials'', JObj [])]"
    using assms(1)
    by (cases "load_state_or_none v")
      (auto simp: load_or_init_state_def bindM_def load_simps generate_salt_def
        split: option.splits prod.splits)
  then have "dict_ok st \<and> dict_ok (credentials_dict st)
    \<and> dget st ''credentials'' = JObj (credentials_dict st) \<and> (\<exists>f. v1 = v_draws_update f v)
    \<and> (load_state_or_none v = Inr (Some (st, params)) \<or> load_state_or_none v = Inr None)"
  proof cases
    case old
    moreover have "v = v_draws_update id v" by simp
    ultimately show ?thesis using loaded_ok[OF old(1) assms(2)] by blast
  next
    case new
    have "dict_ok st" "dget st ''credentials'' = JObj []" by (simp_all add: new(3) dict_ok_def)
    with new(1,2) show ?thesis by (auto simp: credentials_dict_def dict_ok_def)
  qed
  then show "dict_ok st" and "dict_ok (credentials_dict st)"
    and "dget st ''credentials'' = JObj (credentials_dict st)"
    and "\<exists>f. v1 = v_draws_update f v"
    and "load_state_or_none v = Inr (Some (st, params)) \<or> load_state_or_none v = Inr None"
    by blast+
qed

lemma store_returns:
  assumes "vault_store C name value v = (Inr (), v')" and "vault_ok v"
  obtains st params v1 key st' where
    "validate_name name = Inr ()" "load_or_init_state C v = (Inr (st, params), v1)"
    "fst (vault_key C params v) = Inr key"
    "load_state_or_none v' = Inr (Some (st', params))" "v_passphrase v' = v_passphrase v"
    "credentials_dict st'
      = sort_pairs (AList.update name (JStr (encrypt C key (v_draws v1) value)) (credentials_dict st))"
    "dict_ok st'" "v_file v' = Some (Parsed (JObj st'))"
proof -
  have n: "validate_name name = Inr ()"
    using assms by (cases "validate_name name") (simp_all add: vault_store_def bindM_def liftE_eq)
  obtain st params v1 where l: "load_or_init_state C v = (Inr (st, params), v1)"
    using assms(1) n
    by (cases "load_or_init_state C v"; cases "fst (load_or_init_state C v)")
      (auto simp: vault_store_def bindM_def liftE_eq)
  note ok = load_or_init_ok[OF l assms(2)]
  then obtain f where f: "v1 = v_draws_update f v" by blast
  obtain key where key: "fst (vault_key C params v) = Inr key"
    using assms(1) n
    by (cases "fst (vault_key C params v)")
      (simp_all add: vault_store_def bindM_def liftE_eq l f)
  let ?creds = "AList.update name (JStr (encrypt C key (v_draws v1) value)) (credentials_dict st)"
  let ?st = "AList.update ''credentials'' (JObj ?creds) st"
  let ?v = "v_draws_update Suc v1"
  have eq: "vault_store C name value v = write_state ?st params ?v"
    by (simp add: vault_store_def bindM_def liftE_eq n l encrypt_value_def f key)
  have we: "v_write_error ?v = None"
    using assms(1) eq by (cases "v_write_error ?v") (simp_all add: write_state_def Let_def bindM_def)
  have "dict_ok ?st" "dget ?st ''credentials'' = JObj ?creds" "dict_ok ?creds"
    by (simp_all add: dict_ok_update ok)
  from write_state_loaded[OF we this, of params] obtain st' where
    w: "write_state ?st params ?v = (Inr (), ?v\<lparr>v_file := Some (Parsed (JObj st'))\<rparr>)"
    "load_state_or_none (?v\<lparr>v_file := Some (Parsed (JObj st'))\<rparr>) = Inr (Some (st', params))"
    "credentials_dict st' = sort_pairs ?creds" "dict_ok st'"
    by blast
  have v': "v' = ?v\<lparr>v_file := Some (Parsed (JObj st'))\<rparr>" using assms(1) eq w(1) by simp
  show ?thesis
    by (rule that[OF n l key _ _ w(3,4)]) (use w(2) v' f in simp_all)
qed

lemma store_read:
  assumes "fernet_ok C" and "vault_ok v" and "vault_store C name value v = (Inr (), v')"
  shows "fst (vault_retrieve C name v') = Inr value
    \<and> (m = name \<or> v_file v = None \<or> fst (vault_retrieve C m v') = fst (vault_retrieve C m v))"
proof -
  obtain st params v1 key st' where s:
    "validate_name name = Inr ()" "load_or_init_state C v = (Inr (st, params), v1)"
    "fst (vault_key C params v) = Inr key"
    "load_state_or_none v' = Inr (Some (st', params))" "v_passphrase v' = v_passphrase v"
    "credentials_dict st'
      = sort_pairs (AList.update name (JStr (encrypt C key (v_draws v1) value)) (credentials_dict st))"
    "dict_ok st'" "v_file v' = Some (Parsed (JObj st'))"
    by (rule store_returns[OF assms(3,2)])
  note l = load_or_init_ok[OF s(2) assms(2)]
  let ?token = "encrypt C key (v_draws v1) value"
  have look: "dget (credentials_dict st') m
      = sort_keys (dget (AList.update name (JStr ?token) (credentials_dict st)) m)" for m
    unfolding s(6) by (rule sort_pairs_dget[OF dict_ok_update[OF l(2)]])
  have dec: "decrypt_value C key (JStr ?token) = Inr value"
    using assms(1) by (simp add: decrypt_value_def fernet_ok_def)
  have key': "fst (vault_key C params v') = fst (vault_key C params v)"
    by (simp add: s(5) vault_key_eq)
  have "fst (vault_retrieve C name v') = Inr value"
    using dec by (simp add: retrieve_loaded[OF s(4)] s(1) key' s(3) look)
  moreover have "fst (vault_retrieve C m v') = fst (vault_retrieve C m v)"
    if "m \<noteq> name" "v_file v \<noteq> None"
  proof -
    have "load_state_or_none v \<noteq> Inr None"
      using that(2)
      by (auto simp: load_state_or_none_def Let_def split: option.splits vault_file.splits
          json.splits if_splits)
    with l(5) have "load_state_or_none v = Inr (Some (st, params))" by blast
    with that(1) show ?thesis by (simp add: retrieve_loaded[OF s(4)] retrieve_loaded key' look)
  qed
  ultimately show ?thesis by blast
qed

text \<open>C35. A stored credential is read back by the same vault, whatever the cryptography, as long as
  decryption inverts encryption; and storing into an existing vault leaves the answer for
  every other name as it was.\<close>

theorem vault_store_retrieve:
  assumes "fernet_ok C" and "vault_ok v" and "vault_store C name value v = (Inr (), v')"
  shows "fst (vault_retrieve C name v') = Inr value
    \<and> (m = name \<or> v_file v = None \<or> fst (vault_retrieve C m v') = fst (vault_retrieve C m v))"
  by (rule store_read[OF assms])

text \<open>A credential that can be read can be revoked, and is then not found.\<close>

lemma revoke_read:
  assumes "vault_ok v" and "v_write_error v = None" and "fst (vault_retrieve C name v) = Inr value"
  shows "\<exists>v'. vault_revoke name v = (Inr True, v')
    \<and> fst (vault_retrieve C name v') = Inl (not_found_error (''no credential named '' @ repr_str name))"
proof -
  have n: "validate_name name = Inr ()"
    using assms(3) by (cases "validate_name name") (simp_all add: vault_retrieve_def bindM_def liftE_eq)
  obtain st params where l: "load_state_or_none v = Inr (Some (st, params))"
    using assms(3) n
    by (cases "load_state_or_none v")
      (auto simp: vault_retrieve_def load_state_required_def load_simps bindM_def liftE_eq
        split: option.splits)
  note ok = loaded_ok[OF l assms(1)]
  have m: "map_of (credentials_dict st) name \<noteq> None"
    using assms(3)
    by (cases "map_of (credentials_dict st) name") (simp_all add: retrieve_loaded[OF l] n dget_def)
  let ?creds = "AList.delete name (credentials_dict st)"
  let ?st = "AList.update ''credentials'' (JObj ?creds) st"
  have "dict_ok ?st" "dget ?st ''credentials'' = JObj ?creds" "dict_ok ?creds"
    using ok(1,2) by (simp add: dict_ok_update, simp, simp add: dict_ok_def distinct_delete)
  from write_state_loaded[OF assms(2) this, of params] obtain st' where
    w: "write_state ?st params v = (Inr (), v\<lparr>v_file := Some (Parsed (JObj st'))\<rparr>)"
    "load_state_or_none (v\<lparr>v_file := Some (Parsed (JObj st'))\<rparr>) = Inr (Some (st', params))"
    "credentials_dict st' = sort_pairs ?creds" by blast
  have "dget (sort_pairs ?creds) name = JNull"
    using sort_pairs_lookup[OF \<open>dict_ok ?creds\<close>, of name] by (simp add: dget_def delete_conv')
  then have "fst (vault_retrieve C name (v\<lparr>v_file := Some (Parsed (JObj st'))\<rparr>))
      = Inl (not_found_error (''no credential named '' @ repr_str name))"
    by (simp add: retrieve_loaded[OF w(2)] n w(3))
  moreover have "vault_revoke name v = (Inr True, v\<lparr>v_file := Some (Parsed (JObj st'))\<rparr>)"
    using m w(1) by (simp add: vault_revoke_def bindM_def liftE_eq n load_simps l)
  ultimately show ?thesis by blast
qed

section \<open>Changing the passphrase\<close>

lemma decrypt_all_lookup:
  assumes "decrypt_all C key creds = Inr ps" and "dict_ok creds"
  shows "map fst ps = map fst creds \<and>
    (\<forall>n t. map_of creds n = Some t \<longrightarrow>
       (\<exists>p. map_of ps n = Some p \<and> decrypt_value C key t = Inr p))"
  using assms
proof (induction creds arbitrary: ps)
  case (Cons kv creds)
  then obtain k t where kv: "kv = (k, t)" by (cases kv)
  from Cons.prems(1) obtain p qs where ps: "ps = (k, p) # qs" "decrypt_value C key t = Inr p"
    "decrypt_all C key creds = Inr qs" by (auto simp: kv bindE_Inr)
  have "dict_ok creds" using Cons.prems(2) by (simp add: dict_ok_def)
  with Cons.IH[OF ps(3)] show ?case by (simp add: kv ps)
qed simp

lemma encrypt_all_eq:
  "\<exists>d f. encrypt_all C key ps v = (Inr d, v_draws_update f v) \<and> map fst d = map fst ps
    \<and> (\<forall>n p. map_of ps n = Some p \<longrightarrow> (\<exists>i. map_of d n = Some (JStr (encrypt C key i p))))"
proof (induction ps arbitrary: v)
  case Nil
  show ?case by (auto intro!: exI[of _ id])
next
  case (Cons kp ps)
  obtain k p where kp: "kp = (k, p)" by (cases kp)
  obtain d f where d: "encrypt_all C key ps (v_draws_update Suc v)
      = (Inr d, v_draws_update f (v_draws_update Suc v))" "map fst d = map fst ps"
    "\<forall>n p. map_of ps n = Some p \<longrightarrow> (\<exists>i. map_of d n = Some (JStr (encrypt C key i p)))"
    using Cons.IH[of "v_draws_update Suc v"] by blast
  have run: "encrypt_all C key (kp # ps) v
      = (Inr ((k, JStr (encrypt C key (v_draws v) p)) # d), v_draws_update (f \<circ> Suc) v)"
    by (simp add: kp bindM_def encrypt_value_def d(1) comp_def)
  show ?case
    by (rule exI, rule exI[of _ "f \<circ> Suc"], intro conjI, rule run)
      (use d(2,3) in \<open>auto simp: kp\<close>)
qed

lemma map_of_None_keys: "map fst d = map fst e \<Longrightarrow> map_of d n = None \<longleftrightarrow> map_of e n = None"
  by (metis list.set_map map_of_eq_None_iff)

text \<open>What \<open>change_passphrase\<close> writes once everything is decrypted.\<close>

lemma change_passphrase_eq:
  assumes "new \<noteq> []" and "load_state_or_none v = Inr (Some (st, params))"
    and "fst (vault_key C params v) = Inr key"
    and "decrypt_all C key (credentials_dict st) = Inr ps"
  obtains d f params' key' where
    "change_passphrase C new v = write_state (AList.update ''credentials'' (JObj d) st) params'
       (v_draws_update f (v_passphrase_update (\<lambda>_. Some new) v))"
    "derive_key C new params' = Inr key'"
    "map fst d = map fst ps"
    "\<forall>n p. map_of ps n = Some p \<longrightarrow> (\<exists>i. map_of d n = Some (JStr (encrypt C key' i p)))"
proof -
  define params' where "params' = \<lparr>kp_salt = urandom C SALT_BYTES (v_draws v),
    kp_iterations = DEFAULT_ITERATIONS\<rparr>"
  define key' where "key' = pbkdf2 C new (kp_salt params') (kp_iterations params')"
  define v1 where "v1 = v_passphrase_update (\<lambda>_. Some new) (v_draws_update Suc v)"
  obtain d f where d: "encrypt_all C key' ps v1 = (Inr d, v_draws_update f v1)"
    "map fst d = map fst ps"
    "\<forall>n p. map_of ps n = Some p \<longrightarrow> (\<exists>i. map_of d n = Some (JStr (encrypt C key' i p)))"
    using encrypt_all_eq[of C key' ps v1] by blast
  have k0: "vault_key C params v = (Inr key, v)" using assms(3) by (simp add: vault_key_eq)
  have derive: "derive_key C new params' = Inr key'"
    using assms(1) by (simp add: derive_key_def key'_def)
  then have k1: "vault_key C params' v1 = (Inr key', v1)" by (simp add: vault_key_eq v1_def)
  have "change_passphrase C new v =
      write_state (AList.update ''credentials'' (JObj d) st) params' (v_draws_update f v1)"
    using assms(1)
    by (simp add: change_passphrase_def load_state_required_def bindM_def load_simps assms(2) k0 k1
        liftE_eq assms(4) generate_salt_def params'_def[symmetric] v1_def[symmetric] d(1))
  also have "v_draws_update f v1 = v_draws_update (f \<circ> Suc) (v_passphrase_update (\<lambda>_. Some new) v)"
    by (simp add: v1_def)
  finally show ?thesis by (rule that) (use derive d(2,3) in simp_all)
qed

lemma change_passphrase_returns:
  assumes "change_passphrase C new v = (Inr (), v')"
  obtains st params key ps where "new \<noteq> []" "load_state_or_none v = Inr (Some (st, params))"
    "fst (vault_key C params v) = Inr key" "decrypt_all C key (credentials_dict st) = Inr ps"
proof -
  have ne: "new \<noteq> []" using assms by (auto simp: change_passphrase_def)
  obtain st params where l: "load_state_or_none v = Inr (Some (st, params))"
    using assms ne
    by (auto simp: change_passphrase_def load_state_required_def bindM_def load_simps
        split: sum.splits option.splits prod.splits)
  obtain key where key: "fst (vault_key C params v) = Inr key"
    using assms ne
    by (cases "fst (vault_key C params v)")
      (simp_all add: change_passphrase_def load_state_required_def bindM_def load_simps l
        vault_key_eq)
  obtain ps where "decrypt_all C key (credentials_dict st) = Inr ps"
    using assms ne key
    by (cases "decrypt_all C key (credentials_dict st)")
      (simp_all add: change_passphrase_def load_state_required_def bindM_def load_simps l
        vault_key_eq liftE_eq)
  with ne l key show ?thesis by (rule that)
qed

text \<open>Changing the passphrase of a vault keeps every credential: the vault, now under the new
  passphrase, answers every name as before.\<close>

theorem change_passphrase_keeps:
  assumes "fernet_ok C" and "vault_ok v" and "change_passphrase C new v = (Inr (), v')"
  shows "fst (vault_retrieve C name v') = fst (vault_retrieve C name v)
    \<and> v_passphrase v' = Some new"
proof -
  obtain st params key ps where ne: "new \<noteq> []" and l: "load_state_or_none v = Inr (Some (st, params))"
    and key: "fst (vault_key C params v) = Inr key"
    and ps: "decrypt_all C key (credentials_dict st) = Inr ps"
    by (rule change_passphrase_returns[OF assms(3)])
  note ok = loaded_ok[OF l assms(2)]
  note dec = decrypt_all_lookup[OF ps ok(2)]
  obtain d f params' key' where
    eq: "change_passphrase C new v = write_state (AList.update ''credentials'' (JObj d) st) params'
       (v_draws_update f (v_passphrase_update (\<lambda>_. Some new) v))"
    and derive: "derive_key C new params' = Inr key'"
    and d: "map fst d = map fst ps"
      "\<forall>n p. map_of ps n = Some p \<longrightarrow> (\<exists>i. map_of d n = Some (JStr (encrypt C key' i p)))"
    by (rule change_passphrase_eq[OF ne l key ps])
  let ?v = "v_draws_update f (v_passphrase_update (\<lambda>_. Some new) v)"
  let ?st = "AList.update ''credentials'' (JObj d) st"
  have we: "v_write_error ?v = None"
    using assms(3) eq by (cases "v_write_error ?v") (simp_all add: write_state_def Let_def bindM_def)
  have "dict_ok ?st" "dget ?st ''credentials'' = JObj d" and dok: "dict_ok d"
    using dec d(1) ok by (simp_all add: dict_ok_update dict_ok_def distinct_update)
  from write_state_loaded[OF we this, of params'] obtain st' where
    w: "write_state ?st params' ?v = (Inr (), ?v\<lparr>v_file := Some (Parsed (JObj st'))\<rparr>)"
    "load_state_or_none (?v\<lparr>v_file := Some (Parsed (JObj st'))\<rparr>) = Inr (Some (st', params'))"
    "credentials_dict st' = sort_pairs d"
    by blast
  have v': "v' = ?v\<lparr>v_file := Some (Parsed (JObj st'))\<rparr>" using assms(3) eq w(1) by simp
  then have load': "load_state_or_none v' = Inr (Some (st', params'))" using w(2) by simp
  have pass: "v_passphrase v' = Some new" by (simp add: v')
  then have k': "fst (vault_key C params' v') = Inr key'" by (simp add: vault_key_eq derive)
  have look: "dget (credentials_dict st') n = sort_keys (dget d n)" for n
    unfolding w(3) by (rule sort_pairs_dget[OF dok])
  have "fst (vault_retrieve C name v') = fst (vault_retrieve C name v)"
  proof (cases "map_of (credentials_dict st) name")
    case None
    then have "map_of d name = None"
      using map_of_None_keys[of d "credentials_dict st" name] d(1) dec by simp
    with None show ?thesis
      by (simp add: retrieve_loaded[OF load'] retrieve_loaded[OF l] look) (simp add: dget_def)
  next
    case (Some t)
    then obtain p where p: "map_of ps name = Some p" "decrypt_value C key t = Inr p"
      using dec by blast
    then obtain i where i: "map_of d name = Some (JStr (encrypt C key' i p))" using d(2) by blast
    have "t \<noteq> JNull" using p(2) by (auto simp: decrypt_value_def)
    moreover have "decrypt_value C key' (JStr (encrypt C key' i p)) = Inr p"
      using assms(1) by (simp add: decrypt_value_def fernet_ok_def)
    moreover have "dget (credentials_dict st) name = t" "dget d name = JStr (encrypt C key' i p)"
      using Some i by (simp_all add: dget_def)
    ultimately show ?thesis
      by (simp add: retrieve_loaded[OF load'] retrieve_loaded[OF l] look k' key p(2))
  qed
  with pass show ?thesis by blast
qed

section \<open>Two ways to lose access\<close>

text \<open>When the write at the end of a change of passphrase fails, the call raises and the file is
  untouched, but the instance has already taken the new passphrase: it can no longer open the
  file it failed to rewrite.\<close>

theorem failed_rotation_keeps_new_passphrase:
  assumes "load_state_or_none v = Inr (Some (st, params))" and "new \<noteq> []"
    and "fst (vault_key C params v) = Inr key"
    and "decrypt_all C key (credentials_dict st) = Inr ps" and "v_write_error v = Some failure"
  shows "\<exists>v'. change_passphrase C new v = (Inl (write_exception (v_path v) failure), v')
    \<and> v_file v' = v_file v \<and> v_passphrase v' = Some new"
proof -
  obtain d f params' key' where
    "change_passphrase C new v = write_state (AList.update ''credentials'' (JObj d) st) params'
       (v_draws_update f (v_passphrase_update (\<lambda>_. Some new) v))"
    by (rule change_passphrase_eq[OF assms(2,1,3,4)])
  then show ?thesis
    by (simp add: write_state_def Let_def bindM_def assms(5))
qed

lemma vault_ok_stored:
  assumes "vault_store C name value v = (Inr (), v')" and "vault_ok v"
  shows "vault_ok v'"
proof -
  obtain st params v1 key st' where s: "load_or_init_state C v = (Inr (st, params), v1)"
    "credentials_dict st'
      = sort_pairs (AList.update name (JStr (encrypt C key (v_draws v1) value)) (credentials_dict st))"
    "dict_ok st'" "v_file v' = Some (Parsed (JObj st'))"
    by (rule store_returns[OF assms])
  from load_or_init_ok(2)[OF s(1) assms(2)] show ?thesis
    by (simp add: vault_ok_def s(2-4) sort_pairs_ok dict_ok_update)
qed

text \<open>C36. Storing never checks the passphrase against the file. After one credential is stored under
  one passphrase and another under a second one, both stores report success, but no
  passphrase of the two can rotate the vault any more.\<close>

theorem wrong_passphrase_store_blocks_rotation:
  assumes "fernet_authentic C" and "vault_ok v" and "v_passphrase v = Some p"
    and "\<forall>salt i. pbkdf2 C p salt i \<noteq> pbkdf2 C q salt i" and "n \<noteq> m"
    and "vault_store C n x v = (Inr (), v1)"
    and "vault_store C m y (v1\<lparr>v_passphrase := Some q\<rparr>) = (Inr (), v2)" and "r \<in> {p, q}"
  shows "\<not> is_return (fst (change_passphrase C new (v2\<lparr>v_passphrase := Some r\<rparr>)))"
proof
  let ?v = "v2\<lparr>v_passphrase := Some r\<rparr>" and ?v1 = "v1\<lparr>v_passphrase := Some q\<rparr>"
  assume "is_return (fst (change_passphrase C new ?v))"
  then obtain v3 where "change_passphrase C new ?v = (Inr (), v3)"
    by (metis is_return_iff old.unit.exhaust prod.collapse)
  then obtain st params key ps where rot: "load_state_or_none ?v = Inr (Some (st, params))"
    "fst (vault_key C params ?v) = Inr key" "decrypt_all C key (credentials_dict st) = Inr ps"
    by (rule change_passphrase_returns)
  obtain sta paramsa va keya sta' where a:
    "fst (vault_key C paramsa v) = Inr keya" "load_state_or_none v1 = Inr (Some (sta', paramsa))"
    "credentials_dict sta'
      = sort_pairs (AList.update n (JStr (encrypt C keya (v_draws va) x)) (credentials_dict sta))"
    "load_or_init_state C v = (Inr (sta, paramsa), va)"
    by (rule store_returns[OF assms(6,2)])
  have ok1: "vault_ok ?v1" using vault_ok_stored[OF assms(6,2)] by (simp add: vault_ok_def)
  obtain stb paramsb vb keyb stb' where b:
    "load_or_init_state C ?v1 = (Inr (stb, paramsb), vb)" "fst (vault_key C paramsb ?v1) = Inr keyb"
    "load_state_or_none v2 = Inr (Some (stb', paramsb))"
    "credentials_dict stb'
      = sort_pairs (AList.update m (JStr (encrypt C keyb (v_draws vb) y)) (credentials_dict stb))"
    by (rule store_returns[OF assms(7) ok1])
  have "load_or_init_state C ?v1 = (Inr (sta', paramsa), ?v1)"
    using a(2) by (simp add: load_or_init_state_def bindM_def load_simps)
  with b(1) have same: "stb = sta'" "paramsb = paramsa" by simp_all
  have st: "st = stb'" "params = paramsa" using rot(1) b(3) same by simp_all
  let ?ta = "JStr (encrypt C keya (v_draws va) x)" and ?tb = "JStr (encrypt C keyb (v_draws vb) y)"
  have oka: "dict_ok (credentials_dict sta)" by (rule load_or_init_ok(2)[OF a(4) assms(2)])
  have okb: "dict_ok (credentials_dict stb)" by (rule load_or_init_ok(2)[OF b(1) ok1])
  have na: "map_of (credentials_dict sta') n = Some ?ta"
    unfolding a(3) by (simp add: sort_pairs_lookup dict_ok_update oka update_conv)
  have "map_of (credentials_dict st) n = Some ?ta" "map_of (credentials_dict st) m = Some ?tb"
    unfolding st b(4) using assms(5)
    by (simp_all add: sort_pairs_lookup dict_ok_update okb[unfolded same(1)] update_conv same(1) na)
  moreover have "dict_ok (credentials_dict st)"
    unfolding st b(4) by (simp add: sort_pairs_ok dict_ok_update okb)
  ultimately obtain x' y' where dec: "decrypt_value C key ?ta = Inr x'" "decrypt_value C key ?tb = Inr y'"
    using decrypt_all_lookup[OF rot(3)] by blast
  have "key = keya" "key = keyb"
    using dec assms(1) by (auto simp: decrypt_value_def fernet_authentic_def split: if_splits option.splits)
      (metis option.distinct(1))+
  moreover have "keya \<noteq> keyb"
    using a(1) b(2) assms(3,4) same(2)
    by (auto simp: vault_key_eq derive_key_def split: if_splits)
  ultimately show False by simp
qed

end
