(* ===== verification/Vanilla_Adapter.thy ===== *)
theory Vanilla_Adapter
  imports Router_Types Session_Store Python_Text
begin

text \<open>
  \<open>harness/adapters/vanilla.py\<close>: how the event log is folded into the message list of a model
  request, how a streamed chunk becomes an event, and which tool definitions an agent gets.
\<close>

record pending_event =
  pe_id :: uuid
  pe_type :: event_type
  pe_payload :: dict

section \<open>Folding the log\<close>

text \<open>The local variables of \<open>build_context\<close>, with its two flush closures.\<close>

record ctx =
  messages :: "message list"
  pending_text :: string
  pending_tool_uses :: "content_block list"
  pending_tool_results :: "content_block list"

definition tool_call_ids :: "event list \<Rightarrow> uuid \<Rightarrow> string option" where
  "tool_call_ids es =
     fold (\<lambda>ev ids.
       if ev_type ev = TOOL_CALL
       then (case dget (ev_payload ev) ''tool_id'' of
               JStr tool_id \<Rightarrow> ids(ev_id ev \<mapsto> tool_id)
             | _ \<Rightarrow> ids)
       else ids) es Map.empty"

definition flush_assistant :: "ctx \<Rightarrow> ctx" where
  "flush_assistant st =
     (if pending_text st = [] \<and> pending_tool_uses st = [] then st
      else let blocks = (if pending_text st \<noteq> [] then [text_block (pending_text st)] else [])
                 @ pending_tool_uses st
           in st\<lparr>messages := messages st @ [msg Assistant (Blocks blocks)],
                 pending_text := [], pending_tool_uses := []\<rparr>)"

definition flush_tool_results :: "ctx \<Rightarrow> ctx" where
  "flush_tool_results st =
     (if pending_tool_results st = [] then st
      else st\<lparr>messages := messages st @ [msg Tool (Blocks (pending_tool_results st))],
              pending_tool_results := []\<rparr>)"

text \<open>A list content is validated as a list of mappings.\<close>

definition tool_result_block :: "string \<Rightarrow> dict \<Rightarrow> py_error + content_block" where
  "tool_result_block tool_use_id payload =
     (let content1 = dget payload ''content'';
          content2 = (if content1 = JNull
                      then (case dget payload ''error'' of JStr e \<Rightarrow> JStr e | _ \<Rightarrow> JStr [])
                      else content1);
          content3 = (case content2 of JStr s \<Rightarrow> JStr s | JList xs \<Rightarrow> JList xs
                      | v \<Rightarrow> JStr (py_str v));
          is_error = (case dget payload ''is_error'' of JNull \<Rightarrow> None | v \<Rightarrow> Some (truthy v))
      in if (case content3 of JList xs \<Rightarrow> list_all (\<lambda>x. as_obj x \<noteq> None) xs | _ \<Rightarrow> True)
         then Inr (result_block tool_use_id content3 is_error)
         else Inl PydanticError)"

definition referenced_call :: "dict \<Rightarrow> uuid option" where
  "referenced_call payload =
     (case dget payload ''tool_call_id'' of JStr s \<Rightarrow> uuid_parse s | _ \<Rightarrow> None)"

definition add_message :: "message \<Rightarrow> ctx \<Rightarrow> ctx" where
  "add_message m st = st\<lparr>messages := messages st @ [m]\<rparr>"

definition push_use :: "content_block \<Rightarrow> ctx \<Rightarrow> ctx" where
  "push_use b st = st\<lparr>pending_tool_uses := pending_tool_uses st @ [b]\<rparr>"

definition push_result :: "content_block \<Rightarrow> ctx \<Rightarrow> ctx" where
  "push_result b st = st\<lparr>pending_tool_results := pending_tool_results st @ [b]\<rparr>"

fun obj_or_empty :: "json \<Rightarrow> dict" where
  "obj_or_empty (JObj d) = d"
| "obj_or_empty _ = []"

definition context_step ::
  "(uuid \<Rightarrow> string option) \<Rightarrow> ctx \<Rightarrow> event_type \<times> dict \<Rightarrow> py_error + ctx" where
  "context_step ids st ev =
     (case ev of (etype, payload) \<Rightarrow>
      if etype = SYSTEM_EVENT \<and> dget payload ''type'' = JStr ''system_prompt'' then
        (let st = flush_tool_results (flush_assistant st) in
         case dget_or payload ''content'' (JStr []) of
           JStr c \<Rightarrow> Inr (if c \<noteq> [] then add_message (msg System (Plain c)) st else st)
         | _ \<Rightarrow> Inr st)
      else if etype = USER_MESSAGE then
        (let st = flush_tool_results (flush_assistant st) in
         case dget_or payload ''content'' (JStr []) of
           JStr c \<Rightarrow> Inr (add_message (msg User (Plain c)) st)
         | _ \<Rightarrow> Inr st)
      else if etype = ASSISTANT_MESSAGE then
        (if \<not> truthy (dget_or payload ''is_complete'' (JBool False)) then Inr st
         else let st = flush_tool_results st in
           case dget_or payload ''content'' (JStr []) of
             JStr text \<Rightarrow> Inr (st\<lparr>pending_text := text\<rparr>)
           | _ \<Rightarrow> Inr st)
      else if etype = TOOL_CALL then
        (case (dget payload ''tool_id'', dget payload ''tool_name'') of
           (JStr tool_id, JStr tool_name) \<Rightarrow>
             (let st = (if pending_tool_results st \<noteq> []
                        then flush_tool_results (flush_assistant st) else st);
                  tool_input = obj_or_empty (dget_or payload ''input'' (JObj []))
              in Inr (push_use (tool_use_block tool_id tool_name tool_input) st))
         | _ \<Rightarrow> Inr st)
      else if etype = TOOL_RESULT then
        (let st = flush_assistant st in
         case Option.bind (referenced_call payload) ids of
           None \<Rightarrow> Inr st
         | Some tool_use_id \<Rightarrow>
             bindE (tool_result_block tool_use_id payload) (\<lambda>block.
               Inr (push_result block st)))
      else Inr st)"

definition empty_context :: ctx where
  "empty_context =
     \<lparr>messages = [], pending_text = [], pending_tool_uses = [], pending_tool_results = []\<rparr>"

definition finish_context :: "ctx \<Rightarrow> message list" where
  "finish_context st = messages (flush_tool_results (flush_assistant st))"

definition vanilla_build_context :: "event list \<Rightarrow> py_error + message list" where
  "vanilla_build_context es =
     bindE (foldE (context_step (tool_call_ids es)) empty_context
             (map (\<lambda>ev. (ev_type ev, ev_payload ev)) es))
       (\<lambda>st. Inr (finish_context st))"

section \<open>Chunks and tools\<close>

text \<open>\<open>new_id\<close> is the \<open>uuid4()\<close> drawn for the event.\<close>

definition vanilla_chunk_to_event ::
  "uuid \<Rightarrow> model_chunk \<Rightarrow> py_error + pending_event option" where
  "vanilla_chunk_to_event new_id chunk =
     (case ck_type chunk of
        Text_Delta \<Rightarrow>
          Inr (Some \<lparr>pe_id = new_id, pe_type = ASSISTANT_MESSAGE,
            pe_payload = [(''content'', dget_or (ck_content chunk) ''text'' (JStr [])),
                          (''is_complete'', JBool False)]\<rparr>)
      | Tool_Call_End \<Rightarrow>
          (case map_of (ck_content chunk) ''tool_id'' of
             None \<Rightarrow> Inl (KeyError ''tool_id'')
           | Some tool_id \<Rightarrow>
               (case map_of (ck_content chunk) ''tool_name'' of
                  None \<Rightarrow> Inl (KeyError ''tool_name'')
                | Some tool_name \<Rightarrow>
                    Inr (Some \<lparr>pe_id = new_id, pe_type = TOOL_CALL,
                      pe_payload = [(''tool_id'', tool_id), (''tool_name'', tool_name),
                        (''input'', dget_or (ck_content chunk) ''input'' (JObj []))]\<rparr>)))
      | Error_Chunk \<Rightarrow>
          Inr (Some \<lparr>pe_id = new_id, pe_type = ERROR_EVENT, pe_payload = ck_content chunk\<rparr>)
      | _ \<Rightarrow> Inr None)"

text \<open>The two registries are dictionaries from tool name to definition.\<close>

fun collect_tools ::
  "(string \<Rightarrow> tool_def option) \<Rightarrow> string list \<Rightarrow> string list \<Rightarrow> tool_def list" where
  "collect_tools look seen [] = []"
| "collect_tools look seen (name # names) =
     (if name \<in> set seen then collect_tools look seen names
      else case look name of
             None \<Rightarrow> collect_tools look (name # seen) names
           | Some tool \<Rightarrow> tool # collect_tools look (name # seen) names)"

definition vanilla_get_tools ::
  "(string \<times> tool_def) list \<Rightarrow> (string \<times> tool_def) list \<Rightarrow> agent \<Rightarrow> tool_def list" where
  "vanilla_get_tools builtin_schemas proxy_schemas ag =
     collect_tools
       (\<lambda>name. case map_of builtin_schemas name of
                 Some tool \<Rightarrow> Some tool
               | None \<Rightarrow> map_of proxy_schemas name)
       [] (ag_tools ag)"

section \<open>Facts about the fold\<close>

lemma flush_simps [simp]:
  "pending_text (flush_assistant st) = []"
  "pending_tool_uses (flush_assistant st) = []"
  "pending_tool_results (flush_assistant st) = pending_tool_results st"
  "pending_text (flush_tool_results st) = pending_text st"
  "pending_tool_uses (flush_tool_results st) = pending_tool_uses st"
  "pending_tool_results (flush_tool_results st) = []"
  by (simp_all add: flush_assistant_def flush_tool_results_def Let_def)

lemma add_message_simps [simp]:
  "messages (add_message m st) = messages st @ [m]"
  "pending_text (add_message m st) = pending_text st"
  "pending_tool_uses (add_message m st) = pending_tool_uses st"
  "pending_tool_results (add_message m st) = pending_tool_results st"
  by (simp_all add: add_message_def)

lemma push_simps [simp]:
  "messages (push_use b st) = messages st"
  "pending_text (push_use b st) = pending_text st"
  "pending_tool_uses (push_use b st) = pending_tool_uses st @ [b]"
  "pending_tool_results (push_use b st) = pending_tool_results st"
  "messages (push_result b st) = messages st"
  "pending_text (push_result b st) = pending_text st"
  "pending_tool_uses (push_result b st) = pending_tool_uses st"
  "pending_tool_results (push_result b st) = pending_tool_results st @ [b]"
  by (simp_all add: push_use_def push_result_def)

section \<open>Every tool result answers an earlier tool use\<close>

fun block_list :: "message_content \<Rightarrow> content_block list" where
  "block_list (Plain _) = []"
| "block_list (Blocks bs) = bs"

definition use_ids :: "content_block list \<Rightarrow> string list" where
  "use_ids bs = List.map_filter (\<lambda>b. if cb_type b = Tool_Use then cb_id b else None) bs"

definition result_ids :: "content_block list \<Rightarrow> string list" where
  "result_ids bs =
     List.map_filter (\<lambda>b. if cb_type b = Tool_Result then cb_tool_use_id b else None) bs"

text \<open>\<open>answered seen ms\<close>: every tool result in \<open>ms\<close> names a tool use of an earlier message or
  of \<open>seen\<close>.\<close>

fun answered :: "string set \<Rightarrow> message list \<Rightarrow> bool" where
  "answered seen [] \<longleftrightarrow> True"
| "answered seen (m # ms) \<longleftrightarrow> set (result_ids (block_list (content m))) \<subseteq> seen
     \<and> answered (seen \<union> set (use_ids (block_list (content m)))) ms"

text \<open>
  What the harness guarantees of a log it wrote: a tool call carries its name with its id, and
  a tool result comes after the call it refers to.
\<close>

definition named_calls :: "event list \<Rightarrow> bool" where
  "named_calls es \<longleftrightarrow> (\<forall>ev \<in> set es. ev_type ev = TOOL_CALL
     \<longrightarrow> as_str (dget (ev_payload ev) ''tool_id'') \<noteq> None
     \<longrightarrow> as_str (dget (ev_payload ev) ''tool_name'') \<noteq> None)"

fun causal :: "event list \<Rightarrow> bool" where
  "causal [] \<longleftrightarrow> True"
| "causal (ev # es) \<longleftrightarrow>
     (ev_type ev = TOOL_RESULT \<longrightarrow>
       (\<forall>later \<in> set es. ev_type later = TOOL_CALL
         \<longrightarrow> referenced_call (ev_payload ev) \<noteq> Some (ev_id later)))
     \<and> causal es"

lemma ids_simps [simp]:
  "use_ids [] = []" "result_ids [] = []"
  "use_ids (bs @ cs) = use_ids bs @ use_ids cs"
  "result_ids (bs @ cs) = result_ids bs @ result_ids cs"
  "use_ids [text_block t] = []" "result_ids [text_block t] = []"
  "use_ids [tool_use_block i n d] = [i]" "result_ids [tool_use_block i n d] = []"
  "use_ids [result_block i c e] = []" "result_ids [result_block i c e] = [i]"
  by (simp_all add: use_ids_def result_ids_def map_filter_def text_block_def
      tool_use_block_def result_block_def)

definition seen_uses :: "message list \<Rightarrow> string set" where
  "seen_uses ms = (\<Union>m \<in> set ms. set (use_ids (block_list (content m))))"

lemma seen_uses_simps [simp]:
  "seen_uses [] = {}"
  "seen_uses (ms @ ns) = seen_uses ms \<union> seen_uses ns"
  "seen_uses [m] = set (use_ids (block_list (content m)))"
  by (auto simp: seen_uses_def)

lemma answered_append:
  "answered seen (ms @ ns) \<longleftrightarrow> answered seen ms \<and> answered (seen \<union> seen_uses ms) ns"
  by (induction ms arbitrary: seen) (auto simp: seen_uses_def Un_assoc)

text \<open>The buffers hold blocks of one kind each, and all buffered results are answered.\<close>

definition ctx_inv :: "ctx \<Rightarrow> bool" where
  "ctx_inv st \<longleftrightarrow> answered {} (messages st)
     \<and> result_ids (pending_tool_uses st) = []
     \<and> set (result_ids (pending_tool_results st)) \<subseteq> seen_uses (messages st)
     \<and> use_ids (pending_tool_results st) = []"

definition ctx_uses :: "ctx \<Rightarrow> string set" where
  "ctx_uses st = seen_uses (messages st) \<union> set (use_ids (pending_tool_uses st))"

lemma flush_assistant_inv:
  assumes "ctx_inv st"
  shows "ctx_inv (flush_assistant st)" and "ctx_uses (flush_assistant st) = ctx_uses st"
    and "seen_uses (messages (flush_assistant st)) = ctx_uses st"
  using assms
  by (auto simp: ctx_inv_def ctx_uses_def flush_assistant_def Let_def answered_append)

lemma flush_tool_results_inv:
  assumes "ctx_inv st"
  shows "ctx_inv (flush_tool_results st)"
    and "ctx_uses (flush_tool_results st) = ctx_uses st"
  using assms
  by (auto simp: ctx_inv_def ctx_uses_def flush_tool_results_def answered_append)

lemma add_plain_inv:
  "ctx_inv st \<Longrightarrow> ctx_inv (add_message (msg r (Plain c)) st)"
  "ctx_uses (add_message (msg r (Plain c)) st) = ctx_uses st"
  by (auto simp: ctx_inv_def ctx_uses_def answered_append)

lemmas context_invs = flush_assistant_inv flush_tool_results_inv add_plain_inv

lemma set_text_inv [simp]:
  "ctx_inv (st\<lparr>pending_text := t\<rparr>) = ctx_inv st"
  "ctx_uses (st\<lparr>pending_text := t\<rparr>) = ctx_uses st"
  by (simp_all add: ctx_inv_def ctx_uses_def)

lemma push_use_inv:
  "ctx_inv st \<Longrightarrow> ctx_inv (push_use (tool_use_block i n d) st)"
  "ctx_uses (push_use (tool_use_block i n d) st)
     = insert i (ctx_uses st)"
  by (auto simp: ctx_inv_def ctx_uses_def)

lemma push_result_inv:
  assumes "ctx_inv st" and "i \<in> seen_uses (messages st)"
    and "tool_result_block i payload = Inr b"
  shows "ctx_inv (push_result b st)"
    and "ctx_uses (push_result b st) = ctx_uses st"
proof -
  obtain c e where "b = result_block i c e"
    using assms(3) by (auto simp: tool_result_block_def Let_def split: if_splits)
  then show "ctx_inv (push_result b st)"
    and "ctx_uses (push_result b st) = ctx_uses st"
    using assms(1,2) by (auto simp: ctx_inv_def ctx_uses_def)
qed

text \<open>One step: the invariant, that no tool use is lost, and that a tool call adds its own.\<close>

lemma context_step_inv:
  assumes "context_step ids st (t, p) = Inr st'" and "ctx_inv st"
    and "\<And>i. t = TOOL_RESULT \<Longrightarrow> Option.bind (referenced_call p) ids = Some i
      \<Longrightarrow> i \<in> ctx_uses st"
  shows "ctx_inv st' \<and> ctx_uses st \<subseteq> ctx_uses st'
    \<and> (t = TOOL_CALL \<longrightarrow> dget p ''tool_id'' = JStr j \<longrightarrow> dget p ''tool_name'' = JStr n
        \<longrightarrow> j \<in> ctx_uses st')"
proof (cases t)
  case TOOL_CALL
  show ?thesis
    using assms(1,2) unfolding TOOL_CALL context_step_def
    by (auto simp: context_invs push_use_inv Let_def split: json.splits if_splits)
next
  case TOOL_RESULT
  show ?thesis
    using assms(1,2) assms(3)[OF TOOL_RESULT] unfolding TOOL_RESULT context_step_def
    by (auto simp: context_invs push_result_inv bindE_Inr Let_def split: option.splits)
next
  case ASSISTANT_MESSAGE
  show ?thesis
    using assms(1,2) unfolding ASSISTANT_MESSAGE context_step_def
    by (auto simp: context_invs Let_def split: json.splits if_splits)
qed (use assms(1,2) in \<open>auto simp: context_step_def context_invs Let_def split: json.splits if_splits\<close>)

lemma tool_call_ids_snoc:
  "tool_call_ids (es @ [ev]) =
     (if ev_type ev = TOOL_CALL
      then (case dget (ev_payload ev) ''tool_id'' of
              JStr tool_id \<Rightarrow> (tool_call_ids es)(ev_id ev \<mapsto> tool_id)
            | _ \<Rightarrow> tool_call_ids es)
      else tool_call_ids es)"
  by (simp add: tool_call_ids_def split: json.split)

lemma tool_call_ids_Some:
  "tool_call_ids es u = Some i \<Longrightarrow>
    \<exists>ev \<in> set es. ev_type ev = TOOL_CALL \<and> ev_id ev = u \<and> dget (ev_payload ev) ''tool_id'' = JStr i"
proof (induction es rule: rev_induct)
  case (snoc ev es)
  consider j where "ev_type ev = TOOL_CALL" "dget (ev_payload ev) ''tool_id'' = JStr j"
      "tool_call_ids (es @ [ev]) = (tool_call_ids es)(ev_id ev \<mapsto> j)"
    | "tool_call_ids (es @ [ev]) = tool_call_ids es"
    unfolding tool_call_ids_snoc
    by (cases "ev_type ev = TOOL_CALL"; cases "dget (ev_payload ev) ''tool_id''") simp_all
  then show ?case
  proof cases
    case 1
    with snoc show ?thesis by (cases "u = ev_id ev") auto
  next
    case 2
    with snoc show ?thesis by auto
  qed
qed (simp add: tool_call_ids_def)

lemma causal_call_before:
  assumes "causal (ps @ ev # qs)" and "ev_type ev = TOOL_RESULT"
    and "referenced_call (ev_payload ev) = Some (ev_id c)" and "ev_type c = TOOL_CALL"
    and "c \<in> set (ps @ ev # qs)"
  shows "c \<in> set ps"
  using assms by (induction ps) auto

lemma context_loop_inv:
  assumes "foldE (context_step (tool_call_ids es)) st
      (map (\<lambda>ev. (ev_type ev, ev_payload ev)) qs) = Inr st'"
    and "es = ps @ qs" and "named_calls es" and "causal es" and "ctx_inv st"
    and "\<forall>c \<in> set ps. \<forall>i. ev_type c = TOOL_CALL \<longrightarrow> dget (ev_payload c) ''tool_id'' = JStr i
      \<longrightarrow> i \<in> ctx_uses st"
  shows "ctx_inv st'"
  using assms
proof (induction qs arbitrary: ps st)
  case (Cons ev qs)
  obtain st1 where step: "context_step (tool_call_ids es) st (ev_type ev, ev_payload ev) = Inr st1"
    and rest: "foldE (context_step (tool_call_ids es)) st1
      (map (\<lambda>ev. (ev_type ev, ev_payload ev)) qs) = Inr st'"
    using Cons.prems(1) by (auto simp: bindE_Inr)
  have answered: "i \<in> ctx_uses st"
    if "ev_type ev = TOOL_RESULT"
      "Option.bind (referenced_call (ev_payload ev)) (tool_call_ids es) = Some i" for i
  proof -
    from that(2) obtain u where u: "referenced_call (ev_payload ev) = Some u"
      "tool_call_ids es u = Some i" by (auto simp: Option.bind_eq_Some_conv)
    from tool_call_ids_Some[OF u(2)] obtain c where c: "c \<in> set es" "ev_type c = TOOL_CALL"
      "ev_id c = u" "dget (ev_payload c) ''tool_id'' = JStr i" by blast
    have "causal (ps @ ev # qs)" "c \<in> set (ps @ ev # qs)" using Cons.prems(2,4) c(1) by simp_all
    from causal_call_before[OF this(1) that(1) _ c(2) this(2)] u(1) c(3) have "c \<in> set ps" by simp
    with c Cons.prems(6) show ?thesis by blast
  qed
  note inv = context_step_inv[OF step Cons.prems(5) answered]
  show ?case
  proof (rule Cons.IH[OF rest])
    show "es = (ps @ [ev]) @ qs" using Cons.prems(2) by simp
    show "\<forall>c \<in> set (ps @ [ev]). \<forall>i. ev_type c = TOOL_CALL
      \<longrightarrow> dget (ev_payload c) ''tool_id'' = JStr i \<longrightarrow> i \<in> ctx_uses st1"
    proof (intro ballI allI impI)
      fix c i assume c: "c \<in> set (ps @ [ev])" "ev_type c = TOOL_CALL"
        "dget (ev_payload c) ''tool_id'' = JStr i"
      show "i \<in> ctx_uses st1"
      proof (cases "c \<in> set ps")
        case True
        with c Cons.prems(6) inv show ?thesis by blast
      next
        case False
        with c(1) have ev: "c = ev" by simp
        from Cons.prems(2,3) c ev obtain n where "dget (ev_payload ev) ''tool_name'' = JStr n"
          by (fastforce simp: named_calls_def)
        with inv[of i n] c ev show ?thesis by simp
      qed
    qed
  qed (use Cons.prems inv in simp_all)
qed simp

lemma results_answered:
  assumes "vanilla_build_context es = Inr ms" and "named_calls es" and "causal es"
  shows "answered {} ms"
proof -
  obtain st where st: "foldE (context_step (tool_call_ids es)) empty_context
      (map (\<lambda>ev. (ev_type ev, ev_payload ev)) es) = Inr st"
    and ms: "ms = finish_context st"
    using assms(1) by (auto simp: vanilla_build_context_def bindE_Inr)
  have "ctx_inv empty_context" by (simp add: ctx_inv_def empty_context_def)
  from context_loop_inv[OF st _ assms(2,3) this, of "[]"] have "ctx_inv st" by simp
  then have "ctx_inv (flush_tool_results (flush_assistant st))" by (simp add: context_invs)
  then show ?thesis by (simp add: ms finish_context_def ctx_inv_def)
qed

lemma causal_filter: "causal es \<Longrightarrow> causal (filter P es)"
  by (induction es) auto

text \<open>In the message list built from a log the harness wrote (calls carry their names,
  results come after their calls), or from any part of it that compaction keeps, every
  tool result block answers a tool use block of an earlier message: no orphan reaches the
  provider.\<close>

theorem results_answer_uses:
  assumes "vanilla_build_context (filter P es) = Inr ms" and "named_calls es" and "causal es"
  shows "answered {} ms"
proof -
  have "named_calls (filter P es)" using assms(2) by (simp add: named_calls_def)
  from results_answered[OF assms(1) this causal_filter[OF assms(3)]] show ?thesis .
qed

end
