(* ===== verification/Tool_Schemas.thy ===== *)
theory Tool_Schemas
  imports Router_Types
begin

text \<open>
  The tool definitions the two adapters hand to the model: the sandbox tools of
  \<open>sandbox/schemas.py\<close> and the Deep Agents tools of \<open>harness/adapters/deep_agents.py\<close>. The
  dash of one description lies outside the characters of the model and is written \<open>--\<close>.
\<close>

section \<open>Sandbox tools\<close>

definition BASH_SCHEMA :: dict where
  "BASH_SCHEMA =
     [(''type'', JStr ''object''),
      (''properties'',
        JObj [(''command'',
                JObj [(''type'', JStr ''string''),
                      (''description'', JStr ''Shell command to run via `bash -lc`.'')])]),
      (''required'', JList [JStr ''command''])]"

definition PYTHON_SCHEMA :: dict where
  "PYTHON_SCHEMA =
     [(''type'', JStr ''object''),
      (''properties'',
        JObj [(''code'',
                JObj [(''type'', JStr ''string''),
                      (''description'', JStr
                        (''Python source to execute. Runs as a script in the sandbox with stdout/stderr '' @
                         ''captured.''))])]),
      (''required'', JList [JStr ''code''])]"

definition FILE_READ_SCHEMA :: dict where
  "FILE_READ_SCHEMA =
     [(''type'', JStr ''object''),
      (''properties'',
        JObj [(''path'',
                JObj [(''type'', JStr ''string''),
                      (''description'', JStr
                        ''Absolute path to read inside the sandbox filesystem.'')])]),
      (''required'', JList [JStr ''path''])]"

definition FILE_WRITE_SCHEMA :: dict where
  "FILE_WRITE_SCHEMA =
     [(''type'', JStr ''object''),
      (''properties'',
        JObj [(''path'',
                JObj [(''type'', JStr ''string''),
                      (''description'', JStr ''Absolute path to write.'')]),
              (''content'',
                JObj [(''type'', JStr ''string''),
                      (''description'', JStr ''File content.'')])]),
      (''required'', JList [JStr ''path'', JStr ''content''])]"

definition FILE_EDIT_SCHEMA :: dict where
  "FILE_EDIT_SCHEMA =
     [(''type'', JStr ''object''),
      (''properties'',
        JObj [(''path'', JObj [(''type'', JStr ''string'')]),
              (''old_str'', JObj [(''type'', JStr ''string'')]),
              (''new_str'', JObj [(''type'', JStr ''string'')]),
              (''replace_all'',
                JObj [(''type'', JStr ''boolean''),
                      (''description'', JStr
                        ''Replace every match instead of erroring on ambiguous matches.'')])]),
      (''required'', JList [JStr ''path'', JStr ''old_str'', JStr ''new_str''])]"

definition FILE_LIST_SCHEMA :: dict where
  "FILE_LIST_SCHEMA =
     [(''type'', JStr ''object''),
      (''properties'',
        JObj [(''path'',
                JObj [(''type'', JStr ''string''),
                      (''description'', JStr
                        ''Directory to list (defaults to /workspace).'')])]),
      (''required'', JList [])]"

definition BUILTIN_TOOL_SCHEMAS :: "(string \<times> tool_def) list" where
  "BUILTIN_TOOL_SCHEMAS =
     [(''bash'',
        \<lparr>td_name = ''bash'',
         td_description =
           (''Execute a shell command inside the sandbox. Returns stdout, stderr, and exit '' @
            ''code.''),
         td_input_schema = BASH_SCHEMA\<rparr>),
      (''python'',
        \<lparr>td_name = ''python'',
         td_description =
           (''Execute Python code inside the sandbox. Returns stdout, stderr, and the exit '' @
            ''status. Use for calculations, data manipulation, and running scripts.''),
         td_input_schema = PYTHON_SCHEMA\<rparr>),
      (''file_read'',
        \<lparr>td_name = ''file_read'',
         td_description =
           ''Read a file from the sandbox filesystem by absolute path.'',
         td_input_schema = FILE_READ_SCHEMA\<rparr>),
      (''file_write'',
        \<lparr>td_name = ''file_write'',
         td_description =
           ''Create or overwrite a file in the sandbox at an absolute path.'',
         td_input_schema = FILE_WRITE_SCHEMA\<rparr>),
      (''file_edit'',
        \<lparr>td_name = ''file_edit'',
         td_description =
           (''Apply a string-replacement edit to an existing sandbox file. Errors on '' @
            ''ambiguous matches unless `replace_all` is true.''),
         td_input_schema = FILE_EDIT_SCHEMA\<rparr>),
      (''file_list'',
        \<lparr>td_name = ''file_list'',
         td_description =
           ''List files in a sandbox directory. Defaults to /workspace.'',
         td_input_schema = FILE_LIST_SCHEMA\<rparr>)]"

definition BUILTIN_TOOL_NAMES :: "string list" where
  "BUILTIN_TOOL_NAMES =
     [''bash'', ''python'', ''file_read'', ''file_write'', ''file_edit'', ''file_list'']"

section \<open>Deep Agents tools\<close>

definition WRITE_TODOS_SCHEMA :: dict where
  "WRITE_TODOS_SCHEMA =
     [(''type'', JStr ''object''),
      (''properties'',
        JObj [(''todos'',
                JObj [(''type'', JStr ''array''),
                      (''description'', JStr
                        (''The updated full todo list. Replace the prior list each time -- the Deep '' @
                         ''Agents planning middleware stores the latest value.'')),
                      (''items'',
                        JObj [(''type'', JStr ''object''),
                              (''properties'',
                                JObj [(''content'',
                                        JObj [(''type'', JStr ''string''),
                                              (''description'', JStr
                                                ''What the todo accomplishes.'')]),
                                      (''status'',
                                        JObj [(''type'', JStr ''string''),
                                              (''enum'',
                                                JList [JStr ''pending'',
                                                       JStr ''in_progress'',
                                                       JStr ''completed''])])]),
                              (''required'', JList [JStr ''content'', JStr ''status''])])])]),
      (''required'', JList [JStr ''todos''])]"

definition LS_SCHEMA :: dict where
  "LS_SCHEMA =
     [(''type'', JStr ''object''),
      (''properties'', JObj []),
      (''additionalProperties'', JBool False)]"

definition READ_FILE_SCHEMA :: dict where
  "READ_FILE_SCHEMA =
     [(''type'', JStr ''object''),
      (''properties'',
        JObj [(''file_path'',
                JObj [(''type'', JStr ''string''),
                      (''description'', JStr
                        (''Path to read inside the agent'' @ [CHR 0x27] @ ''s virtual filesystem.''))]),
              (''offset'',
                JObj [(''type'', JStr ''integer''),
                      (''description'', JStr
                        ''Optional 0-based line offset to start reading from.''),
                      (''minimum'', JInt 0)]),
              (''limit'',
                JObj [(''type'', JStr ''integer''),
                      (''description'', JStr
                        ''Optional line count cap; omit to read the whole file.''),
                      (''minimum'', JInt 1)])]),
      (''required'', JList [JStr ''file_path''])]"

definition WRITE_FILE_SCHEMA :: dict where
  "WRITE_FILE_SCHEMA =
     [(''type'', JStr ''object''),
      (''properties'',
        JObj [(''file_path'', JObj [(''type'', JStr ''string'')]),
              (''content'', JObj [(''type'', JStr ''string'')])]),
      (''required'', JList [JStr ''file_path'', JStr ''content''])]"

definition EDIT_FILE_SCHEMA :: dict where
  "EDIT_FILE_SCHEMA =
     [(''type'', JStr ''object''),
      (''properties'',
        JObj [(''file_path'', JObj [(''type'', JStr ''string'')]),
              (''old_string'', JObj [(''type'', JStr ''string'')]),
              (''new_string'', JObj [(''type'', JStr ''string'')]),
              (''replace_all'',
                JObj [(''type'', JStr ''boolean''),
                      (''description'', JStr
                        ''Replace every match instead of erroring on ambiguous matches.'')])]),
      (''required'', JList [JStr ''file_path'', JStr ''old_string'', JStr ''new_string''])]"

definition TASK_SCHEMA :: dict where
  "TASK_SCHEMA =
     [(''type'', JStr ''object''),
      (''properties'',
        JObj [(''description'',
                JObj [(''type'', JStr ''string''),
                      (''description'', JStr ''What the subagent should accomplish.'')]),
              (''subagent_type'',
                JObj [(''type'', JStr ''string''),
                      (''description'', JStr
                        (''Which registered subagent to spawn. Use '' @ [CHR 0x27] @ ''general-purpose'' @ [CHR 0x27] @ '' for the Deep Agents '' @
                         ''default research subagent.''))])]),
      (''required'', JList [JStr ''description'', JStr ''subagent_type''])]"

definition BUILTIN_TOOLS :: "(string \<times> tool_def) list" where
  "BUILTIN_TOOLS =
     [(''write_todos'',
        \<lparr>td_name = ''write_todos'',
         td_description =
           (''Write or update the agent'' @ [CHR 0x27] @ ''s todo list. Use for any multi-step task: plan '' @
            ''first, then execute. Replaces the full list each call.''),
         td_input_schema = WRITE_TODOS_SCHEMA\<rparr>),
      (''ls'',
        \<lparr>td_name = ''ls'',
         td_description =
           ''List every path currently present in the virtual filesystem.'',
         td_input_schema = LS_SCHEMA\<rparr>),
      (''read_file'',
        \<lparr>td_name = ''read_file'',
         td_description =
           ''Read a file from the virtual filesystem.'',
         td_input_schema = READ_FILE_SCHEMA\<rparr>),
      (''write_file'',
        \<lparr>td_name = ''write_file'',
         td_description =
           ''Create or overwrite a file in the virtual filesystem.'',
         td_input_schema = WRITE_FILE_SCHEMA\<rparr>),
      (''edit_file'',
        \<lparr>td_name = ''edit_file'',
         td_description =
           (''Apply a string-replacement edit to an existing file. Errors on ambiguous '' @
            ''matches unless `replace_all` is true.''),
         td_input_schema = EDIT_FILE_SCHEMA\<rparr>),
      (''task'',
        \<lparr>td_name = ''task'',
         td_description =
           (''Spawn a subagent to handle an isolated task. Use when the subtask has its own '' @
            ''context needs or produces output you don'' @ [CHR 0x27] @ ''t want in the main agent'' @ [CHR 0x27] @ ''s context.''),
         td_input_schema = TASK_SCHEMA\<rparr>)]"

section \<open>The tables agree with the names\<close>

lemma schema_names: "map (td_name \<circ> snd) BUILTIN_TOOL_SCHEMAS = map fst BUILTIN_TOOL_SCHEMAS"
  "map fst BUILTIN_TOOL_SCHEMAS = BUILTIN_TOOL_NAMES"
  by (simp_all add: BUILTIN_TOOL_SCHEMAS_def BUILTIN_TOOL_NAMES_def)

lemma deep_agents_names: "map (td_name \<circ> snd) BUILTIN_TOOLS = map fst BUILTIN_TOOLS"
  by (simp add: BUILTIN_TOOLS_def)

end
