(* ===== verification/Adapters.thy ===== *)
theory Adapters
  imports Vanilla_Adapter Tool_Schemas
begin

text \<open>
  \<open>harness/adapters/deep_agents.py\<close>, written against the same wire format as the vanilla
  adapter, and the adapter registry of \<open>harness/adapters/base.py\<close>; the two translations of
  the log agree on every log.
\<close>

section \<open>Deep Agents\<close>

definition da_flush_assistant ::
  "message list \<Rightarrow> string \<Rightarrow> content_block list \<Rightarrow> message list" where
  "da_flush_assistant ms text uses =
     (if text = [] \<and> uses = [] then ms
      else if text = [] then ms @ [msg Assistant (Blocks uses)]
      else ms @ [msg Assistant (Blocks (text_block text # uses))])"

definition da_flush_tool_results :: "message list \<Rightarrow> content_block list \<Rightarrow> message list" where
  "da_flush_tool_results ms results =
     (if results = [] then ms else ms @ [msg Tool (Blocks results)])"

definition da_tool_result_block :: "string \<Rightarrow> dict \<Rightarrow> py_error + content_block" where
  "da_tool_result_block tool_use_id payload =
     (let content = (case dget payload ''content'' of
                       JNull \<Rightarrow> JStr (case dget payload ''error'' of JStr e \<Rightarrow> e | _ \<Rightarrow> [])
                     | JStr s \<Rightarrow> JStr s
                     | JList xs \<Rightarrow> JList xs
                     | v \<Rightarrow> JStr (py_str v));
          is_error = dget payload ''is_error'';
          block = result_block tool_use_id content
                    (if is_error \<noteq> JNull then Some (truthy is_error) else None)
      in case content of
           JList xs \<Rightarrow> if (\<exists>x \<in> set xs. as_obj x = None) then Inl PydanticError else Inr block
         | _ \<Rightarrow> Inr block)"

text \<open>The loop over the events, its four local variables as arguments.\<close>

fun da_loop ::
  "(uuid \<Rightarrow> string option) \<Rightarrow> event list \<Rightarrow> message list \<Rightarrow> string \<Rightarrow> content_block list
    \<Rightarrow> content_block list \<Rightarrow> py_error + message list" where
  "da_loop ids [] ms text uses results =
     Inr (da_flush_tool_results (da_flush_assistant ms text uses) results)"
| "da_loop ids (ev # evs) ms text uses results =
     (let payload = ev_payload ev in
      case ev_type ev of
        SYSTEM_EVENT \<Rightarrow>
          if dget payload ''type'' = JStr ''system_prompt'' then
            let ms = da_flush_tool_results (da_flush_assistant ms text uses) results in
            case dget_or payload ''content'' (JStr []) of
              JStr c \<Rightarrow> if c = [] then da_loop ids evs ms [] [] []
                        else da_loop ids evs (ms @ [msg System (Plain c)]) [] [] []
            | _ \<Rightarrow> da_loop ids evs ms [] [] []
          else da_loop ids evs ms text uses results
      | USER_MESSAGE \<Rightarrow>
          let ms = da_flush_tool_results (da_flush_assistant ms text uses) results in
          (case dget_or payload ''content'' (JStr []) of
             JStr c \<Rightarrow> da_loop ids evs (ms @ [msg User (Plain c)]) [] [] []
           | _ \<Rightarrow> da_loop ids evs ms [] [] [])
      | ASSISTANT_MESSAGE \<Rightarrow>
          if truthy (dget_or payload ''is_complete'' (JBool False)) then
            let ms = da_flush_tool_results ms results in
            case dget_or payload ''content'' (JStr []) of
              JStr t \<Rightarrow> da_loop ids evs ms t uses []
            | _ \<Rightarrow> da_loop ids evs ms text uses []
          else da_loop ids evs ms text uses results
      | TOOL_CALL \<Rightarrow>
          (case (dget payload ''tool_id'', dget payload ''tool_name'') of
             (JStr tool_id, JStr tool_name) \<Rightarrow>
               let use = tool_use_block tool_id tool_name
                     (obj_or_empty (dget_or payload ''input'' (JObj [])))
               in if results \<noteq> []
                  then da_loop ids evs
                    (da_flush_tool_results (da_flush_assistant ms text uses) results)
                    [] [use] []
                  else da_loop ids evs ms text (uses @ [use]) []
           | _ \<Rightarrow> da_loop ids evs ms text uses results)
      | TOOL_RESULT \<Rightarrow>
          let ms = da_flush_assistant ms text uses in
          (case Option.bind (referenced_call payload) ids of
             None \<Rightarrow> da_loop ids evs ms [] [] results
           | Some tool_use_id \<Rightarrow>
               bindE (da_tool_result_block tool_use_id payload) (\<lambda>block.
                 da_loop ids evs ms [] [] (results @ [block])))
      | _ \<Rightarrow> da_loop ids evs ms text uses results)"

definition deep_agents_build_context :: "event list \<Rightarrow> py_error + message list" where
  "deep_agents_build_context es = da_loop (tool_call_ids es) es [] [] [] []"

definition deep_agents_chunk_to_event ::
  "uuid \<Rightarrow> model_chunk \<Rightarrow> py_error + pending_event option" where
  "deep_agents_chunk_to_event new_id chunk =
     (let c = ck_content chunk in
      if ck_type chunk = Text_Delta then
        Inr (Some \<lparr>pe_id = new_id, pe_type = ASSISTANT_MESSAGE,
          pe_payload = [(''content'', dget_or c ''text'' (JStr [])), (''is_complete'', JBool False)]\<rparr>)
      else if ck_type chunk = Tool_Call_End then
        (if map_of c ''tool_id'' = None then Inl (KeyError ''tool_id'')
         else if map_of c ''tool_name'' = None then Inl (KeyError ''tool_name'')
         else Inr (Some \<lparr>pe_id = new_id, pe_type = TOOL_CALL,
           pe_payload = [(''tool_id'', dget c ''tool_id''), (''tool_name'', dget c ''tool_name''),
             (''input'', dget_or c ''input'' (JObj []))]\<rparr>))
      else if ck_type chunk = Error_Chunk then
        Inr (Some \<lparr>pe_id = new_id, pe_type = ERROR_EVENT, pe_payload = c\<rparr>)
      else Inr None)"

definition deep_agents_get_tools :: "agent \<Rightarrow> tool_def list" where
  "deep_agents_get_tools ag = collect_tools (map_of BUILTIN_TOOLS) [] (ag_tools ag)"

section \<open>The registry\<close>

text \<open>\<open>_ADAPTERS\<close>: a dictionary from name to class; \<open>name\<close> is the class attribute.\<close>

datatype adapter_error = AlreadyRegistered string | UnknownAdapterError string

definition register_adapter ::
  "('c \<Rightarrow> string) \<Rightarrow> 'c \<Rightarrow> (string \<times> 'c) list \<Rightarrow> adapter_error + (string \<times> 'c) list" where
  "register_adapter name cls reg =
     (case map_of reg (name cls) of
        Some existing \<Rightarrow>
          if existing = cls then Inr reg else Inl (AlreadyRegistered (name cls))
      | None \<Rightarrow> Inr (AList.update (name cls) cls reg))"

definition get_adapter :: "string \<Rightarrow> (string \<times> 'c) list \<Rightarrow> adapter_error + 'c" where
  "get_adapter n reg =
     (case map_of reg n of Some cls \<Rightarrow> Inr cls | None \<Rightarrow> Inl (UnknownAdapterError n))"

definition known_adapters :: "(string \<times> 'c) list \<Rightarrow> string list" where
  "known_adapters reg = sort (map fst reg)"

text \<open>The two classes the package registers when it is imported.\<close>

datatype framework = Vanilla | Deep_Agents

fun framework_name :: "framework \<Rightarrow> string" where
  "framework_name Vanilla = ''vanilla''"
| "framework_name Deep_Agents = ''deep_agents''"

fun build_context :: "framework \<Rightarrow> event list \<Rightarrow> py_error + message list" where
  "build_context Vanilla = vanilla_build_context"
| "build_context Deep_Agents = deep_agents_build_context"

fun chunk_to_event :: "framework \<Rightarrow> uuid \<Rightarrow> model_chunk \<Rightarrow> py_error + pending_event option" where
  "chunk_to_event Vanilla = vanilla_chunk_to_event"
| "chunk_to_event Deep_Agents = deep_agents_chunk_to_event"

fun get_tools :: "framework \<Rightarrow> (string \<times> tool_def) list \<Rightarrow> agent \<Rightarrow> tool_def list" where
  "get_tools Vanilla proxy_schemas ag = vanilla_get_tools BUILTIN_TOOL_SCHEMAS proxy_schemas ag"
| "get_tools Deep_Agents proxy_schemas ag = deep_agents_get_tools ag"

section \<open>The two adapters agree\<close>

lemma da_tool_result_block_eq: "da_tool_result_block i p = tool_result_block i p"
proof -
  have "(case dget p ''is_error'' of JNull \<Rightarrow> None | v \<Rightarrow> Some (truthy v))
    = (if dget p ''is_error'' \<noteq> JNull then Some (truthy (dget p ''is_error'')) else None)"
    by (cases "dget p ''is_error''") simp_all
  moreover have "(case dget p ''error'' of JStr e \<Rightarrow> JStr e | _ \<Rightarrow> JStr [])
    = JStr (case dget p ''error'' of JStr e \<Rightarrow> e | _ \<Rightarrow> [])"
    by (cases "dget p ''error''") simp_all
  moreover have "as_obj x = None \<longleftrightarrow> (\<forall>d. x \<noteq> JObj d)" for x by (cases x) simp_all
  ultimately show ?thesis
    by (cases "dget p ''content''")
      (auto simp: da_tool_result_block_def tool_result_block_def Let_def list_all_iff)
qed

definition ctx_of :: "message list \<Rightarrow> string \<Rightarrow> content_block list \<Rightarrow> content_block list \<Rightarrow> ctx" where
  "ctx_of ms text uses results =
     \<lparr>messages = ms, pending_text = text, pending_tool_uses = uses,
      pending_tool_results = results\<rparr>"

lemma ctx_of_flush:
  "flush_assistant (ctx_of ms text uses results) =
     ctx_of (da_flush_assistant ms text uses) [] [] results"
  "flush_tool_results (ctx_of ms text uses results) =
     ctx_of (da_flush_tool_results ms results) text uses []"
  by (auto simp: ctx_of_def flush_assistant_def flush_tool_results_def da_flush_assistant_def
      da_flush_tool_results_def Let_def)

lemma ctx_of_update:
  "add_message m (ctx_of ms text uses results) = ctx_of (ms @ [m]) text uses results"
  "push_use b (ctx_of ms text uses results) = ctx_of ms text (uses @ [b]) results"
  "push_result b (ctx_of ms text uses results) = ctx_of ms text uses (results @ [b])"
  "ctx_of ms text uses results \<lparr>pending_text := t\<rparr> = ctx_of ms t uses results"
  "pending_tool_results (ctx_of ms text uses results) = results"
  by (simp_all add: ctx_of_def add_message_def push_use_def push_result_def)

lemmas ctx_of_simps = ctx_of_flush ctx_of_update

lemma da_loop_context:
  "da_loop ids evs ms text uses results =
     bindE (foldE (context_step ids) (ctx_of ms text uses results)
             (map (\<lambda>ev. (ev_type ev, ev_payload ev)) evs))
       (\<lambda>st. Inr (finish_context st))"
proof (induction evs arbitrary: ms "text" uses results)
  case Nil
  then show ?case by (simp add: finish_context_def ctx_of_flush) (simp add: ctx_of_def)
next
  case (Cons ev evs)
  show ?case
  proof (cases "ev_type ev")
    case TOOL_CALL
    then show ?thesis
      by (cases "dget (ev_payload ev) ''tool_id''"; cases "dget (ev_payload ev) ''tool_name''")
        (simp_all add: Cons.IH context_step_def ctx_of_simps Let_def)
  next
    case TOOL_RESULT
    then show ?thesis
      by (cases "Option.bind (referenced_call (ev_payload ev)) ids")
        (auto simp: Cons.IH context_step_def ctx_of_simps Let_def da_tool_result_block_eq bindE_def
          split: sum.split)
  next
    case ASSISTANT_MESSAGE
    then show ?thesis
      by (cases "dget_or (ev_payload ev) ''content'' (JStr [])")
        (simp_all add: Cons.IH context_step_def ctx_of_simps Let_def)
  next
    case USER_MESSAGE
    then show ?thesis
      by (cases "dget_or (ev_payload ev) ''content'' (JStr [])")
        (simp_all add: Cons.IH context_step_def ctx_of_simps Let_def)
  next
    case SYSTEM_EVENT
    then show ?thesis
      by (cases "dget_or (ev_payload ev) ''content'' (JStr [])")
        (simp_all add: Cons.IH context_step_def ctx_of_simps Let_def)
  qed (simp_all add: Cons.IH context_step_def)
qed

lemma contexts_agree: "deep_agents_build_context es = vanilla_build_context es"
proof -
  have "ctx_of [] [] [] [] = empty_context" by (simp add: ctx_of_def empty_context_def)
  then show ?thesis
    by (simp add: deep_agents_build_context_def vanilla_build_context_def da_loop_context)
qed

lemma chunks_agree: "deep_agents_chunk_to_event new_id chunk = vanilla_chunk_to_event new_id chunk"
  by (cases "ck_type chunk")
    (auto simp: deep_agents_chunk_to_event_def vanilla_chunk_to_event_def dget_def split: option.split)

text \<open>C27. The Deep Agents adapter and the vanilla adapter translate every event log into the
  same messages, and every chunk into the same event, as the source says they must.\<close>

theorem adapters_agree:
  "deep_agents_build_context es = vanilla_build_context es
    \<and> deep_agents_chunk_to_event new_id chunk = vanilla_chunk_to_event new_id chunk"
  by (simp add: contexts_agree chunks_agree)

lemma framework_simps [simp]:
  "build_context fw = vanilla_build_context" "chunk_to_event fw = vanilla_chunk_to_event"
  by (cases fw; simp add: fun_eq_iff contexts_agree chunks_agree)+

section \<open>Tools\<close>

lemma collect_tools_names:
  assumes "\<And>n t. look n = Some t \<Longrightarrow> td_name t = n"
  shows "map td_name (collect_tools look seen names)
    = filter (\<lambda>n. look n \<noteq> None) (rev (remdups (rev (filter (\<lambda>n. n \<notin> set seen) names))))"
proof (induction names arbitrary: seen)
  case (Cons n names)
  show ?case
  proof (cases "n \<in> set seen")
    case False
    have *: "filter (\<lambda>m. m \<notin> set (n # seen)) names = filter (\<lambda>m. m \<noteq> n) (filter (\<lambda>m. m \<notin> set seen) names)"
      by (simp add: conj_commute)
    have **: "(m \<noteq> n \<and> m \<notin> set seen) = (m \<notin> set seen \<and> m \<noteq> n)" for m by blast
    have "rev (remdups (rev (n # xs))) = n # rev (remdups (rev (filter (\<lambda>m. m \<noteq> n) xs)))" for xs
      by (induction xs rule: rev_induct) (auto simp: remdups_filter rev_filter)
    with False show ?thesis
      using Cons.IH[of "n # seen"] assms by (auto simp: * ** split: option.split)
  qed (simp add: Cons.IH)
qed simp

end
