(* ===== verification/Registry.thy ===== *)
theory Registry
  imports Tename_Prelude
begin

text \<open>
  The interface shared by the two process-wide registries of the program, framework adapters
  and proxy tools: entries register themselves at import time under a name, in whatever
  order the modules happen to be imported.
\<close>

lemma pairwise_insert:
  "(\<forall>x \<in> insert c S. P x) \<and> (\<forall>x \<in> insert c S. \<forall>y \<in> insert c S. k x = k y \<longrightarrow> t x = t y)
    \<longleftrightarrow> P c \<and> (\<forall>y \<in> S. P y \<and> (k c = k y \<longrightarrow> t c = t y))
      \<and> (\<forall>x \<in> S. \<forall>y \<in> S. k x = k y \<longrightarrow> t x = t y)"
  (is "?A \<longleftrightarrow> ?B")
proof
  assume ?B
  then have "\<forall>x \<in> insert c S. \<forall>y \<in> insert c S. k x = k y \<longrightarrow> t x = t y" by (metis insertE)
  with \<open>?B\<close> show ?A by blast
qed blast

locale name_registry =
  fixes register :: "'c \<Rightarrow> 'r \<Rightarrow> 'e + 'r"
    and bound :: "'r \<Rightarrow> string \<Rightarrow> 'i option"
    and key :: "'c \<Rightarrow> string"
    and tag :: "'c \<Rightarrow> 'i"
  assumes registered: "register c r = Inr r' \<Longrightarrow> bound r' = (bound r)(key c \<mapsto> tag c)"
    and accepts: "is_return (register c r) \<longleftrightarrow> bound r (key c) \<in> {None, Some (tag c)}"
begin

text \<open>Registering a list of entries one after the other.\<close>

definition register_all :: "'c list \<Rightarrow> 'r \<Rightarrow> 'e + 'r" where
  "register_all cs r = foldE (\<lambda>r c. register c r) r cs"

definition no_clash :: "(string \<Rightarrow> 'i option) \<Rightarrow> 'c list \<Rightarrow> bool" where
  "no_clash b cs \<longleftrightarrow> (\<forall>c \<in> set cs. b (key c) \<in> {None, Some (tag c)})
     \<and> (\<forall>c \<in> set cs. \<forall>d \<in> set cs. key c = key d \<longrightarrow> tag c = tag d)"

lemma accepted_kept:
  assumes "register c r = Inr r'" and "bound r n = Some i"
  shows "bound r' n = Some i"
proof -
  have "bound r (key c) \<in> {None, Some (tag c)}" using accepts[of c r] assms(1) by simp
  with registered[OF assms(1)] assms(2) show ?thesis by auto
qed

lemma register_all_kept:
  "register_all cs r = Inr r' \<Longrightarrow> bound r n = Some i \<Longrightarrow> bound r' n = Some i"
  unfolding register_all_def by (erule foldE_invariant) (auto intro: accepted_kept)

lemma register_all_bound:
  assumes "register_all cs r = Inr r'"
  shows "bound r' n = (case bound r n of Some i \<Rightarrow> Some i
    | None \<Rightarrow> map_option tag (find (\<lambda>c. key c = n) cs))"
  using assms unfolding register_all_def
proof (induction cs arbitrary: r)
  case (Cons c cs)
  then obtain r1 where r1: "register c r = Inr r1" "foldE (\<lambda>r c. register c r) r1 cs = Inr r'"
    by (auto simp: bindE_Inr)
  have "bound r (key c) \<in> {None, Some (tag c)}" using accepts[of c r] r1(1) by simp
  with Cons.IH[OF r1(2)] registered[OF r1(1)] show ?case by (auto split: option.splits)
qed (simp split: option.split)

lemma no_clash_Cons:
  "no_clash b (c # cs) \<longleftrightarrow>
     b (key c) \<in> {None, Some (tag c)} \<and> no_clash (b(key c \<mapsto> tag c)) cs"
proof (cases "b (key c) \<in> {None, Some (tag c)}")
  case True
  have "(b(key c \<mapsto> tag c)) (key d) \<in> {None, Some (tag d)}
      \<longleftrightarrow> b (key d) \<in> {None, Some (tag d)} \<and> (key c = key d \<longrightarrow> tag c = tag d)" for d
    using True by (cases "key d = key c") auto
  then have "no_clash (b(key c \<mapsto> tag c)) cs \<longleftrightarrow>
      (\<forall>d \<in> set cs. b (key d) \<in> {None, Some (tag d)} \<and> (key c = key d \<longrightarrow> tag c = tag d))
      \<and> (\<forall>c \<in> set cs. \<forall>d \<in> set cs. key c = key d \<longrightarrow> tag c = tag d)"
    by (simp only: no_clash_def)
  moreover have "no_clash b (c # cs) \<longleftrightarrow>
      (\<forall>d \<in> set cs. b (key d) \<in> {None, Some (tag d)} \<and> (key c = key d \<longrightarrow> tag c = tag d))
      \<and> (\<forall>c \<in> set cs. \<forall>d \<in> set cs. key c = key d \<longrightarrow> tag c = tag d)"
    unfolding no_clash_def list.set
    by (subst pairwise_insert) (use True in blast)
  ultimately show ?thesis using True by (simp only: simp_thms)
next
  case False
  moreover have "no_clash b (c # cs) \<Longrightarrow> b (key c) \<in> {None, Some (tag c)}"
    unfolding no_clash_def by (blast intro: list.set_intros(1))
  ultimately show ?thesis by blast
qed

lemma register_all_returns:
  "is_return (register_all cs r) \<longleftrightarrow> no_clash (bound r) cs"
  unfolding register_all_def
proof (induction cs arbitrary: r)
  case (Cons c cs)
  show ?case
  proof (cases "register c r")
    case (Inl e)
    then show ?thesis using accepts[of c r] by (simp add: no_clash_Cons)
  next
    case (Inr r1)
    with accepts[of c r] Cons.IH[of r1] show ?thesis
      by (simp add: no_clash_Cons registered[OF Inr] fun_upd_def)
  qed
qed (simp add: no_clash_def)

lemma find_tag:
  assumes "no_clash b cs" and "set cs = set ds"
  shows "map_option tag (find (\<lambda>c. key c = n) cs) = map_option tag (find (\<lambda>c. key c = n) ds)"
proof (cases "find (\<lambda>c. key c = n) cs")
  case None
  then have "find (\<lambda>c. key c = n) ds = None" using assms(2) by (simp add: find_None_iff)
  with None show ?thesis by simp
next
  case (Some c)
  with assms(2) have "find (\<lambda>c. key c = n) ds \<noteq> None"
    by (auto simp: find_None_iff dest: find_SomeD)
  then obtain d where d: "find (\<lambda>c. key c = n) ds = Some d" by blast
  from find_SomeD[OF Some] find_SomeD[OF d] assms(2)
  have "c \<in> set cs" "d \<in> set cs" "key c = key d" by simp_all
  with assms(1) have "tag c = tag d" unfolding no_clash_def by blast
  with Some d show ?thesis by simp
qed

lemma register_all_order:
  assumes "set cs = set ds"
  shows "is_return (register_all cs r) \<longleftrightarrow> is_return (register_all ds r)"
    and "register_all cs r = Inr r1 \<Longrightarrow> register_all ds r = Inr r2 \<Longrightarrow> bound r1 = bound r2"
proof -
  show "is_return (register_all cs r) \<longleftrightarrow> is_return (register_all ds r)"
    by (simp add: register_all_returns no_clash_def assms)
  assume all: "register_all cs r = Inr r1" "register_all ds r = Inr r2"
  then have "no_clash (bound r) cs" using register_all_returns[of cs r] by simp
  from find_tag[OF this assms] show "bound r1 = bound r2"
    by (intro ext) (simp add: register_all_bound[OF all(1)] register_all_bound[OF all(2)]
        split: option.split)
qed

end

end
