(* ===== verification/Proxy.thy ===== *)
theory Proxy
  imports Adapters Registry Sandbox_Service Vault
begin

text \<open>
  The tool proxy: the registry of proxy tools (\<open>proxy/registry.py\<close>, \<open>proxy/decorators.py\<close>)
  and the execution of a tool with credentials from the vault (\<open>proxy/service.py\<close>). The code
  of a tool is a value of type \<open>'f\<close>, run by \<open>call\<close> on the state \<open>'w\<close> of the outside world;
  \<open>pt_ref\<close> is the identity of the registered object.
\<close>

section \<open>Registry\<close>

record 'f proxy_tool =
  pt_ref :: nat
  pt_name :: string
  pt_credential_names :: "string list"
  pt_description :: string
  pt_input_schema :: dict
  pt_fn :: 'f

type_synonym 'f proxy_registry = "(string \<times> 'f proxy_tool) list"

definition to_tool_def :: "'f proxy_tool \<Rightarrow> tool_def" where
  "to_tool_def tool =
     \<lparr>td_name = pt_name tool, td_description = pt_description tool,
      td_input_schema = pt_input_schema tool\<rparr>"

definition register_proxy_tool :: "'f proxy_tool \<Rightarrow> 'f proxy_registry \<Rightarrow> exn + 'f proxy_registry" where
  "register_proxy_tool tool reg =
     (case map_of reg (pt_name tool) of
        Some existing \<Rightarrow>
          if pt_ref existing = pt_ref tool then Inr reg
          else Inl (Exn ''ValueError'' (''proxy tool '' @ repr_str (pt_name tool)
                 @ '' is already registered by a different implementation''))
      | None \<Rightarrow> Inr (AList.update (pt_name tool) tool reg))"

definition get_proxy_tool :: "string \<Rightarrow> 'f proxy_registry \<Rightarrow> 'f proxy_tool option" where
  "get_proxy_tool name reg = map_of reg name"

definition proxy_tool_names :: "'f proxy_registry \<Rightarrow> string set" where
  "proxy_tool_names reg = set (map fst reg)"

definition proxy_tool_schemas :: "'f proxy_registry \<Rightarrow> (string \<times> tool_def) list" where
  "proxy_tool_schemas reg = map (\<lambda>(name, tool). (name, to_tool_def tool)) reg"

definition clear_registry_for_testing :: "'f proxy_registry \<Rightarrow> 'f proxy_registry" where
  "clear_registry_for_testing reg = []"

text \<open>The decorator: \<open>ref\<close> is the identity of the record it creates.\<close>

definition proxy_tool_decorator ::
  "nat \<Rightarrow> string \<Rightarrow> string list \<Rightarrow> string \<Rightarrow> dict \<Rightarrow> 'f \<Rightarrow> 'f proxy_registry
    \<Rightarrow> exn + 'f proxy_registry" where
  "proxy_tool_decorator ref name credential_names description input_schema fn reg =
     register_proxy_tool
       \<lparr>pt_ref = ref, pt_name = name, pt_credential_names = credential_names,
        pt_description = description, pt_input_schema = input_schema, pt_fn = fn\<rparr> reg"

section \<open>Execution\<close>

datatype raw_result =
    RawResult tool_result | RawStr string | RawDict dict | RawOther string

type_synonym ('f, 'w) tool_call = "'f \<Rightarrow> dict \<Rightarrow> (string \<times> string) list \<Rightarrow> ('w, raw_result) prog"

definition error_result :: "string \<Rightarrow> tool_result" where
  "error_result text = make_tool_result True text (Some text)"

fun normalize_result :: "raw_result \<Rightarrow> tool_result" where
  "normalize_result (RawResult r) = r"
| "normalize_result (RawStr s) = make_tool_result False s None"
| "normalize_result (RawDict raw) =
     make_tool_result (truthy (dget_or raw ''is_error'' (JBool False)))
       (case dget raw ''content'' of JStr s \<Rightarrow> s | _ \<Rightarrow> json_dumps True (JObj raw))
       (as_str (dget raw ''error''))"
| "normalize_result (RawOther type_name) =
     error_result (''proxy tool returned unsupported type '' @ type_name
       @ ''; return a ToolResult, str, or dict'')"

text \<open>What \<open>_resolve_credentials\<close> signals: a message for the model, or an exception it does not
  catch.\<close>

datatype lookup_error = Lookup string | Escapes exn

definition vault_lookup_error :: "'f proxy_tool \<Rightarrow> string \<Rightarrow> exn \<Rightarrow> lookup_error" where
  "vault_lookup_error tool cred_name e =
     (if exn_class e = ''VaultCredentialNotFoundError''
      then Lookup (''proxy tool '' @ repr_str (pt_name tool) @ '' requires credential ''
             @ repr_str cred_name @ '' which is not stored in the vault'')
      else if exn_class e = ''VaultConfigurationError''
      then Lookup (''vault is not usable: '' @ exn_text e)
      else if exn_class e \<in> {''VaultError'', ''VaultLockedError''}
      then Lookup (''vault failed for credential '' @ repr_str cred_name @ '': '' @ exn_class e)
      else Escapes e)"

fun resolve_names ::
  "crypto \<Rightarrow> vault \<Rightarrow> 'f proxy_tool \<Rightarrow> (string \<times> string) list \<Rightarrow> string list
    \<Rightarrow> lookup_error + (string \<times> string) list" where
  "resolve_names C v tool out [] = Inr out"
| "resolve_names C v tool out (n # ns) =
     (case fst (vault_retrieve C n v) of
        Inl e \<Rightarrow> Inl (vault_lookup_error tool n e)
      | Inr value \<Rightarrow> resolve_names C v tool (AList.update n value out) ns)"

definition resolve_credentials ::
  "crypto \<Rightarrow> vault option \<Rightarrow> 'f proxy_tool \<Rightarrow> lookup_error + (string \<times> string) list" where
  "resolve_credentials C vault tool =
     (if pt_credential_names tool = [] then Inr []
      else case vault of
        None \<Rightarrow> Inl (Lookup (''proxy tool '' @ repr_str (pt_name tool) @ '' needs credentials (''
                  @ join_str '', '' (pt_credential_names tool) @ '') but no vault is configured''))
      | Some v \<Rightarrow> resolve_names C v tool [] (pt_credential_names tool))"

definition proxy_execute ::
  "crypto \<Rightarrow> vault option \<Rightarrow> 'f proxy_registry \<Rightarrow> ('f, 'w) tool_call \<Rightarrow> string \<Rightarrow> dict
    \<Rightarrow> ('w, tool_result) prog" where
  "proxy_execute C vault reg call tool_name tool_input =
     (case get_proxy_tool tool_name reg of
        None \<Rightarrow> returnM (error_result
                 (''proxy tool '' @ repr_str tool_name @ '' is not registered''))
      | Some tool \<Rightarrow>
          (case resolve_credentials C vault tool of
             Inl (Escapes e) \<Rightarrow> raiseM e
           | Inl (Lookup text) \<Rightarrow> returnM (error_result text)
           | Inr credentials \<Rightarrow>
               tryM (bindM (call (pt_fn tool) tool_input credentials)
                       (\<lambda>raw. returnM (normalize_result raw)))
                 (\<lambda>e. returnM (error_result
                    (''proxy tool '' @ repr_str tool_name @ '' raised '' @ exn_class e @ '': ''
                     @ exn_text e)))))"

section \<open>Both registries\<close>

interpretation adapters: name_registry
  "register_adapter name" "\<lambda>reg n. map_of reg n" name "\<lambda>c. c" for name
  by unfold_locales (auto simp: register_adapter_def update_conv' fun_eq_iff split: option.splits if_splits)

interpretation tools: name_registry
  register_proxy_tool "\<lambda>reg n. map_option pt_ref (get_proxy_tool n reg)" pt_name pt_ref
  by unfold_locales
    (auto simp: register_proxy_tool_def get_proxy_tool_def update_conv' fun_eq_iff
      split: option.splits if_splits)

text \<open>Registration does not depend on the order in which modules are imported: two orders of
  the same proxy tools are both accepted or both refused, and when accepted bind the same
  names to the same tools.\<close>

theorem registration_order_irrelevant:
  assumes "set ts = set us"
  shows "is_return (foldE (\<lambda>r t. register_proxy_tool t r) reg ts)
      = is_return (foldE (\<lambda>r t. register_proxy_tool t r) reg us)
    \<and> (case (foldE (\<lambda>r t. register_proxy_tool t r) reg ts,
              foldE (\<lambda>r t. register_proxy_tool t r) reg us) of
         (Inr r1, Inr r2) \<Rightarrow>
           map_option pt_ref (get_proxy_tool n r1) = map_option pt_ref (get_proxy_tool n r2)
       | _ \<Rightarrow> True)"
  using tools.register_all_order[OF assms, of reg]
  unfolding tools.register_all_def by (auto simp: fun_eq_iff split: sum.split)

lemma adapter_order_irrelevant:
  assumes "set cs = set ds"
    and "foldE (\<lambda>r c. register_adapter name c r) reg cs = Inr r1"
    and "foldE (\<lambda>r c. register_adapter name c r) reg ds = Inr r2"
  shows "get_adapter n r1 = get_adapter n r2"
  using adapters.register_all_order(2)[OF assms(1), of name reg r1 r2] assms(2,3)
  unfolding adapters.register_all_def by (simp add: get_adapter_def)

section \<open>Execution never raises, except through a corrupt vault\<close>

definition vault_classes :: "string set" where
  "vault_classes = {''VaultError'', ''VaultLockedError'', ''VaultCredentialNotFoundError'',
     ''VaultConfigurationError''}"

lemma resolve_names_escapes:
  "resolve_names C v tool out ns = Inl (Escapes e) \<Longrightarrow>
    exn_class e \<notin> vault_classes \<and> (\<exists>n \<in> set ns. fst (vault_retrieve C n v) = Inl e)"
proof (induction ns arbitrary: out)
  case (Cons n ns)
  show ?case
  proof (cases "fst (vault_retrieve C n v)")
    case (Inl x)
    with Cons.prems show ?thesis
      by (auto simp: vault_lookup_error_def vault_classes_def split: if_splits)
  next
    case (Inr y)
    with Cons show ?thesis by auto
  qed
qed simp

lemma proxy_execute_raises:
  assumes "fst (proxy_execute C vault reg call tool_name tool_input w) = Inl e"
  shows "exn_class e \<notin> vault_classes \<and> (\<exists>v tool n. vault = Some v
    \<and> get_proxy_tool tool_name reg = Some tool \<and> n \<in> set (pt_credential_names tool)
    \<and> fst (vault_retrieve C n v) = Inl e)"
proof -
  obtain tool where tool: "get_proxy_tool tool_name reg = Some tool"
    using assms by (cases "get_proxy_tool tool_name reg") (simp_all add: proxy_execute_def)
  have "resolve_credentials C vault tool = Inl (Escapes e)"
  proof (cases "resolve_credentials C vault tool")
    case (Inl x)
    with assms tool show ?thesis by (cases x) (simp_all add: proxy_execute_def)
  next
    case (Inr creds)
    with assms tool show ?thesis
      by (simp add: proxy_execute_def tryM_def bindM_def split: prod.splits sum.splits)
  qed
  then obtain v where "vault = Some v"
    "resolve_names C v tool [] (pt_credential_names tool) = Inl (Escapes e)"
    by (auto simp: resolve_credentials_def split: if_splits option.splits)
  with resolve_names_escapes tool show ?thesis by blast
qed


text \<open>That exception happens: when the token of a declared credential is not ASCII, as in a
  damaged vault file, \<open>execute\<close> raises a \<open>UnicodeEncodeError\<close> although it promises never to
  raise.\<close>

theorem damaged_token_escapes:
  assumes "get_proxy_tool tool_name reg = Some tool" and "pt_credential_names tool = [n]"
    and "validate_name n = Inr ()" and "load_state_or_none v = Inr (Some (st, params))"
    and "dget (credentials_dict st) n = JStr token" and "\<not> is_ascii token"
    and "fst (vault_key C params v) = Inr key"
  shows "proxy_execute C (Some v) reg call tool_name tool_input w
    = (Inl (Exn ''UnicodeEncodeError'' token), w)"
proof -
  have k: "vault_key C params v = (Inr key, v)"
    using assms(7)
    by (cases "v_passphrase v")
      (auto simp: vault_key_def bindM_def liftE_def split: sum.splits)
  have "vault_retrieve C n v = (Inl (Exn ''UnicodeEncodeError'' token), v)"
    using assms(3-6) k
    by (simp add: vault_retrieve_def load_state_required_def load_state_def bindM_def liftE_def
        decrypt_value_def)
  with assms(1,2) show ?thesis
    by (simp add: proxy_execute_def resolve_credentials_def vault_lookup_error_def)
qed

section \<open>Credentials and results\<close>

lemma resolve_names_outcome:
  assumes "\<forall>n \<in> set ns. map_sum id (\<lambda>_. ()) (fst (vault_retrieve C n v1))
      = map_sum id (\<lambda>_. ()) (fst (vault_retrieve C n v2))"
  shows "map_sum id (\<lambda>_. ()) (resolve_names C v1 tool o1 ns)
    = map_sum id (\<lambda>_. ()) (resolve_names C v2 tool o2 ns)"
  using assms
proof (induction ns arbitrary: o1 o2)
  case (Cons n ns)
  then show ?case
    by (cases "fst (vault_retrieve C n v1)"; cases "fst (vault_retrieve C n v2)") auto
qed simp

text \<open>The proxy itself leaks nothing: with two vaults that hold the same names and fail the
  same way, a tool whose behaviour does not depend on the credential values gives the same
  result and the same effects, so no value reaches the result except through the tool.\<close>

theorem proxy_noninterference:
  assumes "\<forall>n. map_sum id (\<lambda>_. ()) (fst (vault_retrieve C n v1))
      = map_sum id (\<lambda>_. ()) (fst (vault_retrieve C n v2))"
    and "\<forall>fn inp c1 c2. call fn inp c1 = call fn inp c2"
  shows "proxy_execute C (Some v1) reg call tool_name tool_input w
    = proxy_execute C (Some v2) reg call tool_name tool_input w"
proof (cases "get_proxy_tool tool_name reg")
  case (Some tool)
  have same: "map_sum id (\<lambda>_. ()) (resolve_credentials C (Some v1) tool)
      = map_sum id (\<lambda>_. ()) (resolve_credentials C (Some v2) tool)"
    using resolve_names_outcome[of "pt_credential_names tool" C v1 v2 tool] assms(1)
    by (simp add: resolve_credentials_def)
  show ?thesis
  proof (cases "resolve_credentials C (Some v1) tool")
    case (Inl e)
    with same have "resolve_credentials C (Some v2) tool = Inl e"
      by (cases "resolve_credentials C (Some v2) tool") simp_all
    with Inl Some show ?thesis by (simp add: proxy_execute_def)
  next
    case (Inr c1)
    with same obtain c2 where "resolve_credentials C (Some v2) tool = Inr c2"
      by (cases "resolve_credentials C (Some v2) tool") auto
    moreover have "call (pt_fn tool) tool_input c1 = call (pt_fn tool) tool_input c2"
      using assms(2) by blast
    ultimately show ?thesis using Inr Some by (simp add: proxy_execute_def)
  qed
qed (simp add: proxy_execute_def)

end
