(* ===== verification/Examples_Vault.thy ===== *)
theory Examples_Vault
  imports Vault_Facts Proxy
begin

text \<open>A toy cipher that satisfies what is assumed of Fernet, and the vault and proxy properties
  applied to concrete vaults.\<close>

definition toy_decrypt :: "string \<Rightarrow> string \<Rightarrow> string option" where
  "toy_decrypt k t =
     (let a = takeWhile (\<lambda>c. c \<noteq> CHR ''.'') t
      in if b64decode a = Some k then b64decode (drop (length a + 1) t) else None)"

definition toy_crypto :: crypto where
  "toy_crypto =
     \<lparr>urandom = (\<lambda>n d. replicate n (CHR ''s'')), pbkdf2 = (\<lambda>p salt i. p),
      encrypt = (\<lambda>k n p. b64encode k @ CHR ''.'' # b64encode p), decrypt = toy_decrypt\<rparr>"

lemma b64_digit_char: "n < 64 \<Longrightarrow> is_ascii [b64_digit n] \<and> b64_digit n \<noteq> CHR ''.''"
proof -
  have "list_all (\<lambda>n. is_ascii [b64_digit n] \<and> b64_digit n \<noteq> CHR ''.'') [0..<64]" by code_simp
  then show "n < 64 \<Longrightarrow> ?thesis" by (simp add: list_all_iff)
qed

lemma b64_chars: "list_all (\<lambda>c. is_ascii [c] \<and> c \<noteq> CHR ''.'') (b64encode s)"
proof (induction s rule: b64encode.induct)
  case (2 x)
  show ?case using sextets[OF byte[of x], of 0 0]
    by (simp add: Let_def b64_digit_char) (simp add: is_ascii_def)
next
  case (3 x y)
  show ?case using sextets[OF byte[of x] byte[of y], of 0]
    by (simp add: Let_def b64_digit_char) (simp add: is_ascii_def)
next
  case (4 x y z s)
  then show ?case using sextets[OF byte[of x] byte[of y] byte[of z]]
    by (simp add: Let_def b64_digit_char)
qed simp

lemma toy_fernet: "fernet_ok toy_crypto" "fernet_authentic toy_crypto"
proof -
  have head: "takeWhile (\<lambda>c. c \<noteq> CHR ''.'') (b64encode k @ CHR ''.'' # s) = b64encode k" for k s
    using b64_chars[of k] by (simp add: takeWhile_append list_all_iff)
  have "is_ascii (b64encode k @ CHR ''.'' # b64encode p)" for k p
    using b64_chars[of k] b64_chars[of p] by (auto simp: is_ascii_def list_all_iff)
  then show "fernet_ok toy_crypto" "fernet_authentic toy_crypto"
    by (simp_all add: fernet_ok_def fernet_authentic_def toy_crypto_def toy_decrypt_def head Let_def)
qed

definition new_vault :: vault where
  "new_vault = \<lparr>v_path = ''vault.json'', v_passphrase = Some ''pw'', v_file = None,
     v_write_error = None, v_draws = 0\<rparr>"

definition used_vault :: vault where
  "used_vault = snd (vault_store toy_crypto ''key'' ''secret'' new_vault)"

lemma new_vault_ok: "vault_ok new_vault"
  by (simp add: vault_ok_def new_vault_def)

lemma used_vault_stored: "vault_store toy_crypto ''key'' ''secret'' new_vault = (Inr (), used_vault)"
proof -
  have "is_return (fst (vault_store toy_crypto ''key'' ''secret'' new_vault))" by code_simp
  then show ?thesis by (auto simp: used_vault_def is_return_iff prod_eq_iff)
qed

lemma used_vault_value: "used_vault = \<lparr>v_path = ''vault.json'', v_passphrase = Some ''pw'',
    v_file = Some (Parsed (JObj [(''credentials'', JObj [(''key'', JStr ''cHc=.c2VjcmV0'')]),
      (''iterations'', JInt 600000), (''salt'', JStr ''c3Nzc3Nzc3Nzc3Nzc3Nzcw==''),
      (''version'', JInt 1)])), v_write_error = None, v_draws = 2\<rparr>"
  by code_simp

lemma used_vault_ok: "vault_ok used_vault"
  by (simp add: used_vault_value vault_ok_def dict_ok_def credentials_dict_def)

theorem vault_store_retrieve_witness:
  "fst (vault_retrieve toy_crypto ''key'' used_vault) = Inr ''secret''"
  using vault_store_retrieve[OF toy_fernet(1) new_vault_ok used_vault_stored] by blast

theorem change_passphrase_keeps_witness:
  "fst (vault_retrieve toy_crypto ''key'' (snd (change_passphrase toy_crypto ''new'' used_vault)))
    = fst (vault_retrieve toy_crypto ''key'' used_vault)"
proof -
  have "is_return (fst (change_passphrase toy_crypto ''new'' used_vault))"
    unfolding used_vault_value by code_simp
  then have "change_passphrase toy_crypto ''new'' used_vault
      = (Inr (), snd (change_passphrase toy_crypto ''new'' used_vault))"
    by (auto simp: is_return_iff prod_eq_iff)
  from change_passphrase_keeps[OF toy_fernet(1) used_vault_ok this] show ?thesis by blast
qed

definition used_state :: dict where
  "used_state = [(''credentials'', JObj [(''key'', JStr ''cHc=.c2VjcmV0'')]),
      (''iterations'', JInt 600000), (''salt'', JStr ''c3Nzc3Nzc3Nzc3Nzc3Nzcw==''),
      (''version'', JInt 1)]"

definition used_params :: key_parameters where
  "used_params = \<lparr>kp_salt = ''ssssssssssssssss'', kp_iterations = 600000\<rparr>"

lemma used_loaded: "load_state_or_none used_vault = Inr (Some (used_state, used_params))"
  unfolding used_vault_value by code_simp

text \<open>A read-only disk.\<close>

theorem failed_rotation_keeps_new_passphrase_witness:
  "\<exists>v'. change_passphrase toy_crypto ''new'' (used_vault\<lparr>v_write_error := Some (No_Replace ''read-only'')\<rparr>)
      = (Inl (write_exception ''vault.json'' (No_Replace ''read-only'')), v') \<and> v_passphrase v' = Some ''new''"
proof -
  let ?v = "used_vault\<lparr>v_write_error := Some (No_Replace ''read-only'')\<rparr>"
  have l: "load_state_or_none ?v = Inr (Some (used_state, used_params))"
    unfolding used_vault_value by code_simp
  have k: "fst (vault_key toy_crypto used_params ?v) = Inr ''pw''"
    unfolding used_vault_value by code_simp
  have d: "decrypt_all toy_crypto ''pw'' (credentials_dict used_state) = Inr [(''key'', ''secret'')]"
    by code_simp
  have p: "v_path ?v = ''vault.json''" by (simp add: used_vault_value)
  show ?thesis
    using failed_rotation_keeps_new_passphrase[OF l _ k d, of "''new''"] unfolding p by auto
qed

text \<open>A second store, under a mistyped passphrase.\<close>

definition mixed_vault :: vault where
  "mixed_vault = snd (vault_store toy_crypto ''other'' ''x''
     (used_vault\<lparr>v_passphrase := Some ''qw''\<rparr>))"

theorem wrong_passphrase_store_blocks_rotation_witness:
  "\<not> is_return (fst (change_passphrase toy_crypto ''new'' (mixed_vault\<lparr>v_passphrase := Some ''pw''\<rparr>)))"
proof (rule wrong_passphrase_store_blocks_rotation[OF toy_fernet(2) new_vault_ok, where p = "''pw''" and q = "''qw''"])
  show "v_passphrase new_vault = Some ''pw''" by (simp add: new_vault_def)
  show "\<forall>salt i. pbkdf2 toy_crypto ''pw'' salt i \<noteq> pbkdf2 toy_crypto ''qw'' salt i"
    by (simp add: toy_crypto_def)
  show "vault_store toy_crypto ''key'' ''secret'' new_vault = (Inr (), used_vault)"
    by (rule used_vault_stored)
  have "is_return (fst (vault_store toy_crypto ''other'' ''x'' (used_vault\<lparr>v_passphrase := Some ''qw''\<rparr>)))"
    unfolding used_vault_value by code_simp
  then show "vault_store toy_crypto ''other'' ''x'' (used_vault\<lparr>v_passphrase := Some ''qw''\<rparr>)
      = (Inr (), mixed_vault)"
    by (auto simp: mixed_vault_def is_return_iff prod_eq_iff)
qed simp_all

section \<open>Proxy tools\<close>

definition search_tool :: "unit proxy_tool" where
  "search_tool =
     \<lparr>pt_ref = 1, pt_name = ''web_search'', pt_credential_names = [''key''], pt_description = [],
      pt_input_schema = [], pt_fn = ()\<rparr>"

definition search_call :: "(unit, nat) tool_call" where
  "search_call f inp creds w = (Inr (RawStr ''no results''), Suc w)"

theorem registration_order_irrelevant_witness:
  "is_return (foldE (\<lambda>r t. register_proxy_tool t r) [] [search_tool, search_tool\<lparr>pt_name := ''b''\<rparr>])
    = is_return (foldE (\<lambda>r t. register_proxy_tool t r) [] [search_tool\<lparr>pt_name := ''b''\<rparr>, search_tool])"
proof -
  have "set [search_tool, search_tool\<lparr>pt_name := ''b''\<rparr>] = set [search_tool\<lparr>pt_name := ''b''\<rparr>, search_tool]"
    by auto
  from registration_order_irrelevant[OF this, of "[]"] show ?thesis by blast
qed

lemma search_registered: "get_proxy_tool ''web_search'' [(''web_search'', search_tool)] = Some search_tool"
  by (simp add: get_proxy_tool_def)


definition damaged_state :: dict where
  "damaged_state = [(''credentials'', JObj [(''key'', JStr [CHR 0xE9])]),
      (''iterations'', JInt 1), (''salt'', JStr []), (''version'', JInt 1)]"

theorem damaged_token_escapes_witness:
  "proxy_execute toy_crypto (Some (new_vault\<lparr>v_file := Some (Parsed (JObj damaged_state))\<rparr>))
      [(''web_search'', search_tool)] search_call ''web_search'' [] 0
    = (Inl (Exn ''UnicodeEncodeError'' [CHR 0xE9]), 0)"
proof (rule damaged_token_escapes[OF search_registered])
  let ?v = "new_vault\<lparr>v_file := Some (Parsed (JObj damaged_state))\<rparr>"
  show "load_state_or_none ?v = Inr (Some (damaged_state, \<lparr>kp_salt = [], kp_iterations = 1\<rparr>))"
    by code_simp
  show "pt_credential_names search_tool = [''key'']" by (simp add: search_tool_def)
  show "validate_name ''key'' = Inr ()" by code_simp
  show "dget (credentials_dict damaged_state) ''key'' = JStr [CHR 0xE9]" by code_simp
  show "\<not> is_ascii [CHR 0xE9]" by code_simp
  show "fst (vault_key toy_crypto \<lparr>kp_salt = [], kp_iterations = 1\<rparr> ?v) = Inr ''pw''" by code_simp
qed

text \<open>Two vaults that differ in the value of the one credential.\<close>

definition other_state :: dict where
  "other_state = AList.update ''credentials'' (JObj [(''key'', JStr ''cHc=.cHc='')]) used_state"

abbreviation with_state :: "dict \<Rightarrow> vault" where
  "with_state st \<equiv> new_vault\<lparr>v_file := Some (Parsed (JObj st))\<rparr>"

lemma retrieve_of_state:
  assumes "load_state_or_none v = Inr (Some (st, params))"
    and "v_passphrase v = Some p" and "p \<noteq> []"
  shows "fst (vault_retrieve C n v) = bindE (validate_name n) (\<lambda>_.
    if dget (credentials_dict st) n = JNull
    then Inl (not_found_error (''no credential named '' @ repr_str n))
    else decrypt_value C (pbkdf2 C p (kp_salt params) (kp_iterations params))
           (dget (credentials_dict st) n))"
  using assms
  by (cases "validate_name n")
    (simp_all add: vault_retrieve_def load_state_required_def load_state_def liftE_def bindM_def
      vault_key_def derive_key_def Let_def split: sum.split)

theorem proxy_noninterference_witness:
  "proxy_execute toy_crypto (Some (with_state used_state)) [(''web_search'', search_tool)] search_call
      ''web_search'' [] 0
    = proxy_execute toy_crypto (Some (with_state other_state)) [(''web_search'', search_tool)]
        search_call ''web_search'' [] 0"
proof (rule proxy_noninterference)
  have loaded: "load_state_or_none (with_state used_state) = Inr (Some (used_state, used_params))"
    "load_state_or_none (with_state other_state) = Inr (Some (other_state, used_params))"
    by code_simp+
  have creds: "credentials_dict used_state = [(''key'', JStr ''cHc=.c2VjcmV0'')]"
    "credentials_dict other_state = [(''key'', JStr ''cHc=.cHc='')]"
    by code_simp+
  have plain: "decrypt_value toy_crypto ''pw'' (JStr ''cHc=.c2VjcmV0'') = Inr ''secret''"
    "decrypt_value toy_crypto ''pw'' (JStr ''cHc=.cHc='') = Inr ''pw''"
    by code_simp+
  have key: "pbkdf2 toy_crypto p salt i = p" for p salt i by (simp add: toy_crypto_def)
  show "\<forall>n. map_sum id (\<lambda>_. ()) (fst (vault_retrieve toy_crypto n (with_state used_state)))
      = map_sum id (\<lambda>_. ()) (fst (vault_retrieve toy_crypto n (with_state other_state)))"
  proof
    fix n
    show "map_sum id (\<lambda>_. ()) (fst (vault_retrieve toy_crypto n (with_state used_state)))
        = map_sum id (\<lambda>_. ()) (fst (vault_retrieve toy_crypto n (with_state other_state)))"
      using retrieve_of_state[OF loaded(1), of "''pw''" toy_crypto n]
        retrieve_of_state[OF loaded(2), of "''pw''" toy_crypto n]
      by (cases "validate_name n") (simp_all add: new_vault_def creds key plain)
  qed
qed (simp add: search_call_def fun_eq_iff)

end
