(* ===== verification/Context_Turns.thy ===== *)
theory Context_Turns
  imports Vanilla_Adapter
begin

text \<open>
  What a conversation looks like in the event log and what it must look like in a model
  request: the harness writes a turn as streaming deltas and tool calls in arrival order,
  a closing message with the whole text when there was any, then one result per call; the
  provider wants one assistant message with the text first and the tool uses after it,
  followed by one tool message with the results.
\<close>

section \<open>Conversations\<close>

record call =
  c_event :: uuid
  c_tool_id :: string
  c_name :: string
  c_input :: dict
  c_result :: dict

datatype item = Delta string | Call call

datatype segment =
    Prompt string
  | Said string
  | Round "item list" "(string \<times> dict) option"

definition calls :: "item list \<Rightarrow> call list" where
  "calls items = List.map_filter (\<lambda>x. case x of Delta _ \<Rightarrow> None | Call c \<Rightarrow> Some c) items"

text \<open>What the harness writes: the type and the payload of each event. A closer is its text
  and what its payload holds beyond the content and the completion flag.\<close>

type_synonym entry = "event_type \<times> dict"

definition call_payload :: "call \<Rightarrow> dict" where
  "call_payload c = [(''tool_id'', JStr (c_tool_id c)), (''tool_name'', JStr (c_name c)),
     (''input'', JObj (c_input c))]"

fun item_entry :: "item \<Rightarrow> entry" where
  "item_entry (Delta t) =
     (ASSISTANT_MESSAGE, [(''content'', JStr t), (''is_complete'', JBool False)])"
| "item_entry (Call c) = (TOOL_CALL, call_payload c)"

definition result_payload :: "call \<Rightarrow> dict" where
  "result_payload c = (''tool_call_id'', JStr (uuid_str (c_event c))) # c_result c"

definition result_entry :: "call \<Rightarrow> entry" where
  "result_entry c = (TOOL_RESULT, result_payload c)"

fun closer_entries :: "(string \<times> dict) option \<Rightarrow> entry list" where
  "closer_entries None = []"
| "closer_entries (Some (t, extra)) =
     [(ASSISTANT_MESSAGE, (''content'', JStr t) # (''is_complete'', JBool True) # extra)]"

fun segment_entries :: "segment \<Rightarrow> entry list" where
  "segment_entries (Prompt t) =
     [(SYSTEM_EVENT, [(''type'', JStr ''system_prompt''), (''content'', JStr t)])]"
| "segment_entries (Said t) = [(USER_MESSAGE, [(''content'', JStr t)])]"
| "segment_entries (Round items closer) =
     map item_entry items @ closer_entries closer @ map result_entry (calls items)"

text \<open>What the provider gets.\<close>

definition closer_text :: "(string \<times> dict) option \<Rightarrow> string" where
  "closer_text closer = (case closer of None \<Rightarrow> [] | Some (t, _) \<Rightarrow> t)"

definition use_block :: "call \<Rightarrow> content_block" where
  "use_block c = tool_use_block (c_tool_id c) (c_name c) (c_input c)"

definition answer_block :: "call \<Rightarrow> content_block" where
  "answer_block c = result_block (c_tool_id c) (dget (c_result c) ''content'')
     (case dget (c_result c) ''is_error'' of JNull \<Rightarrow> None | v \<Rightarrow> Some (truthy v))"

fun segment_messages :: "segment \<Rightarrow> message list" where
  "segment_messages (Prompt t) = (if t = [] then [] else [msg System (Plain t)])"
| "segment_messages (Said t) = [msg User (Plain t)]"
| "segment_messages (Round items closer) =
     (let text = closer_text closer; blocks = (if text = [] then [] else [text_block text])
        @ map use_block (calls items)
      in (if blocks = [] then [] else [msg Assistant (Blocks blocks)])
         @ (if calls items = [] then []
            else [msg Tool (Blocks (map answer_block (calls items)))]))"

text \<open>Result contents are strings or lists of mappings, and a turn without tool calls ends its
  run: the next segment is not another turn.\<close>

definition call_ok :: "call \<Rightarrow> bool" where
  "call_ok c \<longleftrightarrow> (case dget (c_result c) ''content'' of
     JStr _ \<Rightarrow> True | JList xs \<Rightarrow> list_all (\<lambda>x. as_obj x \<noteq> None) xs | _ \<Rightarrow> False)"

fun segment_calls :: "segment \<Rightarrow> call list" where
  "segment_calls (Round items _) = calls items"
| "segment_calls _ = []"

fun final_round :: "segment \<Rightarrow> bool" where
  "final_round (Round items _) \<longleftrightarrow> calls items = []"
| "final_round _ \<longleftrightarrow> False"

fun is_round :: "segment \<Rightarrow> bool" where
  "is_round (Round _ _) \<longleftrightarrow> True"
| "is_round _ \<longleftrightarrow> False"

fun conversation :: "segment list \<Rightarrow> bool" where
  "conversation [] \<longleftrightarrow> True"
| "conversation [s] \<longleftrightarrow> list_all call_ok (segment_calls s)"
| "conversation (s # s' # ss) \<longleftrightarrow> list_all call_ok (segment_calls s)
     \<and> (final_round s \<longrightarrow> \<not> is_round s') \<and> conversation (s' # ss)"

section \<open>One segment\<close>

text \<open>\<open>ready\<close>: nothing of an unfinished turn is buffered; results may be, or else the text of a
  turn without calls.\<close>

definition ready :: "ctx \<Rightarrow> bool" where
  "ready st \<longleftrightarrow> pending_tool_uses st = [] \<and> (pending_text st = [] \<or> pending_tool_results st = [])"

lemma calls_simps [simp]:
  "calls [] = []" "calls (Delta t # xs) = calls xs" "calls (Call c # xs) = c # calls xs"
  by (simp_all add: calls_def map_filter_simps)

definition know :: "(uuid \<Rightarrow> string option) \<Rightarrow> call \<Rightarrow> bool" where
  "know ids c \<longleftrightarrow> ids (c_event c) = Some (c_tool_id c)"

lemma tool_result_answer:
  assumes "call_ok c"
  shows "tool_result_block (c_tool_id c) (result_payload c) = Inr (answer_block c)"
  using assms
  by (cases "dget (c_result c) ''content''")
    (simp_all add: tool_result_block_def result_payload_def answer_block_def call_ok_def Let_def)

lemma result_step:
  assumes "call_ok c" and "know ids c"
  shows "context_step ids st (result_entry c)
    = Inr (push_result (answer_block c) (flush_assistant st))"
  using assms tool_result_answer[OF assms(1)]
  by (simp add: context_step_def referenced_call_def result_entry_def result_payload_def know_def)

lemma flush_assistant_idle:
  "pending_text st = [] \<Longrightarrow> pending_tool_uses st = [] \<Longrightarrow> flush_assistant st = st"
  by (simp add: flush_assistant_def)

lemma flush_results_idle: "pending_tool_results st = [] \<Longrightarrow> flush_tool_results st = st"
  by (simp add: flush_tool_results_def)

lemma results_loop:
  assumes "list_all call_ok cs" and "list_all (know ids) cs"
    and "pending_text st = []" and "pending_tool_uses st = []"
  shows "foldE (context_step ids) st (map result_entry cs)
    = Inr (st\<lparr>pending_tool_results := pending_tool_results st @ map answer_block cs\<rparr>)"
  using assms
proof (induction cs arbitrary: st)
  case (Cons c cs)
  then show ?case
    by (simp add: result_step flush_assistant_idle push_result_def)
qed simp

lemma items_loop_open:
  assumes "pending_tool_results st = []"
  shows "foldE (context_step ids) st (map item_entry items)
    = Inr (st\<lparr>pending_tool_uses := pending_tool_uses st @ map use_block (calls items)\<rparr>)"
  using assms
proof (induction items arbitrary: st)
  case (Cons x items)
  then show ?case
    by (cases x) (simp_all add: context_step_def push_use_def use_block_def call_payload_def)
qed simp

lemma items_loop:
  assumes "pending_tool_uses st = []" and "pending_text st = []"
  shows "foldE (context_step ids) st (map item_entry items)
    = Inr (if calls items = [] then st
           else (flush_tool_results st)\<lparr>pending_tool_uses := map use_block (calls items)\<rparr>)"
  using assms
proof (induction items)
  case (Cons x items)
  show ?case
  proof (cases x)
    case (Delta t)
    with Cons show ?thesis by (simp add: context_step_def)
  next
    case (Call c)
    have "context_step ids st (item_entry x)
      = Inr (push_use (use_block c) (flush_tool_results st))"
      using Cons.prems
      by (simp add: Call context_step_def use_block_def call_payload_def flush_assistant_idle flush_results_idle)
    with Cons.prems show ?thesis
      by (simp add: Call items_loop_open push_use_def)
  qed
qed simp

lemma closer_step:
  "foldE (context_step ids) st (closer_entries closer) =
    Inr (case closer of None \<Rightarrow> st
         | Some (t, _) \<Rightarrow> (flush_tool_results st)\<lparr>pending_text := t\<rparr>)"
  by (cases closer) (auto simp: context_step_def)

text \<open>The state a segment leaves, and the messages it adds.\<close>

lemma finish_flushed:
  "finish_context (flush_tool_results (flush_assistant st)) = finish_context st"
  by (simp add: finish_context_def flush_assistant_def flush_tool_results_def Let_def)

lemma round_step:
  assumes "ready st" and "pending_text st = []"
    and "list_all call_ok (calls items)" and "list_all (know ids) (calls items)"
  shows "\<exists>st'. foldE (context_step ids) st (segment_entries (Round items closer)) = Inr st'
    \<and> finish_context st' = finish_context st @ segment_messages (Round items closer)
    \<and> ready st' \<and> (calls items \<noteq> [] \<longrightarrow> pending_text st' = [])"
proof (cases "calls items = []")
  case True
  then show ?thesis
    using assms items_loop[of st ids items]
    by (cases closer)
      (auto simp: ready_def foldE_append closer_step closer_text_def finish_context_def
        flush_assistant_def flush_tool_results_def Let_def)
next
  case False
  then obtain c cs where cs: "calls items = c # cs" by (cases "calls items") auto
  define st1 where "st1 = (flush_tool_results st)\<lparr>pending_text := closer_text closer,
    pending_tool_uses := map use_block (c # cs)\<rparr>"
  have "foldE (context_step ids) st (map item_entry items @ closer_entries closer) = Inr st1"
    using assms(1,2) False
    by (cases closer)
      (auto simp: ready_def foldE_append items_loop closer_step closer_text_def st1_def cs
        flush_tool_results_def)
  moreover have "foldE (context_step ids) st1 (map result_entry (c # cs)) =
      Inr ((flush_assistant st1)\<lparr>pending_tool_results := map answer_block (c # cs)\<rparr>)"
    using assms(3,4)
    by (simp add: cs result_step results_loop) (simp add: push_result_def st1_def)
  ultimately have "foldE (context_step ids) st (segment_entries (Round items closer))
      = Inr ((flush_assistant st1)\<lparr>pending_tool_results := map answer_block (c # cs)\<rparr>)"
    by (simp only: segment_entries.simps cs append_assoc[symmetric])
      (subst foldE_append, simp only: bindE_simps)
  moreover have "finish_context ((flush_assistant st1)\<lparr>pending_tool_results := map answer_block (c # cs)\<rparr>)
      = finish_context st @ segment_messages (Round items closer)"
    using assms(1,2)
    by (auto simp: ready_def cs st1_def finish_context_def flush_assistant_def
        flush_tool_results_def Let_def)
  ultimately show ?thesis by (auto simp: ready_def)
qed

lemma segment_step:
  assumes "ready st" and "is_round s \<longrightarrow> pending_text st = []"
    and "list_all call_ok (segment_calls s)" and "list_all (know ids) (segment_calls s)"
  shows "\<exists>st'. foldE (context_step ids) st (segment_entries s) = Inr st'
    \<and> finish_context st' = finish_context st @ segment_messages s
    \<and> ready st' \<and> (\<not> final_round s \<longrightarrow> pending_text st' = [])"
proof (cases s)
  case (Prompt t)
  then show ?thesis
    by (auto simp: context_step_def ready_def finish_context_def flush_assistant_idle
        flush_results_idle)
next
  case (Said t)
  then show ?thesis
    by (auto simp: context_step_def ready_def finish_context_def flush_assistant_idle
        flush_results_idle)
next
  case (Round items closer)
  with assms round_step[of st items ids closer] show ?thesis by auto
qed

lemma segments_loop:
  assumes "conversation ss" and "list_all (know ids) (concat (map segment_calls ss))"
    and "ready st" and "ss \<noteq> [] \<longrightarrow> is_round (hd ss) \<longrightarrow> pending_text st = []"
  shows "\<exists>st'. foldE (context_step ids) st (concat (map segment_entries ss)) = Inr st'
    \<and> finish_context st' = finish_context st @ concat (map segment_messages ss)"
  using assms
proof (induction ss arbitrary: st)
  case (Cons s ss)
  have ok: "list_all call_ok (segment_calls s)" using Cons.prems(1) by (cases ss) auto
  have "conversation ss" using Cons.prems(1) by (cases ss) auto
  have hd: "ss \<noteq> [] \<Longrightarrow> is_round (hd ss) \<Longrightarrow> \<not> final_round s" using Cons.prems(1) by (cases ss) auto
  obtain st1 where st1: "foldE (context_step ids) st (segment_entries s) = Inr st1"
    "finish_context st1 = finish_context st @ segment_messages s" "ready st1"
    "\<not> final_round s \<longrightarrow> pending_text st1 = []"
    using segment_step[of st s ids] Cons.prems ok by auto
  obtain st2 where "foldE (context_step ids) st1 (concat (map segment_entries ss)) = Inr st2"
    "finish_context st2 = finish_context st1 @ concat (map segment_messages ss)"
    using Cons.IH[of st1] \<open>conversation ss\<close> Cons.prems(2) st1 hd by auto
  with st1 show ?case by (simp add: foldE_append)
qed simp

section \<open>The whole log\<close>

lemma tool_call_ids_filter:
  "tool_call_ids es = tool_call_ids (filter (\<lambda>ev. ev_type ev = TOOL_CALL) es)"
  by (induction es rule: rev_induct) (simp_all add: tool_call_ids_snoc split: json.split)

lemma tool_call_ids_of_calls:
  assumes "map (\<lambda>ev. (ev_type ev, ev_payload ev)) es = map (\<lambda>c. (TOOL_CALL, call_payload c)) cs"
    and "map ev_id es = map c_event cs" and "distinct (map c_event cs)"
  shows "list_all (know (tool_call_ids es)) cs"
  using assms
proof (induction cs arbitrary: es rule: rev_induct)
  case (snoc c cs)
  from snoc.prems(2) obtain fs ev where es: "es = fs @ [ev]" "map ev_id fs = map c_event cs"
    "ev_id ev = c_event c" by (cases es rule: rev_cases) auto
  have ev: "ev_type ev = TOOL_CALL" "ev_payload ev = call_payload c"
    and fs: "map (\<lambda>ev. (ev_type ev, ev_payload ev)) fs = map (\<lambda>c. (TOOL_CALL, call_payload c)) cs"
    using snoc.prems(1) by (simp_all add: es)
  have ids: "tool_call_ids es = (tool_call_ids fs)(c_event c \<mapsto> c_tool_id c)"
    by (simp add: es tool_call_ids_snoc ev call_payload_def)
  have "list_all (know (tool_call_ids fs)) cs"
    using snoc.IH[OF fs es(2)] snoc.prems(3) by simp
  moreover have "c_event x \<noteq> c_event c" if "x \<in> set cs" for x
  proof -
    have "c_event c \<notin> c_event ` set cs" using snoc.prems(3) by simp
    with that show ?thesis by (metis image_eqI)
  qed
  ultimately show ?case by (auto simp: ids know_def list_all_iff)
qed simp

lemma calls_of_entries:
  "filter (\<lambda>e. fst e = TOOL_CALL) (segment_entries s)
    = map (\<lambda>c. (TOOL_CALL, call_payload c)) (segment_calls s)"
proof (cases s)
  case (Round items closer)
  have "filter (\<lambda>e. fst e = TOOL_CALL) (map item_entry items)
    = map (\<lambda>c. (TOOL_CALL, call_payload c)) (calls items)"
  proof (induction items)
    case (Cons x items)
    then show ?case by (cases x) simp_all
  qed simp
  then show ?thesis
    by (cases closer) (auto simp: Round result_entry_def filter_empty_conv)
qed simp_all

text \<open>C13. A log the harness wrote for a conversation (prompts, user messages and turns, each turn
  streaming deltas and tool calls in any order, then the closing text if there was any, then
  one result per call) is folded back into exactly that conversation: per turn one
  assistant message, text before tool uses, and one tool message with the results in call
  order.\<close>

theorem build_context_conversation:
  assumes "conversation ss"
    and "map (\<lambda>ev. (ev_type ev, ev_payload ev)) es = concat (map segment_entries ss)"
    and "map ev_id (filter (\<lambda>ev. ev_type ev = TOOL_CALL) es)
      = map c_event (concat (map segment_calls ss))"
    and "distinct (map c_event (concat (map segment_calls ss)))"
  shows "vanilla_build_context es = Inr (concat (map segment_messages ss))"
proof -
  let ?calls = "filter (\<lambda>ev. ev_type ev = TOOL_CALL) es"
  have "map (\<lambda>ev. (ev_type ev, ev_payload ev)) ?calls
      = filter (\<lambda>e. fst e = TOOL_CALL) (map (\<lambda>ev. (ev_type ev, ev_payload ev)) es)"
    by (simp add: filter_map comp_def)
  also have "\<dots> = map (\<lambda>c. (TOOL_CALL, call_payload c)) (concat (map segment_calls ss))"
    unfolding assms(2)
    by (simp add: filter_concat map_concat comp_def calls_of_entries)
  finally have "list_all (know (tool_call_ids ?calls)) (concat (map segment_calls ss))"
    using assms(3,4) by (intro tool_call_ids_of_calls)
  then have know: "list_all (know (tool_call_ids es)) (concat (map segment_calls ss))"
    by (simp flip: tool_call_ids_filter)
  have "ready empty_context" "pending_text empty_context = []" "finish_context empty_context = []"
    by (simp_all add: ready_def empty_context_def finish_context_def flush_assistant_def
        flush_tool_results_def)
  with segments_loop[OF assms(1) know, of empty_context] obtain st
    where "foldE (context_step (tool_call_ids es)) empty_context
        (concat (map segment_entries ss)) = Inr st"
      and "finish_context st = concat (map segment_messages ss)" by auto
  then show ?thesis by (simp add: vanilla_build_context_def assms(2))
qed

end
