(* ===== verification/Profiles.thy ===== *)
theory Profiles
  imports Router_Types
begin

text \<open>
  \<open>harness/profiles.py\<close>: the profile model with its field bounds and cross-field rules, the
  loader's search order, and \<open>extends\<close> inheritance with its key-by-key merge. YAML parsing
  and pydantic's reading of a mapping into typed fields are third-party code: the loader
  takes them as arguments (\<open>files\<close> gives the parsed content of a named profile on the
  search path or in the package; \<open>schema\<close> reads a mapping into fields).
\<close>

section \<open>Errors and models\<close>

datatype profile_error =
    ProfileNotFoundError string
  | ProfileInheritanceError "string list"
  | ProfileValidationError string

datatype tool_format = Anthropic_Tool_Use | Openai_Function_Calling | Json_Schema

datatype compaction_strategy = Truncate | Summarize | File_Offload

definition SUPPORTED_COMPACTION_STRATEGIES :: "compaction_strategy set" where
  "SUPPORTED_COMPACTION_STRATEGIES = {Truncate}"

record context_config =
  max_context_tokens :: int
  effective_budget :: int
  compaction_threshold :: "int option"
  compaction_strategy :: compaction_strategy
  keep_last_n_events :: int

record stop_conditions =
  no_tool_calls_for :: int
  max_turns :: int
  max_duration_seconds :: "int option"

text \<open>Dates as day numbers.\<close>

record quirk =
  q_name :: string
  q_added :: int
  q_review_date :: int
  q_description :: string
  q_mitigation :: string
  q_enabled :: bool
  q_notes :: "string option"

record profile =
  pf_model :: model_config
  pf_context :: context_config
  pf_caching :: caching_config
  pf_tool_format :: tool_format
  pf_stop_conditions :: stop_conditions
  pf_error_handling :: error_handling
  pf_sampling :: sampling
  pf_quirks :: "quirk list"
  pf_pricing :: "pricing option"

section \<open>The default threshold\<close>

text \<open>
  \<open>int(effective_budget * 0.8)\<close> in IEEE double arithmetic, for a positive budget small
  enough not to overflow (below \<open>2 ^ 1023\<close>): the integer is rounded to 53 significant
  bits, multiplied by the double nearest to 0.8, which is \<open>7205759403792794 / 2 ^ 53\<close>, the
  product is rounded to 53 bits (half to even), and \<open>int\<close> truncates.
\<close>

fun bit_length :: "nat \<Rightarrow> nat" where
  "bit_length n = (if n = 0 then 0 else Suc (bit_length (n div 2)))"

declare bit_length.simps [simp del]

definition round_quotient :: "nat \<Rightarrow> nat \<Rightarrow> nat" where
  "round_quotient n k = (let q = n div 2 ^ k; r = n mod 2 ^ k in
     if 2 * r < 2 ^ k \<or> (2 * r = 2 ^ k \<and> even q) then q else q + 1)"

definition round53 :: "nat \<Rightarrow> nat" where
  "round53 n = (let k = bit_length n - 53 in if k = 0 then n else round_quotient n k * 2 ^ k)"

definition four_fifths :: "int \<Rightarrow> int" where
  "four_fifths b = int (round53 (round53 (nat b) * 7205759403792794) div 2 ^ 53)"

definition resolved_compaction_threshold :: "context_config \<Rightarrow> int" where
  "resolved_compaction_threshold c =
     (case compaction_threshold c of Some t \<Rightarrow> t | None \<Rightarrow> four_fifths (effective_budget c))"

section \<open>Validation\<close>

text \<open>The bounds declared on the fields.\<close>

definition context_bounds :: "context_config \<Rightarrow> bool" where
  "context_bounds c \<longleftrightarrow> 0 < max_context_tokens c \<and> 0 < effective_budget c
     \<and> (case compaction_threshold c of None \<Rightarrow> True | Some t \<Rightarrow> 0 < t) \<and> 0 < keep_last_n_events c"

definition stop_bounds :: "stop_conditions \<Rightarrow> bool" where
  "stop_bounds s \<longleftrightarrow> 1 \<le> no_tool_calls_for s \<and> 1 \<le> max_turns s
     \<and> (case max_duration_seconds s of None \<Rightarrow> True | Some t \<Rightarrow> 0 < t)"

definition quirk_ok :: "quirk \<Rightarrow> bool" where
  "quirk_ok q \<longleftrightarrow> q_name q \<noteq> [] \<and> q_description q \<noteq> [] \<and> q_mitigation q \<noteq> []
     \<and> q_added q < q_review_date q"

definition sampling_bounds :: "sampling \<Rightarrow> bool" where
  "sampling_bounds s \<longleftrightarrow> 0 \<le> temperature s \<and> temperature s \<le> 2 \<and> 0 \<le> top_p s \<and> top_p s \<le> 1
     \<and> 0 < max_tokens s"

definition error_handling_bounds :: "error_handling \<Rightarrow> bool" where
  "error_handling_bounds e \<longleftrightarrow> 0 \<le> max_retries e \<and> 0 < backoff_base_seconds e
     \<and> 1 \<le> backoff_multiplier e"

definition pricing_bounds :: "pricing \<Rightarrow> bool" where
  "pricing_bounds p \<longleftrightarrow> 0 \<le> input_per_million p \<and> 0 \<le> output_per_million p
     \<and> (case cached_input_per_million p of None \<Rightarrow> True | Some c \<Rightarrow> 0 \<le> c)"

definition field_bounds :: "profile \<Rightarrow> bool" where
  "field_bounds p \<longleftrightarrow> context_bounds (pf_context p) \<and> stop_bounds (pf_stop_conditions p)
     \<and> list_all quirk_ok (pf_quirks p) \<and> sampling_bounds (pf_sampling p)
     \<and> error_handling_bounds (pf_error_handling p)
     \<and> (case pf_pricing p of None \<Rightarrow> True | Some r \<Rightarrow> pricing_bounds r)"

definition cross_field_rules :: "profile \<Rightarrow> string + profile" where
  "cross_field_rules p =
     (let ctx = pf_context p; threshold = resolved_compaction_threshold ctx in
      if max_context_tokens ctx < effective_budget ctx
      then Inl ''context.effective_budget must be <= context.max_tokens''
      else if effective_budget ctx \<le> threshold
      then Inl ''context.compaction_threshold must be < context.effective_budget''
      else if compaction_strategy ctx \<notin> SUPPORTED_COMPACTION_STRATEGIES
      then Inl ''context.compaction_strategy is not supported in v0.1''
      else Inr p)"

definition to_router_profile :: "profile \<Rightarrow> router_profile" where
  "to_router_profile p =
     \<lparr>rp_model = pf_model p, rp_caching = pf_caching p, rp_sampling = pf_sampling p,
      rp_error_handling = pf_error_handling p, rp_pricing = pf_pricing p\<rparr>"

section \<open>Inheritance\<close>

text \<open>\<open>dict(parent)\<close> updated with the child's items in order; nested mappings merge.\<close>

fun deep_merge :: "dict \<Rightarrow> dict \<Rightarrow> dict" where
  "deep_merge parent [] = parent"
| "deep_merge parent ((key, child_value) # rest) =
     deep_merge
       (AList.update key
          (case (dget parent key, child_value) of
             (JObj p, JObj c) \<Rightarrow> JObj (deep_merge p c)
           | _ \<Rightarrow> child_value) parent) rest"

definition MAX_EXTENDS_DEPTH :: nat where
  "MAX_EXTENDS_DEPTH = 16"

text \<open>
  \<open>_read\<close>: the first search path that holds the file, else the bundled package. A source is
  \<open>None\<close> when it has no such file, \<open>Some None\<close> when YAML parsing of it fails, and otherwise
  the parsed value; an empty document is an empty mapping.
\<close>

type_synonym yaml_source = "string \<Rightarrow> json option option"

definition parse_yaml :: "json option \<Rightarrow> profile_error + dict" where
  "parse_yaml doc =
     (case doc of
        None \<Rightarrow> Inl (ProfileValidationError ''invalid YAML'')
      | Some JNull \<Rightarrow> Inr []
      | Some (JObj d) \<Rightarrow> Inr d
      | Some _ \<Rightarrow> Inl (ProfileValidationError ''top-level YAML must be a mapping''))"

fun read_profile :: "yaml_source list \<Rightarrow> yaml_source \<Rightarrow> string \<Rightarrow> profile_error + dict" where
  "read_profile [] bundled name =
     (case bundled name of
        None \<Rightarrow> Inl (ProfileNotFoundError name)
      | Some doc \<Rightarrow> parse_yaml doc)"
| "read_profile (p # paths) bundled name =
     (case p name of
        Some doc \<Rightarrow> parse_yaml doc
      | None \<Rightarrow> read_profile paths bundled name)"

function resolve ::
  "yaml_source list \<Rightarrow> yaml_source \<Rightarrow> string \<Rightarrow> string list \<Rightarrow> profile_error + dict" where
  "resolve paths bundled name visited =
     (if name \<in> set visited then Inl (ProfileInheritanceError (visited @ [name]))
      else if MAX_EXTENDS_DEPTH \<le> length visited then Inl (ProfileInheritanceError [name])
      else bindE (read_profile paths bundled name) (\<lambda>data.
        let parent_name = dget data ''extends'';
            rest = AList.delete ''extends'' data
        in case parent_name of
             JNull \<Rightarrow> Inr rest
           | JStr parent \<Rightarrow>
               bindE (resolve paths bundled parent (visited @ [name])) (\<lambda>base.
                 Inr (deep_merge base rest))
           | _ \<Rightarrow> Inl (ProfileValidationError ''extends must be a string'')))"
  by pat_completeness auto
termination
  by (relation "measure (\<lambda>(_, _, _, visited). MAX_EXTENDS_DEPTH - length visited)") auto

declare resolve.simps [simp del]

text \<open>\<open>schema\<close> is pydantic's reading of the mapping into fields of the declared types.\<close>

definition load_profile ::
  "(dict \<Rightarrow> profile option) \<Rightarrow> yaml_source list \<Rightarrow> yaml_source \<Rightarrow> string
    \<Rightarrow> profile_error + profile" where
  "load_profile schema paths bundled name =
     bindE (resolve paths bundled name []) (\<lambda>raw.
       case schema raw of
         None \<Rightarrow> Inl (ProfileValidationError ''fields'')
       | Some p \<Rightarrow>
           if \<not> field_bounds p then Inl (ProfileValidationError ''bounds'')
           else (case cross_field_rules p of
                   Inl e \<Rightarrow> Inl (ProfileValidationError e)
                 | Inr p \<Rightarrow> Inr p))"

section \<open>The default threshold is exact\<close>

lemma bit_length_le: "n < 2 ^ j \<Longrightarrow> bit_length n \<le> j"
proof (induction j arbitrary: n)
  case 0
  then show ?case by (simp add: bit_length.simps)
next
  case (Suc j)
  then have "n div 2 < 2 ^ j" by (simp add: less_mult_imp_div_less)
  with Suc.IH have "bit_length (n div 2) \<le> j" by blast
  then show ?case by (subst bit_length.simps) simp
qed

lemma round53_upper: "n < 2 ^ (53 + j) \<Longrightarrow> round53 n \<le> n + 2 ^ j"
proof -
  assume "n < 2 ^ (53 + j)"
  then have k: "bit_length n - 53 \<le> j" using bit_length_le by fastforce
  define k where "k = bit_length n - 53"
  have "round_quotient n k * 2 ^ k \<le> (n div 2 ^ k + 1) * 2 ^ k"
    by (intro mult_right_mono) (simp_all add: round_quotient_def Let_def)
  also have "\<dots> \<le> n + 2 ^ k" by (simp add: algebra_simps)
  also have "\<dots> \<le> n + 2 ^ j" using k by (simp add: k_def)
  finally show ?thesis by (simp add: round53_def k_def Let_def)
qed

lemma round53_lower:
  assumes "n < 2 ^ 106" and "q * 2 ^ 53 \<le> n"
  shows "q * 2 ^ 53 \<le> round53 n"
proof -
  define k where "k = bit_length n - 53"
  have k: "k \<le> 53" using bit_length_le[OF assms(1)] by (simp add: k_def)
  then have split: "q * 2 ^ 53 = q * 2 ^ (53 - k) * 2 ^ k"
    by (simp add: power_add[symmetric])
  have "q * 2 ^ (53 - k) \<le> n div 2 ^ k"
    using assms(2) unfolding split by (simp add: less_eq_div_iff_mult_less_eq)
  also have "\<dots> \<le> round_quotient n k" by (simp add: round_quotient_def Let_def)
  finally have "q * 2 ^ (53 - k) * 2 ^ k \<le> round_quotient n k * 2 ^ k" by simp
  then have "q * 2 ^ 53 \<le> round_quotient n k * 2 ^ k" unfolding split .
  then show ?thesis using assms(2) by (simp add: round53_def Let_def flip: k_def)
qed

lemma four_fifths_nat:
  assumes "(b::nat) < 2 ^ 50"
  shows "round53 (round53 b * 7205759403792794) div 2 ^ 53 = 4 * b div 5"
proof -
  define n where "n = b * 7205759403792794"
  define q where "q = 4 * b div 5"
  have b: "round53 b = b"
    using bit_length_le[of b 53] assms by (simp add: round53_def Let_def)
  have n: "5 * n = 4 * b * 2 ^ 53 + 2 * b" by (simp add: n_def)
  have q: "5 * q \<le> 4 * b" "4 * b \<le> 5 * q + 4" by (simp_all add: q_def)
  have "n < 2 ^ (53 + 50)" using assms by (simp add: n_def)
  then have up: "round53 n \<le> n + 2 ^ 50" by (rule round53_upper)
  have low: "q * 2 ^ 53 \<le> round53 n"
    using assms n q by (intro round53_lower) (simp_all add: n_def)
  have "round53 n < (q + 1) * 2 ^ 53" using up n q assms by simp
  with low have "round53 n div 2 ^ 53 = q"
    by (intro div_nat_eqI) (simp_all add: mult.commute)
  then show ?thesis by (simp add: b n_def q_def)
qed

text \<open>The default compaction threshold, computed in floating point as
  \<open>int(effective_budget * 0.8)\<close>, is exactly four fifths of the budget rounded down, for
  every budget below 2 to the 50, and so always passes the loader's rule that it be
  below the budget.\<close>

theorem default_threshold_exact:
  assumes "compaction_threshold c = None" and "0 < effective_budget c"
    and "effective_budget c < 2 ^ 50"
  shows "resolved_compaction_threshold c = 4 * effective_budget c div 5
    \<and> resolved_compaction_threshold c < effective_budget c"
proof -
  have "nat (effective_budget c) < 2 ^ 50" using assms(2,3) by simp
  from four_fifths_nat[OF this]
  have "four_fifths (effective_budget c) = int (4 * nat (effective_budget c) div 5)"
    by (simp only: four_fifths_def)
  also have "\<dots> = 4 * effective_budget c div 5"
    using assms(2) by (simp add: zdiv_int)
  finally show ?thesis using assms by (simp add: resolved_compaction_threshold_def)
qed

section \<open>Key-by-key merge\<close>

definition merge_value :: "json \<Rightarrow> json \<Rightarrow> json" where
  "merge_value old new =
     (case (old, new) of (JObj p, JObj c) \<Rightarrow> JObj (deep_merge p c) | _ \<Rightarrow> new)"

lemma deep_merge_Cons:
  "deep_merge p ((k, v) # c) = deep_merge (AList.update k (merge_value (dget p k) v) p) c"
  by (simp add: merge_value_def)

lemma dget_cong: "map_of p k = map_of p' k \<Longrightarrow> dget p k = dget p' k"
  by (simp add: dget_def)

lemma deep_merge_fresh:
  "k \<notin> fst ` set c \<Longrightarrow> map_of (deep_merge p c) k = map_of p k"
proof (induction c arbitrary: p)
  case (Cons kv c)
  then show ?case by (cases kv) (auto simp: deep_merge_Cons update_conv simp del: deep_merge.simps(2))
qed simp

text \<open>Inheritance merges key by key: a key the child sets has the child's value,
  except that two mappings merge recursively, and every other key keeps the parent's.\<close>

theorem deep_merge_lookup:
  assumes "distinct (map fst child)"
  shows "map_of (deep_merge parent child) k =
    (case map_of child k of
       None \<Rightarrow> map_of parent k
     | Some v \<Rightarrow>
         Some (case (dget parent k, v) of
                 (JObj p, JObj c) \<Rightarrow> JObj (deep_merge p c)
               | _ \<Rightarrow> v))"
  unfolding merge_value_def[symmetric] using assms
proof (induction child arbitrary: parent)
  case (Cons kv c)
  obtain k' v where kv: "kv = (k', v)" by (cases kv)
  show ?case
  proof (cases "k = k'")
    case True
    with Cons.prems have "k \<notin> fst ` set c" by (auto simp: kv)
    then show ?thesis
      by (simp add: kv True deep_merge_Cons deep_merge_fresh update_conv del: deep_merge.simps(2))
  next
    case False
    with Cons.prems show ?thesis
      by (simp add: kv deep_merge_Cons Cons.IH update_conv del: deep_merge.simps(2)
          split: option.split)
  qed
qed simp

section \<open>Inheritance chains\<close>

text \<open>\<open>chain paths bundled names datas\<close>: reading \<open>names\<close> one after the other gives \<open>datas\<close>,
  each naming the next in \<open>extends\<close> and the last naming none.\<close>

fun chain :: "yaml_source list \<Rightarrow> yaml_source \<Rightarrow> string list \<Rightarrow> dict list \<Rightarrow> bool" where
  "chain paths bundled [n] [d] \<longleftrightarrow>
     read_profile paths bundled n = Inr d \<and> dget d ''extends'' = JNull"
| "chain paths bundled (n # n' # ns) (d # ds) \<longleftrightarrow>
     read_profile paths bundled n = Inr d \<and> dget d ''extends'' = JStr n'
     \<and> chain paths bundled (n' # ns) ds"
| "chain paths bundled _ _ \<longleftrightarrow> False"

fun merged :: "dict list \<Rightarrow> dict" where
  "merged [] = []"
| "merged [d] = AList.delete ''extends'' d"
| "merged (d # ds) = deep_merge (merged ds) (AList.delete ''extends'' d)"

lemma resolve_chain_visited:
  assumes "chain paths bundled ns ds" and "distinct (visited @ ns)"
    and "length visited + length ns \<le> MAX_EXTENDS_DEPTH"
  shows "resolve paths bundled (hd ns) visited = Inr (merged ds)"
  using assms
proof (induction paths bundled ns ds arbitrary: visited rule: chain.induct)
  case (1 paths bundled n d)
  then show ?case by (subst resolve.simps) (simp add: Let_def)
next
  case (2 paths bundled n n' ns d ds)
  then have "resolve paths bundled (hd (n' # ns)) (visited @ [n]) = Inr (merged ds)" by auto
  moreover obtain d' ds' where "ds = d' # ds'" using 2 by (cases ds) auto
  ultimately show ?case using 2(2-) by (subst resolve.simps) (auto simp: Let_def)
qed simp_all

text \<open>C29. A chain of at most sixteen distinct profiles, each extending the next, resolves
  to the merge of the whole chain, nearest profile last.\<close>

theorem resolve_chain:
  assumes "chain paths bundled names datas" and "distinct names" and "length names \<le> 16"
  shows "resolve paths bundled (hd names) [] = Inr (merged datas)"
  using resolve_chain_visited[OF assms(1), of "[]"] assms(2,3)
  by (simp add: MAX_EXTENDS_DEPTH_def)

text \<open>C30. A set of profiles each of which reads well and extends another one of the set can
  only be a cycle or an endless chain; the loader reports it as an inheritance error
  instead of recursing forever.\<close>

theorem resolve_cycle:
  assumes "\<forall>n \<in> S. \<exists>d n'. read_profile paths bundled n = Inr d
      \<and> dget d ''extends'' = JStr n' \<and> n' \<in> S"
    and "name \<in> S"
  shows "\<exists>c. resolve paths bundled name visited = Inl (ProfileInheritanceError c)"
  using assms(2)
proof (induction "MAX_EXTENDS_DEPTH - length visited" arbitrary: name visited
    rule: less_induct)
  case less
  show ?case
  proof (cases "name \<in> set visited \<or> MAX_EXTENDS_DEPTH \<le> length visited")
    case True
    then show ?thesis by (subst resolve.simps) auto
  next
    case False
    obtain d n' where d: "read_profile paths bundled name = Inr d"
      "dget d ''extends'' = JStr n'" "n' \<in> S"
      using assms(1) less.prems by blast
    have "MAX_EXTENDS_DEPTH - length (visited @ [name]) < MAX_EXTENDS_DEPTH - length visited"
      using False by (simp only: length_append list.size de_Morgan_disj not_le) arith
    from less.hyps[OF this d(3)] obtain c
      where "resolve paths bundled n' (visited @ [name]) = Inl (ProfileInheritanceError c)" ..
    with False d show ?thesis by (subst resolve.simps) (simp add: Let_def)
  qed
qed

end
