(* ===== verification/Compaction.thy ===== *)
theory Compaction
  imports Profiles Session_Store Python_Text
begin

text \<open>
  \<open>harness/compaction.py\<close>: the token estimate of an event list, the active view a
  compaction record leaves, and the truncate strategy that plans such a record.
\<close>

definition CHARS_PER_TOKEN :: nat where
  "CHARS_PER_TOKEN = 4"

definition estimate_event_tokens :: "event list \<Rightarrow> int" where
  "estimate_event_tokens es =
     max 1 (int (sum_list (map (\<lambda>e. length (json_dumps False (JObj (ev_payload e)))) es)
                 div CHARS_PER_TOKEN))"

definition is_compaction_event :: "event \<Rightarrow> bool" where
  "is_compaction_event e \<longleftrightarrow>
     ev_type e = HARNESS_EVENT \<and> dget (ev_payload e) ''type'' = JStr ''compaction''"

text \<open>
  \<open>{int(seq) for seq in raw if isinstance(seq, int)}\<close>: the characters of a string and the
  keys of a mapping are no integers; null, a number or a boolean is not iterable.
\<close>

fun int_members :: "json \<Rightarrow> py_error + int list" where
  "int_members (JList xs) = Inr (List.map_filter as_int xs)"
| "int_members (JStr s) = Inr []"
| "int_members (JObj d) = Inr []"
| "int_members _ = Inl TypeError"

fun latest_compaction :: "event option \<Rightarrow> event list \<Rightarrow> event option" where
  "latest_compaction latest [] = latest"
| "latest_compaction latest (e # es) =
     latest_compaction (if is_compaction_event e then Some e else latest) es"

definition apply_compaction_view :: "event list \<Rightarrow> py_error + event list" where
  "apply_compaction_view es =
     (case latest_compaction None es of
        None \<Rightarrow> Inr es
      | Some latest \<Rightarrow>
          bindE (int_members (dget_or (ev_payload latest) ''dropped_sequences'' (JList [])))
            (\<lambda>dropped. Inr (filter (\<lambda>e. ev_sequence e \<notin> set dropped) es)))"

record compaction_decision =
  dropped_sequences :: "int list"
  kept_sequences :: "int list"
  estimated_tokens_before :: int
  estimated_tokens_after :: int
  strategy :: string

definition to_payload :: "compaction_decision \<Rightarrow> dict" where
  "to_payload d =
     [(''type'', JStr ''compaction''),
      (''strategy'', JStr (strategy d)),
      (''dropped_sequences'', JList (map JInt (dropped_sequences d))),
      (''kept_sequences'', JList (map JInt (kept_sequences d))),
      (''estimated_tokens_before'', JInt (estimated_tokens_before d)),
      (''estimated_tokens_after'', JInt (estimated_tokens_after d))]"

definition should_compact :: "event list \<Rightarrow> profile \<Rightarrow> bool" where
  "should_compact es p =
     (resolved_compaction_threshold (pf_context p) \<le> estimate_event_tokens es)"

definition first_user_seq :: "event list \<Rightarrow> int option" where
  "first_user_seq es = map_option ev_sequence (find (\<lambda>e. ev_type e = USER_MESSAGE) es)"

definition keep_indices :: "event list \<Rightarrow> int \<Rightarrow> nat set" where
  "keep_indices es keep_last_n =
     set (filter (\<lambda>idx. is_compaction_event (es ! idx)) [0..<length es])
     \<union> set (filter (\<lambda>idx. first_user_seq es = Some (ev_sequence (es ! idx))) [0..<length es])
     \<union> set [nat (max 0 (int (length es) - keep_last_n))..<length es]"

definition plan_truncate :: "event list \<Rightarrow> profile \<Rightarrow> compaction_decision option" where
  "plan_truncate es p =
     (let keep_last_n = keep_last_n_events (pf_context p) in
      if length es = 0 then None
      else let keep = keep_indices es keep_last_n;
               kept = map (\<lambda>i. es ! i) (sorted_list_of_set keep);
               dropped = map snd (filter (\<lambda>(idx, e). idx \<notin> keep) (enumerate 0 es))
           in if dropped = [] then None
              else Some
                \<lparr>dropped_sequences = map ev_sequence dropped,
                 kept_sequences = map ev_sequence kept,
                 estimated_tokens_before = estimate_event_tokens es,
                 estimated_tokens_after = estimate_event_tokens kept,
                 strategy = ''truncate''\<rparr>)"

section \<open>The planned record\<close>

text \<open>The events outside the last \<open>n\<close>, and which of them the record drops.\<close>

definition old_events :: "profile \<Rightarrow> event list \<Rightarrow> event list" where
  "old_events p es = take (length es - nat (keep_last_n_events (pf_context p))) es"

definition droppable :: "event list \<Rightarrow> event \<Rightarrow> bool" where
  "droppable es e \<longleftrightarrow> \<not> is_compaction_event e \<and> first_user_seq es \<noteq> Some (ev_sequence e)"

definition kept_events :: "profile \<Rightarrow> event list \<Rightarrow> event list" where
  "kept_events p es =
     filter (\<lambda>e. \<not> droppable es e) (old_events p es)
     @ drop (length es - nat (keep_last_n_events (pf_context p))) es"

lemma keep_indices_iff:
  assumes "0 \<le> n"
  shows "i \<in> keep_indices es n \<longleftrightarrow>
    i < length es \<and> (\<not> droppable es (es ! i) \<or> length es - nat n \<le> i)"
proof -
  have "nat (max 0 (int (length es) - n)) = length es - nat n" using assms by simp
  then show ?thesis unfolding keep_indices_def droppable_def by auto
qed

lemma filter_take_nth:
  "filter P (take m xs) = map ((!) xs) (filter (\<lambda>i. P (xs ! i)) [0..<min m (length xs)])"
proof -
  have "take m xs = map ((!) xs) [0..<min m (length xs)]"
    by (rule nth_equalityI) auto
  then have "filter P (take m xs) = filter P (map ((!) xs) [0..<min m (length xs)])" by simp
  then show ?thesis by (simp add: filter_map comp_def)
qed

lemma drop_nth: "drop m xs = map ((!) xs) [m..<length xs]"
  by (rule nth_equalityI) auto

lemma kept_indices_sorted:
  assumes "0 \<le> n" "m = length es - nat n"
  shows "sorted_list_of_set (keep_indices es n) =
    filter (\<lambda>i. \<not> droppable es (es ! i)) [0..<m] @ [m..<length es]"
proof (rule sorted_distinct_set_unique)
  have "finite (keep_indices es n)" by (simp add: keep_indices_def)
  then show "set (sorted_list_of_set (keep_indices es n)) =
      set (filter (\<lambda>i. \<not> droppable es (es ! i)) [0..<m] @ [m..<length es])"
    using assms by (auto simp: keep_indices_iff)
  show "sorted (filter (\<lambda>i. \<not> droppable es (es ! i)) [0..<m] @ [m..<length es])"
    by (auto simp: sorted_append intro: sorted_wrt_filter)
qed auto

lemma kept_by_index:
  assumes "0 \<le> n" "n = keep_last_n_events (pf_context p)"
  shows "map ((!) es) (sorted_list_of_set (keep_indices es n)) = kept_events p es"
  unfolding kept_events_def old_events_def assms(2)[symmetric]
  by (simp add: kept_indices_sorted[OF assms(1) refl] filter_take_nth drop_nth min_absorb1)

lemma dropped_by_index:
  assumes "0 \<le> n" "n = keep_last_n_events (pf_context p)"
  shows "map snd (filter (\<lambda>(idx, e). idx \<notin> keep_indices es n) (enumerate 0 es))
    = filter (droppable es) (old_events p es)"
proof -
  have e: "enumerate 0 es = map (\<lambda>i. (i, es ! i)) [0..<length es]"
    by (rule nth_equalityI) (auto simp: nth_enumerate_eq)
  have i: "filter (\<lambda>i. i \<notin> keep_indices es n) [0..<length es]
      = filter (\<lambda>i. droppable es (es ! i)) [0..<length es - nat n]"
  proof -
    have "[0..<length es] = [0..<length es - nat n] @ [length es - nat n..<length es]"
      by (metis diff_le_self le0 upt_add_eq_append le_add_diff_inverse add_0)
    then show ?thesis
      using assms(1) by (auto simp: keep_indices_iff filter_empty_conv intro: filter_cong)
  qed
  show ?thesis
    unfolding old_events_def assms(2)[symmetric]
    by (simp add: e filter_map comp_def case_prod_beta i filter_take_nth min_absorb1)
qed

text \<open>C28. The index-set code of \<open>plan_truncate\<close> computes this: of the events older than the
  last \<open>keep_last_n_events\<close> it drops all but compaction records and the first user
  message, keeps everything else in order, and plans nothing when nothing would go.\<close>

theorem plan_truncate_spec:
  assumes "0 < keep_last_n_events (pf_context p)"
  shows "plan_truncate es p =
    (let gone = filter (droppable es) (old_events p es); kept = kept_events p es in
     if gone = [] then None
     else Some \<lparr>dropped_sequences = map ev_sequence gone,
                kept_sequences = map ev_sequence kept,
                estimated_tokens_before = estimate_event_tokens es,
                estimated_tokens_after = estimate_event_tokens kept,
                strategy = ''truncate''\<rparr>)"
proof -
  have n: "0 \<le> keep_last_n_events (pf_context p)" using assms by simp
  show ?thesis
    unfolding plan_truncate_def Let_def kept_by_index[OF n refl] dropped_by_index[OF n refl]
    by (simp add: old_events_def)
qed

lemma plan_truncate_Some:
  assumes "plan_truncate es p = Some d" and "0 < keep_last_n_events (pf_context p)"
  shows "dropped_sequences d = map ev_sequence (filter (droppable es) (old_events p es))"
    and "filter (droppable es) (old_events p es) \<noteq> []"
proof -
  have n: "0 \<le> keep_last_n_events (pf_context p)" using assms(2) by simp
  have "filter (droppable es) (old_events p es) \<noteq> [] \<and>
    dropped_sequences d = map ev_sequence (filter (droppable es) (old_events p es))"
    using assms(1)
    unfolding plan_truncate_def Let_def kept_by_index[OF n refl] dropped_by_index[OF n refl]
    by (auto split: if_splits)
  then show "dropped_sequences d = map ev_sequence (filter (droppable es) (old_events p es))"
    and "filter (droppable es) (old_events p es) \<noteq> []" by blast+
qed

section \<open>The view after a compaction\<close>

definition compaction_record :: "compaction_decision \<Rightarrow> event \<Rightarrow> bool" where
  "compaction_record d r \<longleftrightarrow> ev_type r = HARNESS_EVENT \<and> ev_payload r = to_payload d"

lemma latest_compaction_append:
  "latest_compaction l (es @ fs) = latest_compaction (latest_compaction l es) fs"
  by (induction es arbitrary: l) auto

lemma map_filter_as_int [simp]: "List.map_filter as_int (map JInt xs) = xs"
  by (induction xs) (simp_all add: map_filter_simps)

lemma view_after_record:
  assumes "compaction_record d r"
  shows "apply_compaction_view (es @ [r]) =
    Inr (filter (\<lambda>e. ev_sequence e \<notin> set (dropped_sequences d)) (es @ [r]))"
proof -
  have "is_compaction_event r"
    and "dget_or (ev_payload r) ''dropped_sequences'' (JList [])
      = JList (map JInt (dropped_sequences d))"
    using assms
    by (simp_all add: compaction_record_def is_compaction_event_def to_payload_def)
  then show ?thesis by (simp add: apply_compaction_view_def latest_compaction_append)
qed

lemma view_without_record:
  "\<not> (\<exists>e \<in> set es. is_compaction_event e) \<Longrightarrow> apply_compaction_view es = Inr es"
proof -
  have "\<not> (\<exists>e \<in> set es. is_compaction_event e) \<Longrightarrow> latest_compaction l es = l" for l
    by (induction es) auto
  then show "\<not> (\<exists>e \<in> set es. is_compaction_event e) \<Longrightarrow> ?thesis"
    by (simp add: apply_compaction_view_def)
qed

lemma filter_distinct_image:
  assumes "distinct (map f (xs @ ys))"
  shows "filter (\<lambda>x. f x \<notin> f ` {y \<in> set xs. P y}) (xs @ ys) = filter (\<lambda>x. \<not> P x) xs @ ys"
proof -
  have inj: "inj_on f (set (xs @ ys))" and disj: "set xs \<inter> set ys = {}"
    using assms unfolding distinct_map set_append by (blast, auto)
  have "filter (\<lambda>x. f x \<notin> f ` {y \<in> set xs. P y}) xs = filter (\<lambda>x. \<not> P x) xs"
    using inj by (intro filter_cong) (auto simp: inj_on_def)
  moreover have "filter (\<lambda>x. f x \<notin> f ` {y \<in> set xs. P y}) ys = ys"
    using inj disj by (subst filter_True) (auto simp: inj_on_def)
  ultimately show ?thesis by simp
qed

lemma one_in_distinct:
  assumes "distinct (map f xs)" and "\<And>x. x \<in> set xs \<Longrightarrow> P x \<Longrightarrow> f x = a"
  shows "length (filter P xs) \<le> 1"
  using assms
proof (induction xs)
  case (Cons x xs)
  show ?case
  proof (cases "P x")
    case True
    with Cons.prems have "\<not> P y" if "y \<in> set xs" for y
      using that by (metis image_eqI list.set_intros distinct.simps(2) list.set_map list.simps(9))
    then have "filter P xs = []" by (auto simp: filter_empty_conv)
    with True show ?thesis by simp
  next
    case False
    have "length (filter P xs) \<le> 1"
      by (rule Cons.IH) (use Cons.prems in auto)
    with False show ?thesis by simp
  qed
qed simp

text \<open>On a log with no earlier compaction, once the planned record is appended the active
  view is exactly the kept events followed by the record, at most
  \<open>keep_last_n_events + 2\<close> events.\<close>

theorem first_compaction_view:
  assumes "plan_truncate es p = Some d" and "0 < keep_last_n_events (pf_context p)"
    and "\<not> (\<exists>e \<in> set es. is_compaction_event e)"
    and "distinct (map ev_sequence (es @ [r]))" and "compaction_record d r"
  shows "apply_compaction_view (es @ [r]) = Inr (kept_events p es @ [r])
    \<and> int (length (kept_events p es @ [r])) \<le> keep_last_n_events (pf_context p) + 2"
proof -
  define tail where "tail = drop (length es - nat (keep_last_n_events (pf_context p))) es"
  have es: "es @ [r] = old_events p es @ (tail @ [r])"
    unfolding tail_def old_events_def by (metis append_assoc append_take_drop_id)
  have dropped: "set (dropped_sequences d)
      = ev_sequence ` {y \<in> set (old_events p es). droppable es y}"
    using plan_truncate_Some(1)[OF assms(1,2)] by auto
  have view: "apply_compaction_view (es @ [r]) = Inr (kept_events p es @ [r])"
    unfolding view_after_record[OF assms(5)] dropped
    by (simp only: es filter_distinct_image[OF assms(4)[unfolded es]])
      (simp add: kept_events_def tail_def)
  have "length (filter (\<lambda>e. \<not> droppable es e) (old_events p es)) \<le> 1"
  proof (rule one_in_distinct)
    show "distinct (map ev_sequence (old_events p es))" using assms(4) unfolding es by simp
    fix x assume "x \<in> set (old_events p es)" "\<not> droppable es x"
    with assms(3) show "ev_sequence x = the (first_user_seq es)"
      by (auto simp: droppable_def old_events_def dest: in_set_takeD)
  qed
  then have "length (kept_events p es) \<le> 1 + nat (keep_last_n_events (pf_context p))"
    by (simp add: kept_events_def)
  with assms(2) view show ?thesis by simp
qed

text \<open>A second record supersedes the first one: it is planned on the active view, lists only
  events of that view, and so every event the first record had dropped is back in the view
  after it.\<close>

theorem second_compaction_restores:
  assumes "apply_compaction_view es = Inr v" and "plan_truncate v p = Some d"
    and "0 < keep_last_n_events (pf_context p)"
    and "distinct (map ev_sequence (es @ [r]))" and "compaction_record d r"
    and "e \<in> set es" and "e \<notin> set v"
  shows "\<exists>w. apply_compaction_view (es @ [r]) = Inr w \<and> e \<in> set w"
proof -
  have "set v \<subseteq> set es"
    using assms(1)
    by (auto simp: apply_compaction_view_def bindE_Inr split: option.splits)
  moreover have "set (dropped_sequences d) \<subseteq> ev_sequence ` set v"
    using plan_truncate_Some(1)[OF assms(2,3)]
    by (auto simp: old_events_def dest: in_set_takeD)
  moreover have "inj_on ev_sequence (set es)" using assms(4) by (simp add: distinct_map)
  ultimately have "ev_sequence e \<notin> set (dropped_sequences d)"
    using assms(6,7) by (auto simp: inj_on_def subset_iff) blast
  with assms(6) show ?thesis by (simp add: view_after_record[OF assms(5)])
qed

end
