(* ===== verification/Examples_Context.thy ===== *)
theory Examples_Context
  imports Context_Turns Compaction Profiles
begin

text \<open>The properties of context building, compaction and profiles at concrete logs.\<close>

definition sample_profile :: profile where
  "sample_profile =
     \<lparr>pf_model = \<lparr>provider = ''anthropic'', model_id = ''m'', display_name = None,
        model_description = None\<rparr>,
      pf_context = \<lparr>max_context_tokens = 1000, effective_budget = 500, compaction_threshold = None,
        compaction_strategy = Truncate, keep_last_n_events = 1\<rparr>,
      pf_caching = \<lparr>provider_strategy = No_Caching, breakpoints = [], cache_ttl_seconds = 300\<rparr>,
      pf_tool_format = Anthropic_Tool_Use,
      pf_stop_conditions = \<lparr>no_tool_calls_for = 1, max_turns = 3, max_duration_seconds = None\<rparr>,
      pf_error_handling = \<lparr>retry_on_transient = True, max_retries = 3, backoff_base_seconds = 1,
        backoff_multiplier = 2\<rparr>,
      pf_sampling = \<lparr>temperature = 1, top_p = 1, max_tokens = 100\<rparr>,
      pf_quirks = [], pf_pricing = None\<rparr>"

definition log_event :: "int \<Rightarrow> event_type \<Rightarrow> dict \<Rightarrow> event" where
  "log_event n t p = \<lparr>ev_id = of_int n, ev_session = 7, ev_sequence = n, ev_type = t, ev_payload = p,
     ev_created_at = 0\<rparr>"

definition said :: "int \<Rightarrow> event_type \<Rightarrow> event" where
  "said n t = log_event n t [(''content'', JStr ''text''), (''is_complete'', JBool True)]"

definition long_log :: "event list" where
  "long_log = said 1 USER_MESSAGE # map (\<lambda>n. said n ASSISTANT_MESSAGE) [2, 3, 4, 5]"

lemma budget: "0 < keep_last_n_events (pf_context sample_profile)"
  by (simp add: sample_profile_def)

theorem plan_truncate_spec_witness:
  "plan_truncate long_log sample_profile =
    (let gone = filter (droppable long_log) (old_events sample_profile long_log);
         kept = kept_events sample_profile long_log in
     if gone = [] then None
     else Some \<lparr>dropped_sequences = map ev_sequence gone, kept_sequences = map ev_sequence kept,
                estimated_tokens_before = estimate_event_tokens long_log,
                estimated_tokens_after = estimate_event_tokens kept, strategy = ''truncate''\<rparr>)"
  by (rule plan_truncate_spec[OF budget])

definition first_decision :: compaction_decision where
  "first_decision = the (plan_truncate long_log sample_profile)"

lemma first_plan: "plan_truncate long_log sample_profile = Some first_decision"
proof -
  have "plan_truncate long_log sample_profile \<noteq> None" by code_simp
  then show ?thesis by (simp add: first_decision_def)
qed

definition record_event :: "int \<Rightarrow> compaction_decision \<Rightarrow> event" where
  "record_event n d = log_event n HARNESS_EVENT (to_payload d)"

lemma record_event_ok: "compaction_record d (record_event n d)"
  by (simp add: compaction_record_def record_event_def log_event_def)

theorem first_compaction_view_witness:
  "apply_compaction_view (long_log @ [record_event 6 first_decision])
    = Inr (kept_events sample_profile long_log @ [record_event 6 first_decision])"
proof -
  have "\<not> (\<exists>e \<in> set long_log. is_compaction_event e)" by code_simp
  moreover have "distinct (map ev_sequence (long_log @ [record_event 6 first_decision]))"
    by (simp add: long_log_def said_def record_event_def log_event_def)
  ultimately show ?thesis
    using first_compaction_view[OF first_plan budget _ _ record_event_ok] by blast
qed

definition longer_log :: "event list" where
  "longer_log = long_log @ [record_event 6 first_decision, said 7 ASSISTANT_MESSAGE,
     said 8 ASSISTANT_MESSAGE]"

definition longer_view :: "event list" where
  "longer_view = (case apply_compaction_view longer_log of Inr v \<Rightarrow> v | Inl _ \<Rightarrow> [])"

definition second_decision :: compaction_decision where
  "second_decision = the (plan_truncate longer_view sample_profile)"

text \<open>Event 2 was dropped by the first compaction and is back after the second.\<close>

theorem second_compaction_restores_witness:
  "\<exists>w. apply_compaction_view (longer_log @ [record_event 9 second_decision]) = Inr w
    \<and> said 2 ASSISTANT_MESSAGE \<in> set w"
proof (rule second_compaction_restores[OF _ _ budget _ record_event_ok])
  have "is_return (apply_compaction_view longer_log)" by code_simp
  then show "apply_compaction_view longer_log = Inr longer_view"
    by (auto simp: longer_view_def is_return_iff)
  have "plan_truncate longer_view sample_profile \<noteq> None" by code_simp
  then show "plan_truncate longer_view sample_profile = Some second_decision"
    by (simp add: second_decision_def)
  show "distinct (map ev_sequence (longer_log @ [record_event 9 second_decision]))"
    by (simp add: longer_log_def long_log_def said_def record_event_def log_event_def)
  show "said 2 ASSISTANT_MESSAGE \<in> set longer_log"
    by (simp add: longer_log_def long_log_def)
  show "said 2 ASSISTANT_MESSAGE \<notin> set longer_view" by code_simp
qed

section \<open>Context building\<close>

definition sample_call :: call where
  "sample_call = \<lparr>c_event = 3, c_tool_id = ''toolu_1'', c_name = ''bash'', c_input = [],
     c_result = [(''content'', JStr ''ok''), (''is_error'', JBool False)]\<rparr>"

definition sample_talk :: "segment list" where
  "sample_talk = [Prompt ''be brief'', Said ''list'',
     Round [Delta ''I '', Call sample_call, Delta ''look''] (Some (''I look'', [])),
     Round [Delta ''done''] (Some (''done'', []))]"

text \<open>The events of the conversation, with the id of the call's event.\<close>

definition talk_log :: "event list" where
  "talk_log = map (\<lambda>(n, t, p). \<lparr>ev_id = (if t = TOOL_CALL then 3 else of_nat n + 100),
      ev_session = 7, ev_sequence = int n + 1, ev_type = t, ev_payload = p, ev_created_at = 0\<rparr>)
    (enumerate 0 (concat (map segment_entries sample_talk)))"

theorem build_context_conversation_witness:
  "vanilla_build_context talk_log = Inr (concat (map segment_messages sample_talk))"
proof (rule build_context_conversation)
  show "conversation sample_talk" by code_simp
  show "map (\<lambda>ev. (ev_type ev, ev_payload ev)) talk_log = concat (map segment_entries sample_talk)"
    by code_simp
  show "map ev_id (filter (\<lambda>ev. ev_type ev = TOOL_CALL) talk_log)
      = map c_event (concat (map segment_calls sample_talk))"
    by code_simp
  show "distinct (map c_event (concat (map segment_calls sample_talk)))" by code_simp
qed

theorem results_answer_uses_witness:
  "answered {} (case vanilla_build_context (filter (\<lambda>e. ev_sequence e \<noteq> 2) talk_log) of
     Inl _ \<Rightarrow> [] | Inr ms \<Rightarrow> ms)"
proof -
  have "is_return (vanilla_build_context (filter (\<lambda>e. ev_sequence e \<noteq> 2) talk_log))" by code_simp
  then obtain ms where ms: "vanilla_build_context (filter (\<lambda>e. ev_sequence e \<noteq> 2) talk_log) = Inr ms"
    by (auto simp: is_return_iff)
  have "named_calls talk_log" "causal talk_log" by code_simp+
  from results_answer_uses[OF ms this] show ?thesis by (simp add: ms)
qed

section \<open>Profiles\<close>

theorem default_threshold_exact_witness:
  "resolved_compaction_threshold (pf_context sample_profile) = 400"
proof -
  have "compaction_threshold (pf_context sample_profile) = None"
    "0 < effective_budget (pf_context sample_profile)"
    "effective_budget (pf_context sample_profile) < 2 ^ 50"
    by (simp_all add: sample_profile_def)
  from default_threshold_exact[OF this] show ?thesis by (simp add: sample_profile_def)
qed

theorem deep_merge_lookup_witness:
  "map_of (deep_merge [(''a'', JObj [(''x'', JInt 1)])] [(''a'', JObj [(''y'', JInt 2)])]) ''a''
    = Some (JObj (deep_merge [(''x'', JInt 1)] [(''y'', JInt 2)]))"
  using deep_merge_lookup[of "[(''a'', JObj [(''y'', JInt 2)])]" "[(''a'', JObj [(''x'', JInt 1)])]" "''a''"]
  by simp

definition base_source :: yaml_source where
  "base_source n =
     (if n = ''base'' then Some (Some (JObj [(''k'', JInt 1)]))
      else if n = ''child'' then Some (Some (JObj [(''extends'', JStr ''base''), (''k'', JInt 2)]))
      else if n = ''loop'' then Some (Some (JObj [(''extends'', JStr ''loop'')]))
      else None)"

theorem resolve_chain_witness:
  "resolve [] base_source (hd [''child'', ''base'']) []
    = Inr (merged [[(''extends'', JStr ''base''), (''k'', JInt 2)], [(''k'', JInt 1)]])"
proof (rule resolve_chain)
  show "chain [] base_source [''child'', ''base'']
      [[(''extends'', JStr ''base''), (''k'', JInt 2)], [(''k'', JInt 1)]]"
    by code_simp
qed simp_all

theorem resolve_cycle_witness:
  "\<exists>c. resolve [] base_source ''loop'' [] = Inl (ProfileInheritanceError c)"
proof (rule resolve_cycle)
  show "\<forall>n \<in> {''loop''}. \<exists>d n'. read_profile [] base_source n = Inr d
      \<and> dget d ''extends'' = JStr n' \<and> n' \<in> {''loop''}"
    by (simp add: base_source_def parse_yaml_def)
qed simp

end
