(* ===== verification/Harness.thy ===== *)
theory Harness
  imports Adapters Compaction Session_Runs Sandbox_Service
begin

text \<open>
  The brain loop of \<open>harness/service.py\<close>. The state of a run is the database of the Session
  Service, the sandbox service, the state \<open>'w\<close> of everything outside (model provider, proxy
  tools, clocks, random ids) and the ids of the sandboxes this run has used; the components
  the runtime is constructed with are the fields of \<open>harness\<close>. A model response is the list
  of chunks the router yields and the exception that ends it, if one does.
\<close>

section \<open>State and collaborators\<close>

record ('b, 'w) run_state =
  rt_db :: db
  rt_sandbox :: "'b sandbox"
  rt_world :: 'w
  rt_provisioned :: "string list"

record ('b, 'w) harness =
  h_router :: "router_profile \<Rightarrow> message list \<Rightarrow> tool_def list option
    \<Rightarrow> 'w \<Rightarrow> (model_chunk list \<times> exn option) \<times> 'w"
  h_backend :: "'b backend option"
  h_proxy :: "(string \<Rightarrow> dict \<Rightarrow> uuid \<Rightarrow> ('w, tool_result) prog) option"
  h_proxy_schemas :: "(string \<times> tool_def) list"
  h_load_profile :: "string \<Rightarrow> exn + profile"
  h_adapters :: "(string \<times> framework) list"
  h_validate_recipe :: "dict \<Rightarrow> exn + recipe"
  h_validate_usage :: "dict \<Rightarrow> exn + usage"
  h_now :: "'w \<Rightarrow> int \<times> 'w"
  h_monotonic :: "'w \<Rightarrow> rat \<times> 'w"
  h_uuid4 :: "'w \<Rightarrow> uuid \<times> 'w"
  h_uuid5 :: "string \<Rightarrow> uuid"

type_synonym ('b, 'w, 'a) run = "(('b, 'w) run_state, 'a) prog"

text \<open>What an exception of another component looks like here.\<close>

definition session_exn :: "uuid \<Rightarrow> session_error \<Rightarrow> exn" where
  "session_exn sid e =
     (case e of
        NotFoundError u \<Rightarrow> Exn ''NotFoundError'' (''session '' @ uuid_str u @ '' does not exist'')
      | FailedPreconditionError st \<Rightarrow> Exn ''FailedPreconditionError''
          (''session '' @ uuid_str sid @ '' is in terminal state '' @ status_value st)
      | ValidationError t \<Rightarrow> Exn ''ValidationError'' t
      | IntegrityError \<Rightarrow> Exn ''IntegrityError'' []
      | DataError \<Rightarrow> Exn ''DataError'' []
      | RuntimeError \<Rightarrow> Exn ''RuntimeError''
          (''event insert for session '' @ uuid_str sid
           @ '' violated a unique constraint despite holding the advisory lock'')
      | ValueError \<Rightarrow> Exn ''ValueError'' [])"

definition py_exn :: "py_error \<Rightarrow> exn" where
  "py_exn e =
     (case e of TypeError \<Rightarrow> Exn ''TypeError'' [] | KeyError k \<Rightarrow> Exn ''KeyError'' (repr_str k)
      | AttributeError \<Rightarrow> Exn ''AttributeError'' [] | PydanticError \<Rightarrow> Exn ''ValidationError'' [])"

definition adapter_exn :: "adapter_error \<Rightarrow> exn" where
  "adapter_exn e =
     (case e of AlreadyRegistered n \<Rightarrow> Exn ''ValueError'' n
      | UnknownAdapterError n \<Rightarrow> Exn ''UnknownAdapterError'' n)"

definition orRaise :: "('e \<Rightarrow> exn) \<Rightarrow> 'e + 'a \<Rightarrow> ('s, 'a) prog" where
  "orRaise f r = (case r of Inl e \<Rightarrow> raiseM (f e) | Inr x \<Rightarrow> returnM x)"

definition worldM :: "('w \<Rightarrow> 'a \<times> 'w) \<Rightarrow> ('b, 'w, 'a) run" where
  "worldM f s = (case f (rt_world s) of (x, w) \<Rightarrow> (Inr x, s\<lparr>rt_world := w\<rparr>))"

abbreviation in_sandbox :: "('b sandbox, 'a) prog \<Rightarrow> ('b, 'w, 'a) run" where
  "in_sandbox \<equiv> zoom rt_sandbox (\<lambda>x. rt_sandbox_update (\<lambda>_. x))"

abbreviation in_outside :: "('w, 'a) prog \<Rightarrow> ('b, 'w, 'a) run" where
  "in_outside \<equiv> zoom rt_world (\<lambda>x. rt_world_update (\<lambda>_. x))"

section \<open>Calls to the Session Service\<close>

definition read_db :: "uuid \<Rightarrow> (db \<Rightarrow> session_error + 'a) \<Rightarrow> ('b, 'w, 'a) run" where
  "read_db sid f = bindM getM (\<lambda>s. orRaise (session_exn sid) (f (rt_db s)))"

definition write_db :: "uuid \<Rightarrow> (db \<Rightarrow> session_error + 'a \<times> db) \<Rightarrow> ('b, 'w, 'a) run" where
  "write_db sid f =
     bindM (read_db sid f) (\<lambda>(x, d). bindM (modifyM (rt_db_update (\<lambda>_. d))) (\<lambda>_. returnM x))"

definition emit ::
  "('b, 'w) harness \<Rightarrow> uuid \<Rightarrow> uuid \<Rightarrow> event_type \<Rightarrow> dict \<Rightarrow> ('b, 'w, event) run" where
  "emit H sid eid t p =
     bindM (worldM (h_now H)) (\<lambda>now. write_db sid (emit_event now sid eid t p))"

definition load_events :: "uuid \<Rightarrow> ('b, 'w, event list) run" where
  "load_events sid = read_db sid (get_events_default sid)"

section \<open>Seeding and compaction\<close>

definition seed_system_prompt_if_needed ::
  "('b, 'w) harness \<Rightarrow> uuid \<Rightarrow> agent \<Rightarrow> ('b, 'w, unit) run" where
  "seed_system_prompt_if_needed H sid ag =
     (case ag_system_prompt ag of
        None \<Rightarrow> returnM ()
      | Some prompt \<Rightarrow>
          if prompt = [] then returnM ()
          else bindM (emit H sid (h_uuid5 H (''tename:system-prompt:'' @ uuid_str sid)) SYSTEM_EVENT
                 [(''type'', JStr ''system_prompt''), (''content'', JStr prompt)])
               (\<lambda>_. returnM ()))"

definition emit_compaction ::
  "('b, 'w) harness \<Rightarrow> uuid \<Rightarrow> event list \<Rightarrow> profile \<Rightarrow> ('b, 'w, unit) run" where
  "emit_compaction H sid es p =
     bindM (orRaise py_exn (apply_compaction_view es)) (\<lambda>active.
     case plan_truncate active p of
       None \<Rightarrow> returnM ()
     | Some decision \<Rightarrow>
         let fingerprint = join_str '','' (map int_str (dropped_sequences decision));
             eid = h_uuid5 H (''tename:compaction:'' @ uuid_str sid @ '':'' @ fingerprint)
         in bindM (emit H sid eid HARNESS_EVENT (to_payload decision)) (\<lambda>_. returnM ()))"

section \<open>One model turn\<close>

record turn =
  tn_text_parts :: "string list"
  tn_tool_calls :: "pending_event list"
  tn_usage :: "usage option"
  tn_errored :: bool

definition needs_id :: "chunk_type \<Rightarrow> bool" where
  "needs_id t \<longleftrightarrow> t \<in> {Text_Delta, Tool_Call_End, Error_Chunk}"

definition take_chunk ::
  "('b, 'w) harness \<Rightarrow> framework \<Rightarrow> uuid \<Rightarrow> turn \<Rightarrow> model_chunk \<Rightarrow> ('b, 'w, turn) run" where
  "take_chunk H fw sid tn chunk =
     bindM (if ck_type chunk = Usage_Chunk
            then orRaise id (map_sum id Some (h_validate_usage H (ck_content chunk)))
            else returnM (tn_usage tn)) (\<lambda>latest_usage.
     let tn = tn\<lparr>tn_text_parts := (if ck_type chunk = Text_Delta
                then tn_text_parts tn @ [py_str (dget_or (ck_content chunk) ''text'' (JStr []))]
                else tn_text_parts tn),
              tn_usage := latest_usage\<rparr>
     in bindM (if needs_id (ck_type chunk) then worldM (h_uuid4 H) else returnM 0) (\<lambda>new_id.
        bindM (orRaise py_exn (chunk_to_event fw new_id chunk)) (\<lambda>pending.
        case pending of
          None \<Rightarrow> returnM tn
        | Some pe \<Rightarrow>
            bindM (emit H sid (pe_id pe) (pe_type pe) (pe_payload pe)) (\<lambda>_.
            returnM
              (if pe_type pe = TOOL_CALL then tn\<lparr>tn_tool_calls := tn_tool_calls tn @ [pe]\<rparr>
               else if pe_type pe = ERROR_EVENT then tn\<lparr>tn_errored := True\<rparr>
               else tn)))))"

text \<open>The loop over the stream: it stops at the first error event, and otherwise ends with the
  exception of the stream, if there is one.\<close>

fun take_chunks ::
  "('b, 'w) harness \<Rightarrow> framework \<Rightarrow> uuid \<Rightarrow> turn \<Rightarrow> model_chunk list \<Rightarrow> exn option
    \<Rightarrow> ('b, 'w, turn) run" where
  "take_chunks H fw sid tn [] ending =
     (case ending of None \<Rightarrow> returnM tn | Some e \<Rightarrow> raiseM e)"
| "take_chunks H fw sid tn (chunk # chunks) ending =
     bindM (take_chunk H fw sid tn chunk) (\<lambda>tn.
       if tn_errored tn then returnM tn else take_chunks H fw sid tn chunks ending)"

definition closer_payload :: "turn \<Rightarrow> dict" where
  "closer_payload tn =
     [(''content'', JStr (concat (tn_text_parts tn))), (''is_complete'', JBool True)]
     @ (case tn_usage tn of None \<Rightarrow> [] | Some u \<Rightarrow> [(''usage'', JObj (usage_dump u))])"

definition run_turn ::
  "('b, 'w) harness \<Rightarrow> uuid \<Rightarrow> profile \<Rightarrow> framework \<Rightarrow> message list \<Rightarrow> tool_def list
    \<Rightarrow> ('b, 'w, turn) run" where
  "run_turn H sid p fw ms tools =
     bindM (worldM (h_router H (to_router_profile p) ms (if tools = [] then None else Some tools)))
       (\<lambda>(chunks, ending).
     bindM (take_chunks H fw sid
              \<lparr>tn_text_parts = [], tn_tool_calls = [], tn_usage = None, tn_errored = False\<rparr>
              chunks ending) (\<lambda>tn.
     bindM (if tn_text_parts tn \<noteq> [] \<and> \<not> tn_errored tn
            then bindM (worldM (h_uuid4 H)) (\<lambda>eid.
                 bindM (emit H sid eid ASSISTANT_MESSAGE (closer_payload tn)) (\<lambda>_. returnM ()))
            else returnM ()) (\<lambda>_.
     returnM tn)))"

section \<open>Sandbox tools\<close>

text \<open>The most recent \<open>sandbox_provisioned\<close> record with a usable id.\<close>

definition recorded_sandbox :: "event \<Rightarrow> string option" where
  "recorded_sandbox e =
     (if ev_type e = SYSTEM_EVENT \<and> dget (ev_payload e) ''type'' = JStr ''sandbox_provisioned''
      then (case dget (ev_payload e) ''sandbox_id'' of
              JStr i \<Rightarrow> if i = [] then None else Some i
            | _ \<Rightarrow> None)
      else None)"

fun first_recorded :: "event list \<Rightarrow> string option" where
  "first_recorded [] = None"
| "first_recorded (e # es) =
     (case recorded_sandbox e of Some i \<Rightarrow> Some i | None \<Rightarrow> first_recorded es)"

definition latest_sandbox_id :: "event list \<Rightarrow> string option" where
  "latest_sandbox_id es = first_recorded (rev es)"

definition note_provisioned :: "string \<Rightarrow> ('b, 'w, unit) run" where
  "note_provisioned i = modifyM (rt_provisioned_update (\<lambda>is. if i \<in> set is then is else is @ [i]))"

definition recipe_from_agent :: "('b, 'w) harness \<Rightarrow> agent \<Rightarrow> exn + recipe" where
  "recipe_from_agent H ag =
     h_validate_recipe H (case ag_sandbox_recipe ag of None \<Rightarrow> [] | Some d \<Rightarrow> d)"

definition provision_fresh ::
  "('b, 'w) harness \<Rightarrow> 'b backend \<Rightarrow> uuid \<Rightarrow> agent \<Rightarrow> ('b, 'w, string) run" where
  "provision_fresh H B sid ag =
     bindM (orRaise id (recipe_from_agent H ag)) (\<lambda>r.
     bindM (in_sandbox (sandbox_provision B r)) (\<lambda>new_id.
     bindM (note_provisioned new_id) (\<lambda>_.
     bindM (emit H sid
              (h_uuid5 H (''tename:sandbox-provisioned:'' @ uuid_str sid @ '':'' @ new_id))
              SYSTEM_EVENT
              [(''type'', JStr ''sandbox_provisioned''), (''sandbox_id'', JStr new_id),
               (''runtime'', JStr (runtime r))]) (\<lambda>_.
     returnM new_id))))"

definition get_or_provision_sandbox ::
  "('b, 'w) harness \<Rightarrow> 'b backend \<Rightarrow> uuid \<Rightarrow> agent \<Rightarrow> ('b, 'w, string) run" where
  "get_or_provision_sandbox H B sid ag =
     bindM (load_events sid) (\<lambda>es.
     case latest_sandbox_id es of
       None \<Rightarrow> provision_fresh H B sid ag
     | Some i \<Rightarrow>
         bindM (in_sandbox (sandbox_current_status B i)) (\<lambda>st.
         if st \<in> {READY, IDLE, RUNNING}
         then bindM (note_provisioned i) (\<lambda>_. returnM i)
         else provision_fresh H B sid ag))"

definition failed_payload :: "pending_event \<Rightarrow> string \<Rightarrow> string \<Rightarrow> dict" where
  "failed_payload call tool_name text =
     [(''tool_call_id'', JStr (uuid_str (pe_id call))), (''tool_name'', JStr tool_name),
      (''is_error'', JBool True), (''error'', JStr text), (''content'', JStr text)]"

definition opt_str :: "string option \<Rightarrow> json" where
  "opt_str x = (case x of None \<Rightarrow> JNull | Some s \<Rightarrow> JStr s)"

definition sandbox_payload :: "pending_event \<Rightarrow> string \<Rightarrow> string \<Rightarrow> tool_result \<Rightarrow> dict" where
  "sandbox_payload call tool_name i r =
     [(''tool_call_id'', JStr (uuid_str (pe_id call))), (''tool_name'', JStr tool_name),
      (''is_error'', JBool (tr_is_error r)), (''content'', JStr (tr_content r)),
      (''stdout'', JStr (tr_stdout r)), (''stderr'', JStr (tr_stderr r)),
      (''exit_code'', case tr_exit_code r of None \<Rightarrow> JNull | Some n \<Rightarrow> JInt n),
      (''error'', opt_str (tr_error r)), (''sandbox_id'', JStr i)]"

definition run_sandbox_tool ::
  "('b, 'w) harness \<Rightarrow> 'b backend \<Rightarrow> uuid \<Rightarrow> agent \<Rightarrow> pending_event \<Rightarrow> string \<Rightarrow> dict
    \<Rightarrow> ('b, 'w, dict) run" where
  "run_sandbox_tool H B sid ag call tool_name tool_input =
     bindM (tryM (bindM (get_or_provision_sandbox H B sid ag) (\<lambda>i. returnM (Inr i)))
              (\<lambda>e. returnM (Inl (failed_payload call tool_name
                 (''sandbox provisioning failed: '' @ exn_text e))))) (\<lambda>got.
     case got of
       Inl payload \<Rightarrow> returnM payload
     | Inr i \<Rightarrow>
         tryM (bindM (in_sandbox (sandbox_execute B i tool_name tool_input)) (\<lambda>r.
                 returnM (sandbox_payload call tool_name i r)))
           (\<lambda>e. returnM (failed_payload call tool_name
              (''sandbox execute failed: '' @ exn_text e) @ [(''sandbox_id'', JStr i)])))"

section \<open>Dispatching the tool calls\<close>

definition run_proxy_tool ::
  "(string \<Rightarrow> dict \<Rightarrow> uuid \<Rightarrow> ('w, tool_result) prog) \<Rightarrow> uuid \<Rightarrow> pending_event \<Rightarrow> string \<Rightarrow> dict
    \<Rightarrow> ('b, 'w, dict) run" where
  "run_proxy_tool proxy sid call tool_name tool_input =
     bindM (in_outside (proxy tool_name tool_input sid)) (\<lambda>r.
     returnM
       [(''tool_call_id'', JStr (uuid_str (pe_id call))), (''tool_name'', JStr tool_name),
        (''is_error'', JBool (tr_is_error r)), (''content'', JStr (tr_content r)),
        (''error'', opt_str (tr_error r))])"

definition proxy_names :: "('b, 'w) harness \<Rightarrow> string set" where
  "proxy_names H = set (map fst (h_proxy_schemas H))"

definition in_quotes :: "string \<Rightarrow> string" where
  "in_quotes s = CHR 0x27 # s @ [CHR 0x27]"

definition stub_payload :: "('b, 'w) harness \<Rightarrow> pending_event \<Rightarrow> string \<Rightarrow> dict" where
  "stub_payload H call tool_name =
     failed_payload call tool_name
       (if tool_name \<in> set BUILTIN_TOOL_NAMES \<and> h_backend H = None
        then ''tool '' @ in_quotes tool_name
          @ '' is a sandbox tool but no sandbox is configured for this runtime''
        else if tool_name \<in> proxy_names H \<and> h_proxy H = None
        then ''tool '' @ in_quotes tool_name
          @ '' is a proxy tool but no tool proxy is configured for this runtime''
        else ''tool '' @ in_quotes tool_name @ '' is not a registered sandbox or proxy tool'')"

definition tool_payload ::
  "('b, 'w) harness \<Rightarrow> uuid \<Rightarrow> agent \<Rightarrow> pending_event \<Rightarrow> ('b, 'w, dict) run" where
  "tool_payload H sid ag call =
     (let tool_name = (case dget (pe_payload call) ''tool_name'' of JStr n \<Rightarrow> n | _ \<Rightarrow> []);
          tool_input = obj_or_empty (dget_or (pe_payload call) ''input'' (JObj []))
      in case (h_backend H, h_proxy H) of
           (Some B, proxy) \<Rightarrow>
             if tool_name \<in> set BUILTIN_TOOL_NAMES
             then run_sandbox_tool H B sid ag call tool_name tool_input
             else (case proxy of
               Some p \<Rightarrow> if tool_name \<in> proxy_names H
                         then run_proxy_tool p sid call tool_name tool_input
                         else returnM (stub_payload H call tool_name)
             | None \<Rightarrow> returnM (stub_payload H call tool_name))
         | (None, Some p) \<Rightarrow>
             if tool_name \<in> proxy_names H then run_proxy_tool p sid call tool_name tool_input
             else returnM (stub_payload H call tool_name)
         | (None, None) \<Rightarrow> returnM (stub_payload H call tool_name))"

definition result_id :: "('b, 'w) harness \<Rightarrow> pending_event \<Rightarrow> uuid" where
  "result_id H call = h_uuid5 H (''tename:tool-result:'' @ uuid_str (pe_id call))"

definition execute_tool_call ::
  "('b, 'w) harness \<Rightarrow> uuid \<Rightarrow> agent \<Rightarrow> pending_event \<Rightarrow> ('b, 'w, unit) run" where
  "execute_tool_call H sid ag call =
     bindM (tool_payload H sid ag call) (\<lambda>payload.
     bindM (emit H sid (result_id H call) TOOL_RESULT payload) (\<lambda>_. returnM ()))"

definition execute_tool_calls ::
  "('b, 'w) harness \<Rightarrow> uuid \<Rightarrow> agent \<Rightarrow> pending_event list \<Rightarrow> ('b, 'w, unit) run" where
  "execute_tool_calls H sid ag cs = forM (execute_tool_call H sid ag) cs"

section \<open>The loop\<close>

datatype stop_reason = Max_Turns | Max_Duration | No_User_Turn | Model_Error | No_Tool_Calls

definition prepare_events :: "('b, 'w) harness \<Rightarrow> uuid \<Rightarrow> profile \<Rightarrow> ('b, 'w, event list) run" where
  "prepare_events H sid p =
     bindM (load_events sid) (\<lambda>es.
     bindM (orRaise py_exn (apply_compaction_view es)) (\<lambda>active.
     if should_compact active p
     then bindM (emit_compaction H sid es p) (\<lambda>_. load_events sid)
     else returnM es))"

text \<open>\<open>n\<close> is the number of turns left, \<open>max_turns - turn\<close>.\<close>

fun run_loop ::
  "('b, 'w) harness \<Rightarrow> uuid \<Rightarrow> agent \<Rightarrow> profile \<Rightarrow> framework \<Rightarrow> rat \<Rightarrow> nat
    \<Rightarrow> ('b, 'w, stop_reason) run" where
  "run_loop H sid ag p fw started_at 0 = returnM Max_Turns"
| "run_loop H sid ag p fw started_at (Suc n) =
     bindM (case max_duration_seconds (pf_stop_conditions p) of
              None \<Rightarrow> returnM False
            | Some limit \<Rightarrow> bindM (worldM (h_monotonic H)) (\<lambda>now.
                returnM (of_int limit < now - started_at))) (\<lambda>late.
     if late then returnM Max_Duration
     else bindM (prepare_events H sid p) (\<lambda>es.
     bindM (orRaise py_exn (apply_compaction_view es)) (\<lambda>active.
     bindM (orRaise py_exn (build_context fw active)) (\<lambda>ms.
     if \<not> list_ex (\<lambda>m. role m = User) ms then returnM No_User_Turn
     else bindM (run_turn H sid p fw ms (get_tools fw (h_proxy_schemas H) ag)) (\<lambda>tn.
     if tn_errored tn then returnM Model_Error
     else if tn_tool_calls tn = [] then returnM No_Tool_Calls
     else bindM (execute_tool_calls H sid ag (tn_tool_calls tn)) (\<lambda>_.
          run_loop H sid ag p fw started_at n))))))"

text \<open>\<open>_destroy_sandboxes\<close>: a set in the source, so the order is one of many.\<close>

definition destroy_sandboxes :: "('b, 'w) harness \<Rightarrow> ('b, 'w, unit) run" where
  "destroy_sandboxes H =
     (case h_backend H of
        None \<Rightarrow> returnM ()
      | Some B \<Rightarrow> bindM getM (\<lambda>s.
          forM (\<lambda>i. suppressM (in_sandbox (sandbox_destroy B i))) (rt_provisioned s)))"

text \<open>\<open>try: m finally: f\<close>\<close>

definition finallyM :: "('s, 'a) prog \<Rightarrow> ('s, unit) prog \<Rightarrow> ('s, 'a) prog" where
  "finallyM m f s = (case m s of (r, s1) \<Rightarrow>
     (case f s1 of (Inl e, s2) \<Rightarrow> (Inl e, s2) | (Inr _, s2) \<Rightarrow> (r, s2)))"

definition run_session :: "('b, 'w) harness \<Rightarrow> uuid \<Rightarrow> ('b, 'w, stop_reason) run" where
  "run_session H sid =
     bindM (read_db sid (wake sid)) (\<lambda>session.
     bindM (read_db sid (get_agent (se_agent session))) (\<lambda>ag.
     bindM (orRaise id (h_load_profile H (ag_model ag))) (\<lambda>p.
     bindM (orRaise adapter_exn (get_adapter (ag_framework ag) (h_adapters H))) (\<lambda>fw.
     bindM (seed_system_prompt_if_needed H sid ag) (\<lambda>_.
     bindM (worldM (h_monotonic H)) (\<lambda>started_at.
     bindM (modifyM (rt_provisioned_update (\<lambda>_. []))) (\<lambda>_.
     bindM (finallyM
              (run_loop H sid ag p fw started_at (nat (max_turns (pf_stop_conditions p))))
              (destroy_sandboxes H)) (\<lambda>reason.
     bindM (worldM (h_now H)) (\<lambda>now.
     bindM (write_db sid (mark_complete now sid)) (\<lambda>_.
     returnM reason))))))))))"

end
