(* ===== verification/Harness_Outcomes.thy ===== *)
theory Harness_Outcomes
  imports Harness_Runs
begin

text \<open>
  What is left when a run is over: no container the run started, a closed session, an answer
  for every tool call, and one system prompt however often the session is woken.
\<close>

section \<open>No container is left behind\<close>

definition containers :: "(('h, 'x) docker, 'w) run_state \<Rightarrow> string set" where
  "containers s = dom (dk_containers (sb_backend (rt_sandbox s)))"

definition accounted :: "string set \<Rightarrow> (('h, 'x) docker, 'w) run_state \<Rightarrow> bool" where
  "accounted C s \<longleftrightarrow> containers s \<subseteq> C \<union> set (rt_provisioned s)"

lemma accounted_cong:
  assumes "\<And>s. containers (snd (m s)) = containers s"
    and "\<And>s. set (rt_provisioned s) \<subseteq> set (rt_provisioned (snd (m s)))"
  shows "keeps (accounted C) m"
  using assms by (fastforce simp: keeps_def accounted_def)

lemma accounted_worldM: "keeps (accounted C) (worldM f)"
  by (rule accounted_cong) (simp_all add: worldM_def containers_def split: prod.split)

lemma accounted_outside: "keeps (accounted C) (in_outside m)"
  by (rule accounted_cong) (simp_all add: zoom_def containers_def split: prod.split)

lemma accounted_note: "keeps (accounted C) (note_provisioned i)"
  by (rule accounted_cong) (auto simp: note_provisioned_def containers_def)

lemma accounted_write: "keeps (accounted C) (write_db sid f)"
  by (rule accounted_cong) (simp_all add: write_db_eq containers_def split: sum.split prod.split)

lemma accounted_emit: "keeps (accounted C) (emit H sid eid t p)"
  unfolding emit_def by (intro keeps_rules accounted_worldM accounted_write)

text \<open>The sandbox calls that leave the containers as they are.\<close>

abbreviation same_containers :: "(string \<Rightarrow> 'h option) \<Rightarrow> ('h, 'x) docker \<Rightarrow> bool" where
  "same_containers cs d \<equiv> dk_containers d = cs"

lemma same_in_world: "keeps (same_containers cs) (in_world m)"
  by (simp add: keeps_def in_world_eq)

lemma same_execute: "keeps (same_containers cs) (docker_execute D race i tool_name tool_input)"
  unfolding docker_execute_def by (intro keeps_rules same_in_world)

lemma same_status: "keeps (same_containers cs) (docker_status D i)"
  unfolding docker_status_def by (intro keeps_rules same_in_world)

lemma same_on_backend:
  "keeps (same_containers cs) m \<Longrightarrow> keeps (\<lambda>s. same_containers cs (sb_backend s)) (on_backend m)"
  by (simp add: keeps_def on_backend_eq)

lemma same_modify: "(\<And>s. sb_backend (f s) = sb_backend s) \<Longrightarrow>
    keeps (\<lambda>s. same_containers cs (sb_backend s)) (modifyM f)"
  by (simp add: keeps_def)

lemma same_assert: "keeps P (assert_transition a b i)"
  by (rule assert_keeps)

lemma same_service_execute:
  "keeps (\<lambda>s. same_containers cs (sb_backend s)) (sandbox_execute (docker_backend D race) i n input)"
  unfolding sandbox_execute_def transition_def docker_backend_def backend.simps
  by (intro keeps_rules same_on_backend same_execute same_modify same_assert) simp_all

lemma same_service_status:
  "keeps (\<lambda>s. same_containers cs (sb_backend s)) (sandbox_current_status (docker_backend D race) i)"
  unfolding sandbox_current_status_def docker_backend_def backend.simps
  by (intro keeps_rules same_on_backend same_status same_modify) simp_all

lemma accounted_in_sandbox:
  assumes m: "\<And>cs. keeps (\<lambda>s. same_containers cs (sb_backend s)) m"
  shows "keeps (accounted C) (in_sandbox m)"
proof (rule accounted_cong)
  fix s :: "(('a, 'b) docker, 'd) run_state"
  have "dk_containers (sb_backend (snd (m (rt_sandbox s)))) = dk_containers (sb_backend (rt_sandbox s))"
    by (rule keepsD[OF m]) simp
  then show "containers (snd (in_sandbox m s)) = containers s"
    by (simp add: zoom_def containers_def split_beta)
qed (simp add: zoom_def split_beta)

text \<open>Provisioning adds one container, under the id it returns.\<close>

lemma docker_provision_containers:
  "(case docker_provision D r d of
      (Inl e, d') \<Rightarrow> dk_containers d' = dk_containers d
    | (Inr i, d') \<Rightarrow> dom (dk_containers d') \<subseteq> insert i (dom (dk_containers d)))"
  by (auto simp: docker_provision_def bindM_def in_world_eq split: prod.split sum.split)

lemma service_provision_containers:
  fixes D :: "('h, 'x) docker_api"
  obtains (raises) e where "fst (sandbox_provision (docker_backend D race) r b) = Inl e"
      "dk_containers (sb_backend (snd (sandbox_provision (docker_backend D race) r b)))
        = dk_containers (sb_backend b)"
  | (returns) i where "fst (sandbox_provision (docker_backend D race) r b) = Inr i"
      "dom (dk_containers (sb_backend (snd (sandbox_provision (docker_backend D race) r b))))
        \<subseteq> insert i (dom (dk_containers (sb_backend b)))"
proof -
  obtain x d where run: "docker_provision D r (sb_backend b) = (x, d)"
    by (cases "docker_provision D r (sb_backend b)")
  show thesis
    using docker_provision_containers[where D = D and r = r and d = "sb_backend b"] that
    by (cases x) (auto simp: sandbox_provision_def bindM_def on_backend_eq docker_backend_def run)
qed

lemma accounted_provisioned:
  assumes more: "containers s \<subseteq> insert i (C \<union> set (rt_provisioned s))"
    and rest: "keeps (accounted C) m"
  shows "accounted C (snd (bindM (note_provisioned i) (\<lambda>_. m) s))"
proof -
  obtain s1 where s1: "note_provisioned i s = (Inr (), s1)" by (simp add: note_provisioned_def)
  then have "containers s1 = containers s" "set (rt_provisioned s1) = insert i (set (rt_provisioned s))"
    by (auto simp: note_provisioned_def containers_def split: if_splits)
  with more have "accounted C s1" by (simp add: accounted_def)
  with keepsD[OF rest] s1 show ?thesis by (simp add: bindM_def)
qed

lemma accounted_provision:
  fixes D :: "('h, 'x) docker_api"
  shows "keeps (accounted C) (provision_fresh H (docker_backend D race) sid ag)"
proof -
  have step: "keeps (accounted C) (bindM (in_sandbox (sandbox_provision (docker_backend D race) r))
      (\<lambda>i. bindM (note_provisioned i) (\<lambda>_. m i)))"
    if m: "\<And>i. keeps (accounted C) (m i)"
    for r and m :: "string \<Rightarrow> ((('h, 'x) docker, 'b) run_state, string) prog"
    unfolding keeps_def
  proof (intro allI impI)
    fix s :: "(('h, 'x) docker, 'b) run_state" assume s: "accounted C s"
    let ?p = "sandbox_provision (docker_backend D race) r (rt_sandbox s)"
    let ?s = "s\<lparr>rt_sandbox := snd ?p\<rparr>"
    have run: "in_sandbox (sandbox_provision (docker_backend D race) r) s = (fst ?p, ?s)"
      by (simp add: zoom_def split_beta)
    show "accounted C (snd (bindM (in_sandbox (sandbox_provision (docker_backend D race) r))
      (\<lambda>i. bindM (note_provisioned i) (\<lambda>_. m i)) s))"
    proof (cases rule: service_provision_containers[where D = D and race = race and r = r and b = "rt_sandbox s"])
      case (raises e)
      with s show ?thesis by (simp add: bindM_def run accounted_def containers_def)
    next
      case (returns i)
      have "containers ?s \<subseteq> insert i (C \<union> set (rt_provisioned ?s))"
        using returns(2) s by (auto simp: accounted_def containers_def)
      note accounted_provisioned[OF this m[of i]]
      with returns(1) show ?thesis by (simp add: bindM_def[of "in_sandbox _"] run)
    qed
  qed
  show ?thesis unfolding provision_fresh_def
    by (rule keeps_bindM[OF keeps_orRaise], rule step) (intro keeps_rules accounted_emit)
qed

interpretation accounting:
  loop_invariant "H\<lparr>h_backend := Some (docker_backend D race)\<rparr>" "accounted C" for H D race C
proof unfold_locales
  fix sid eid t p
  show "keeps (accounted C) (emit (H\<lparr>h_backend := Some (docker_backend D race)\<rparr>) sid eid t p)"
    by (rule accounted_emit)
qed (auto intro: accounted_worldM accounted_outside accounted_note accounted_provision
  accounted_in_sandbox same_service_execute same_service_status)

text \<open>\<open>_destroy_sandboxes\<close> never raises and takes away every container of the run.\<close>

lemma destroy_one:
  "\<exists>s1. suppressM (in_sandbox (sandbox_destroy (docker_backend D race) i)) s = (Inr (), s1)
    \<and> containers s1 = containers s - {i} \<and> rt_provisioned s1 = rt_provisioned s"
proof -
  let ?B = "docker_backend D race" and ?t = "rt_sandbox s"
  define t where "t = snd (sandbox_destroy ?B i ?t)"
  have t: "sandbox_destroy ?B i ?t = (Inr (), t)"
    using dock.destroy_never_raises[of D race i ?t] by (simp add: t_def prod_eq_iff)
  have "be_destroy ?B i b = docker_destroy D i b" for b by (simp add: docker_backend_def)
  then have c: "dk_containers (sb_backend t) = (dk_containers (sb_backend ?t))(i := None)"
    by (cases "sb_status ?t i") (simp_all add: t_def dock.destroy_eq docker_destroy_eq)
  have "suppressM (in_sandbox (sandbox_destroy ?B i)) s = (Inr (), s\<lparr>rt_sandbox := t\<rparr>)"
    by (simp add: suppressM_def tryM_def zoom_def t)
  with c show ?thesis by (simp add: containers_def)
qed

lemma destroy_each:
  "\<exists>s1. forM (\<lambda>i. suppressM (in_sandbox (sandbox_destroy (docker_backend D race) i))) ids s = (Inr (), s1)
    \<and> containers s1 = containers s - set ids"
proof (induction ids arbitrary: s)
  case (Cons i ids)
  obtain s1 where s1: "suppressM (in_sandbox (sandbox_destroy (docker_backend D race) i)) s = (Inr (), s1)"
      "containers s1 = containers s - {i}"
    using destroy_one by blast
  with Cons.IH[of s1] show ?case by (auto simp: bindM_def)
qed simp

lemma destroy_sandboxes_docker:
  assumes "h_backend H = Some (docker_backend D race)"
  obtains s1 where "destroy_sandboxes H s = (Inr (), s1)"
    and "containers s1 = containers s - set (rt_provisioned s)"
  using destroy_each[of D race "rt_provisioned s" s] assms that
  by (auto simp: destroy_sandboxes_def bindM_def)

lemma finally_containers:
  assumes "h_backend H = Some (docker_backend D race)" and "keeps (accounted C) m"
    and "accounted C s"
  shows "containers (snd (finallyM m (destroy_sandboxes H) s)) \<subseteq> C"
proof -
  obtain s2 where "destroy_sandboxes H (snd (m s)) = (Inr (), s2)"
      "containers s2 = containers (snd (m s)) - set (rt_provisioned (snd (m s)))"
    by (rule destroy_sandboxes_docker[OF assms(1)])
  with keepsD[OF assms(2,3)] show ?thesis
    by (auto simp: finallyM_def accounted_def split_beta)
qed

abbreviation no_more :: "string set \<Rightarrow> (('h, 'x) docker, 'w) run_state \<Rightarrow> bool" where
  "no_more C s \<equiv> containers s \<subseteq> C"

lemma no_more_frame:
  "keeps (no_more C) (worldM f)" "keeps (no_more C) (write_db sid g)"
  "keeps (no_more C) (modifyM (rt_provisioned_update h))"
  by (auto simp: keeps_def worldM_def write_db_eq containers_def split: prod.split sum.split)

lemma no_more_emit: "keeps (no_more C) (emit H sid eid t p)"
  unfolding emit_def by (intro keeps_bindM no_more_frame)

lemma run_session_containers:
  fixes s :: "(('h, 'x) docker, 'w) run_state"
  assumes "h_backend H = Some (docker_backend D race)"
  shows "dom (dk_containers (sb_backend (rt_sandbox (snd (run_session H sid s)))))
    \<subseteq> dom (dk_containers (sb_backend (rt_sandbox s)))"
proof -
  let ?C = "containers s"
  have H: "H\<lparr>h_backend := Some (docker_backend D race)\<rparr> = H" using assms by simp
  have loop: "keeps (no_more ?C) (bindM (modifyM (rt_provisioned_update (\<lambda>_. []))) (\<lambda>_.
      bindM (finallyM (run_loop H sid ag p fw t n) (destroy_sandboxes H)) f))"
    if f: "\<And>x. keeps (no_more ?C) (f x)" for ag p fw t n and f :: "stop_reason \<Rightarrow> ((('h, 'x) docker, 'w) run_state, stop_reason) prog"
  proof (rule keeps_bindM[OF no_more_frame(3)])
    have "keeps (no_more ?C) (finallyM (run_loop H sid ag p fw t n) (destroy_sandboxes H))"
      unfolding keeps_def
    proof (intro allI impI)
      fix s1 :: "(('h, 'x) docker, 'w) run_state"
      assume "no_more ?C s1"
      then show "no_more ?C (snd (finallyM (run_loop H sid ag p fw t n) (destroy_sandboxes H) s1))"
        by (intro finally_containers[OF assms accounting.run_loop_keeps[where H = H and D = D and race = race, unfolded H]])
          (auto simp: accounted_def)
    qed
    then show "keeps (no_more ?C)
        (bindM (finallyM (run_loop H sid ag p fw t n) (destroy_sandboxes H)) f)"
      by (rule keeps_bindM) (rule f)
  qed
  have seed: "keeps (no_more ?C) (seed_system_prompt_if_needed H sid ag)" for ag
    unfolding seed_system_prompt_if_needed_def by (intro keeps_rules no_more_emit)
  have "keeps (no_more ?C) (run_session H sid)"
    unfolding run_session_def
    by (rule keeps_bindM keeps_read_db keeps_orRaise seed no_more_frame(1) loop
        no_more_frame(2) keeps_basic)+
  from keepsD[OF this] show ?thesis by (simp add: containers_def)
qed


section \<open>A run that returns has closed its session\<close>

lemma write_db_Inr [returns_iff]:
  "write_db sid f s = (Inr x, s') \<longleftrightarrow> (\<exists>d. f (rt_db s) = Inr (x, d) \<and> s' = s\<lparr>rt_db := d\<rparr>)"
  by (auto simp: write_db_eq split: sum.split prod.split)

lemma read_db_Inr [returns_iff]:
  "read_db sid f s = (Inr x, s') \<longleftrightarrow> f (rt_db s) = Inr x \<and> s' = s"
  by (auto simp: read_db_eq split: sum.split)

lemma mark_complete_closes:
  "mark_complete now sid d = Inr (st, d') \<Longrightarrow> session_closed d' sid"
  using status_roundtrip[of COMPLETED]
  by (auto simp: mark_complete_Inr session_closed_def simp del: status_roundtrip split: if_splits)

lemma wake_closed:
  assumes "session_closed d sid"
  obtains st where "st \<noteq> ACTIVE" "wake sid d = Inl (FailedPreconditionError st)"
  using assms that
  by (auto simp: session_closed_def wake_def store_get_session_def row_to_session_def
      is_terminal_def split: option.splits)

text \<open>C15. When a run returns, its session is closed, and running it again, with any harness,
  raises \<open>FailedPreconditionError\<close> and does nothing.\<close>

theorem run_session_closes:
  assumes "run_session H sid s = (Inr reason, s')"
  shows "session_closed (rt_db s') sid
    \<and> (\<exists>st. run_session H2 sid s' = (Inl (session_exn sid (FailedPreconditionError st)), s'))"
proof -
  from assms have "session_closed (rt_db s') sid"
    by (auto simp: run_session_def bindM_Inr write_db_Inr intro: mark_complete_closes)
  then obtain st where "wake sid (rt_db s') = Inl (FailedPreconditionError st)"
    by (rule wake_closed)
  with \<open>session_closed (rt_db s') sid\<close> show ?thesis
    by (auto simp: run_session_def bindM_def read_db_eq)
qed

section \<open>Every tool call is answered\<close>

abbreviation logged :: "db \<Rightarrow> uuid \<Rightarrow> uuid \<Rightarrow> bool" where
  "logged d sid eid \<equiv> \<exists>r \<in> set (session_log d sid). e_id r = eid"

lemma emit_logged:
  assumes "emit_event now sid eid t p d = Inr (e, d')"
  shows "logged d' sid eid"
  using assms
  by (auto simp: emit_event_Inr find_event_by_id_log returns_iff split: option.splits
      dest!: find_SomeD)

lemma grows_logged:
  assumes "service_ok d" and "grows d s" and "logged d sid eid"
  shows "logged (rt_db s) sid eid"
proof -
  from assms(2) obtain ops where ops: "rt_db s = run_ops service_step ops d" by (auto simp: grows_def)
  have "set (session_log d sid) \<subseteq> set (session_log (rt_db s) sid)"
    using svc.run_log[OF assms(1), of sid ops] unfolding ops by (rule set_mono_prefix)
  with assms(3) show ?thesis by blast
qed

lemma grows_ok: "service_ok d \<Longrightarrow> grows d s \<Longrightarrow> service_ok (rt_db s)"
  using svc.run_inv by (auto simp: grows_def)

lemma execute_one_answered:
  assumes "execute_tool_call H sid ag call s = (Inr (), s')"
  shows "logged (rt_db s') sid (result_id H call)"
  using assms
  by (auto simp: execute_tool_call_def emit_def returns_iff intro: emit_logged)


section \<open>One system prompt\<close>

lemma emit_known:
  assumes "logged d sid eid"
  shows "case emit_event now sid eid t p d of Inl _ \<Rightarrow> True | Inr (_, d') \<Rightarrow> d' = d"
proof -
  have "find_event_by_id sid eid d \<noteq> Inr None" using assms by (auto simp: find_event_None)
  then show ?thesis by (auto simp: emit_event_Inr split: sum.split)
qed

text \<open>Once a session has its system prompt, waking it again writes none: whatever was logged
  in between and whatever the agent's prompt is now, seeding leaves the database as it is.\<close>

theorem system_prompt_once:
  assumes "service_ok (rt_db s)" and "ag_system_prompt ag = Some prompt" and "prompt \<noteq> []"
    and "seed_system_prompt_if_needed H sid ag s = (Inr (), s1)"
    and "rt_db s2 = run_ops service_step ops (rt_db s1)" and "h_uuid5 H2 = h_uuid5 H"
  shows "rt_db (snd (seed_system_prompt_if_needed H2 sid ag2 s2)) = rt_db s2"
proof -
  let ?eid = "h_uuid5 H (''tename:system-prompt:'' @ uuid_str sid)"
  from assms(2-4) have "logged (rt_db s1) sid ?eid"
    by (auto simp: seed_system_prompt_if_needed_def emit_def returns_iff intro: emit_logged)
  moreover have "service_ok (rt_db s1)"
    using assms(1,4) keepsD[OF growing.seed_keeps, of "rt_db s" s H sid ag] grows_ok
    by (simp add: grows_refl)
  ultimately have known: "logged (rt_db s2) sid ?eid"
    using grows_logged[of "rt_db s1" s2] assms(5) by (auto simp: grows_def)
  have "rt_db (snd (emit H2 sid ?eid t p s2)) = rt_db s2" for t p
    using emit_known[OF known, of "fst (h_now H2 (rt_world s2))" t p]
    by (auto simp: emit_def bindM_def worldM_def write_db_eq split: prod.split sum.splits)
  then show ?thesis
    by (auto simp: seed_system_prompt_if_needed_def assms(6) bindM_def split: option.split prod.split sum.split)
      (metis snd_conv)+
qed

end
