(* ===== verification/Harness_Facts.thy ===== *)
theory Harness_Facts
  imports Harness_Runs
begin

text \<open>
  What a single run guarantees: a bound on the calls of the model, an answer to every tool
  call, no container left behind, and a session that is closed when the run returns.
\<close>

section \<open>The model is called at most \<open>max_turns\<close> times\<close>

text \<open>\<open>leads P Q m\<close>: from a state with \<open>P\<close>, \<open>m\<close> ends in a state with \<open>Q\<close>, raising or not.\<close>

definition leads :: "('s \<Rightarrow> bool) \<Rightarrow> ('s \<Rightarrow> bool) \<Rightarrow> ('s, 'a) prog \<Rightarrow> bool" where
  "leads P Q m \<longleftrightarrow> (\<forall>s. P s \<longrightarrow> Q (snd (m s)))"

lemma leads_bindM:
  assumes "leads P R m" and "\<And>x. leads R Q (f x)" and "\<And>s. R s \<Longrightarrow> Q s"
  shows "leads P Q (bindM m f)"
  using assms unfolding leads_def bindM_def by (fastforce split: prod.split sum.split)

lemma leads_keeps: "keeps P m \<Longrightarrow> leads P P m"
  by (simp add: leads_def keeps_def)

lemma leads_after:
  "keeps P m \<Longrightarrow> (\<And>x. leads P Q (f x)) \<Longrightarrow> (\<And>s. P s \<Longrightarrow> Q s) \<Longrightarrow> leads P Q (bindM m f)"
  by (rule leads_bindM[OF leads_keeps])

lemma leads_if: "leads P Q m \<Longrightarrow> leads P Q m' \<Longrightarrow> leads P Q (if c then m else m')"
  by simp

lemma leads_weaken: "leads P R m \<Longrightarrow> (\<And>s. R s \<Longrightarrow> Q s) \<Longrightarrow> leads P Q m"
  by (auto simp: leads_def)

text \<open>\<open>calls\<close> counts the model calls made so far: the model adds at most one per call, and
  nothing else adds any.\<close>

definition counts_calls :: "('b, 'w) harness \<Rightarrow> ('w \<Rightarrow> nat) \<Rightarrow> bool" where
  "counts_calls H calls \<longleftrightarrow>
     (\<forall>rp ms tools w. calls (snd (h_router H rp ms tools w)) \<le> Suc (calls w))
   \<and> (\<forall>w. calls (snd (h_now H w)) \<le> calls w)
   \<and> (\<forall>w. calls (snd (h_monotonic H w)) \<le> calls w)
   \<and> (\<forall>w. calls (snd (h_uuid4 H w)) \<le> calls w)
   \<and> (\<forall>proxy name input sid w. h_proxy H = Some proxy \<longrightarrow>
        calls (snd (proxy name input sid w)) \<le> calls w)"

abbreviation calls_upto :: "('w \<Rightarrow> nat) \<Rightarrow> nat \<Rightarrow> ('b, 'w) run_state \<Rightarrow> bool" where
  "calls_upto calls k s \<equiv> calls (rt_world s) \<le> k"

lemma keeps_read_cong: "(\<And>s. rt_world (snd (m s)) = rt_world s) \<Longrightarrow> keeps (calls_upto calls k) m"
  by (simp add: keeps_def)

lemma world_upto:
  "(\<And>w. calls (snd (f w)) \<le> calls w) \<Longrightarrow> keeps (calls_upto calls k) (worldM f)"
  by (auto simp: keeps_def worldM_def split: prod.split intro: order.trans)
    (metis order.trans snd_conv)

lemma in_sandbox_upto [intro, simp]: "keeps (calls_upto calls k) (in_sandbox m)"
  by (rule keeps_read_cong) (simp add: zoom_def split: prod.split)

lemma note_upto [intro, simp]: "keeps (calls_upto calls k) (note_provisioned i)"
  by (rule keeps_read_cong) (simp add: note_provisioned_def)

lemma write_upto [intro, simp]: "keeps (calls_upto calls k) (write_db sid f)"
  by (rule keeps_read_cong) (simp add: write_db_eq split: sum.split prod.split)

lemma outside_upto:
  "(\<And>w. calls (snd (m w)) \<le> calls w) \<Longrightarrow> keeps (calls_upto calls k) (in_outside m)"
  by (auto simp: keeps_def zoom_def split: prod.split intro: order.trans)
    (metis order.trans snd_conv)

lemma counted_invariant:
  assumes "counts_calls H calls"
  shows "turn_invariant H (calls_upto calls k)"
proof -
  have emits: "keeps (calls_upto calls k) (emit H sid eid t p)" for sid eid t p
    using assms unfolding emit_def by (intro keeps_rules world_upto write_upto) (simp add: counts_calls_def)
  show ?thesis
  proof
    show "keeps (calls_upto calls k) (provision_fresh H B sid ag)" for B :: "'a backend" and sid ag
      unfolding provision_fresh_def by (intro keeps_rules emits in_sandbox_upto note_upto)
  qed (use assms emits in \<open>auto simp: counts_calls_def intro!: world_upto outside_upto\<close>)
qed

lemma run_turn_counts:
  assumes "counts_calls H calls"
  shows "leads (calls_upto calls k) (calls_upto calls (Suc k)) (run_turn H sid p fw ms tools)"
proof -
  note inv = counted_invariant[OF assms]
  have "leads (calls_upto calls k) (calls_upto calls (Suc k))
      (worldM (h_router H rp ms tools'))" for rp tools'
    using assms unfolding leads_def counts_calls_def worldM_def
    by (auto split: prod.split) (metis Suc_le_mono le_trans snd_conv)
  then show ?thesis unfolding run_turn_def
    by (rule leads_bindM)
      (auto intro!: leads_keeps keeps_rules world_upto turn_invariant.take_chunks_keeps[OF inv]
        turn_invariant.emit_keeps[OF inv] turn_invariant.id_keeps[OF inv])
qed

lemma run_loop_counts:
  assumes "counts_calls H calls"
  shows "leads (calls_upto calls k) (calls_upto calls (k + n)) (run_loop H sid ag p fw t n)"
proof (induction n arbitrary: k)
  case 0
  show ?case by (simp only: run_loop.simps) (simp add: leads_def)
next
  case (Suc n)
  note inv = counted_invariant[OF assms]
  let ?Q = "calls_upto calls (k + Suc n)"
  have stay: "leads (calls_upto calls k) ?Q (returnM x)"
    "leads (calls_upto calls (Suc k)) ?Q (returnM x)" for x :: stop_reason
    by (auto simp: leads_def)
  have rest: "leads (calls_upto calls (Suc k)) ?Q (run_loop H sid ag p fw t n)"
    using Suc[of "Suc k"] by simp
  have acted: "leads (calls_upto calls (Suc k)) ?Q
      (if tn_errored tn then returnM Model_Error
       else if tn_tool_calls tn = [] then returnM No_Tool_Calls
       else bindM (execute_tool_calls H sid ag (tn_tool_calls tn)) (\<lambda>_.
              run_loop H sid ag p fw t n))" for tn
    by (intro leads_if stay leads_after[OF turn_invariant.execute_calls_keeps[OF inv]] rest) simp
  show ?case unfolding run_loop.simps
    by (intro leads_after keeps_rules leads_if stay turn_invariant.prepare_keeps[OF inv]
        turn_invariant.clock_keeps[OF inv] leads_bindM[OF run_turn_counts[OF assms]] acted) simp_all
qed

lemma finally_counts:
  assumes "leads P Q m" and "keeps Q f"
  shows "leads P Q (finallyM m f)"
  using assms unfolding leads_def keeps_def finallyM_def
  by (fastforce split: prod.split sum.split dest: spec)

text \<open>C14. A run calls the model at most \<open>max_turns\<close> times, whatever the model answers, the tools
  do and the clock says.\<close>

theorem run_session_model_calls:
  assumes "counts_calls H calls"
    and "\<forall>m p. h_load_profile H m = Inr p \<longrightarrow> nat (max_turns (pf_stop_conditions p)) \<le> n"
  shows "calls (rt_world (snd (run_session H sid s))) \<le> calls (rt_world s) + n"
proof -
  note inv = counted_invariant[OF assms(1)]
  define k where "k = calls (rt_world s)"
  let ?P = "calls_upto calls k" and ?Q = "calls_upto calls (k + n)"
  have weak: "?P s \<Longrightarrow> ?Q s" for s by simp
  have loop: "leads ?P ?Q (run_loop H sid ag p fw t (nat (max_turns (pf_stop_conditions p))))"
    if "h_load_profile H m = Inr p" for ag p fw t m
    using assms(2) that by (intro leads_weaken[OF run_loop_counts[OF assms(1)]]) force
  have destroy: "keeps ?Q (destroy_sandboxes H)"
    unfolding destroy_sandboxes_def by (intro keeps_rules in_sandbox_upto)
  have now: "keeps ?Q (worldM (h_now H))"
    using assms(1) by (intro world_upto) (simp add: counts_calls_def)
  have finish: "leads ?Q ?Q (bindM (worldM (h_now H)) (\<lambda>now.
      bindM (write_db sid (mark_complete now sid)) (\<lambda>_. returnM reason)))" for reason :: stop_reason
    by (intro leads_keeps keeps_rules now write_upto)
  have reset: "keeps ?P (modifyM (rt_provisioned_update (\<lambda>_. [])))" by (rule keeps_read_cong) simp
  have loaded: "leads ?P ?Q (bindM (orRaise id (h_load_profile H m)) f)"
    if "\<And>p. h_load_profile H m = Inr p \<Longrightarrow> leads ?P ?Q (f p)" for m f
    using that by (cases "h_load_profile H m") (auto simp: orRaise_def leads_def bindM_def)
  have "leads ?P ?Q (run_session H sid)"
    unfolding run_session_def
    by (intro leads_after[OF keeps_read_db] loaded leads_after[OF keeps_orRaise]
        leads_after[OF turn_invariant.seed_keeps[OF inv]]
        leads_after[OF turn_invariant.clock_keeps[OF inv]] leads_after[OF reset]
        leads_bindM[OF finally_counts[OF loop destroy] finish]) (simp_all add: weak)
  then show ?thesis by (simp add: leads_def k_def)
qed

end
