(* ===== verification/Examples_Harness.thy ===== *)
theory Examples_Harness
  imports Harness_Outcomes Harness_Facts Examples_Sessions Examples_Context Examples_Sandbox
begin

text \<open>A scripted model that calls a tool and then answers, run through the whole loop.\<close>

type_synonym script = "nat \<times> nat"

text \<open>The first component counts the calls of the model, the second the ids drawn.\<close>

definition scripted_model ::
  "router_profile \<Rightarrow> message list \<Rightarrow> tool_def list option \<Rightarrow> script
    \<Rightarrow> (model_chunk list \<times> exn option) \<times> script" where
  "scripted_model rp ms tools w =
     ((if fst w = 0 then [text_delta ''let me look'', tool_call_end ''toolu_9'' ''bash'' [] 0]
       else [text_delta ''all done''], None), (Suc (fst w), snd w))"

definition scripted_profile :: profile where
  "scripted_profile = sample_profile\<lparr>pf_context :=
     (pf_context sample_profile)\<lparr>compaction_threshold := Some 400\<rparr>\<rparr>"

definition scripted_harness :: "('b, script) harness" where
  "scripted_harness =
     \<lparr>h_router = scripted_model, h_backend = None, h_proxy = None, h_proxy_schemas = [],
      h_load_profile = (\<lambda>_. Inr scripted_profile), h_adapters = [(''vanilla'', Vanilla)],
      h_validate_recipe = (\<lambda>_. Inr default_recipe), h_validate_usage = (\<lambda>_. Inl (Exn [] [])),
      h_now = (\<lambda>w. (9, w)), h_monotonic = (\<lambda>w. (0, w)),
      h_uuid4 = (\<lambda>w. (of_nat (1000 + snd w), (fst w, Suc (snd w)))),
      h_uuid5 = (\<lambda>s. if starts_with ''tename:system-prompt'' s then 501
                     else if starts_with ''tename:tool-result'' s then 502 else 503)\<rparr>"

definition run_start :: "((string, tree) docker, script) run_state" where
  "run_start = \<lparr>rt_db = sample_db, rt_sandbox = toy_sandbox, rt_world = (0, 0), rt_provisioned = []\<rparr>"

lemma scripted_returns: "fst (run_session scripted_harness 7 run_start) = Inr No_Tool_Calls"
  by code_simp

lemma start_ok: "service_ok (rt_db run_start)"
  using sample_db_ok by (simp add: run_start_def)

theorem run_session_append_only_witness:
  "prefix (session_log sample_db 7)
     (session_log (rt_db (snd (run_session scripted_harness 7 run_start))) 7)"
  using run_session_append_only[OF start_ok, of scripted_harness 7 7] by (simp add: run_start_def)

theorem run_session_closes_witness:
  "session_closed (rt_db (snd (run_session scripted_harness 7 run_start))) 7"
proof -
  have "run_session scripted_harness 7 run_start
      = (Inr No_Tool_Calls, snd (run_session scripted_harness 7 run_start))"
    using scripted_returns by (simp add: prod_eq_iff)
  from run_session_closes[OF this, of scripted_harness] show ?thesis by blast
qed

theorem run_session_model_calls_witness:
  "fst (rt_world (snd (run_session scripted_harness 7 run_start))) \<le> 3"
proof -
  have "counts_calls (scripted_harness :: ((string, tree) docker, script) harness) fst"
    by (simp add: counts_calls_def scripted_harness_def scripted_model_def)
  moreover have "\<forall>m p. h_load_profile (scripted_harness :: ((string, tree) docker, script) harness) m
      = Inr p \<longrightarrow> nat (max_turns (pf_stop_conditions p)) \<le> 3"
    by (auto simp: scripted_harness_def scripted_profile_def sample_profile_def)
  ultimately show ?thesis
    using run_session_model_calls[of scripted_harness fst 3 7 run_start]
    by (simp add: run_start_def)
qed


definition bash_call :: pending_event where
  "bash_call = \<lparr>pe_id = 77, pe_type = TOOL_CALL, pe_payload = [(''tool_name'', JStr ''bash'')]\<rparr>"

lemma call_dispatched:
  "execute_tool_calls scripted_harness 7 sample_agent [bash_call] run_start
    = (Inr (), snd (execute_tool_calls scripted_harness 7 sample_agent [bash_call] run_start))"
proof -
  have "is_return (fst (execute_tool_calls scripted_harness 7 sample_agent [bash_call] run_start))"
    by code_simp
  then show ?thesis by (auto simp: is_return_iff prod_eq_iff)
qed


theorem system_prompt_once_witness:
  "rt_db (snd (seed_system_prompt_if_needed scripted_harness 7 sample_agent
      (snd (seed_system_prompt_if_needed scripted_harness 7 sample_agent run_start))))
    = rt_db (snd (seed_system_prompt_if_needed scripted_harness 7 sample_agent run_start))"
proof (rule system_prompt_once[OF start_ok])
  have "is_return (fst (seed_system_prompt_if_needed scripted_harness 7 sample_agent run_start))"
    by code_simp
  then show "seed_system_prompt_if_needed scripted_harness 7 sample_agent run_start
      = (Inr (), snd (seed_system_prompt_if_needed scripted_harness 7 sample_agent run_start))"
    by (auto simp: is_return_iff prod_eq_iff)
  show "ag_system_prompt sample_agent = Some ''be brief''" by (simp add: sample_agent_def)
  show "rt_db (snd (seed_system_prompt_if_needed scripted_harness 7 sample_agent run_start))
      = run_ops service_step []
          (rt_db (snd (seed_system_prompt_if_needed scripted_harness 7 sample_agent run_start)))"
    by simp
qed simp_all

end
