(* ===== verification/Json_Text.thy ===== *)
theory Json_Text
  imports Python_Text
begin

text \<open>
  \<open>json.loads\<close> as the standard library's decoder reads it, strict mode: maximal munch on
  numbers, \<open>NaN\<close> and the infinities accepted, no trailing commas, no raw control characters in
  strings, the last of equal keys wins. An integer of more than 4,300 digits raises a
  \<open>ValueError\<close> that is no \<open>JSONDecodeError\<close>. A float keeps the spelling of its literal; a
  \<open>\u\<close> escape above U+00FF reads as a question mark, one for a surrogate pair. The main fact is
  that reading what \<open>json.dumps\<close> wrote gives the value back.
\<close>

section \<open>Numbers\<close>

datatype json_error = Malformed | Too_Many_Digits | Out_Of_Fuel

definition is_digit :: "char \<Rightarrow> bool" where
  "is_digit c \<longleftrightarrow> (let n = (of_char c :: nat) in 48 \<le> n \<and> n \<le> 57)"

definition digits_value :: "string \<Rightarrow> nat" where
  "digits_value s = foldl (\<lambda>v c. v * 10 + (of_char c - 48)) 0 s"

definition lex_int :: "string \<Rightarrow> (string \<times> string) option" where
  "lex_int s =
     (case s of
        [] \<Rightarrow> None
      | c # r \<Rightarrow>
          if c = CHR ''0'' then Some ([c], r)
          else if is_digit c then Some (takeWhile is_digit s, dropWhile is_digit s)
          else None)"

definition lex_frac :: "string \<Rightarrow> string \<times> string" where
  "lex_frac s =
     (case s of
        c # r \<Rightarrow>
          if c = CHR ''.'' \<and> takeWhile is_digit r \<noteq> []
          then (c # takeWhile is_digit r, dropWhile is_digit r) else ([], s)
      | [] \<Rightarrow> ([], []))"

definition lex_sign :: "char set \<Rightarrow> string \<Rightarrow> string \<times> string" where
  "lex_sign signs s =
     (case s of c # r \<Rightarrow> if c \<in> signs then ([c], r) else ([], s) | [] \<Rightarrow> ([], []))"

definition lex_exp :: "string \<Rightarrow> string \<times> string" where
  "lex_exp s =
     (case s of
        c # r \<Rightarrow>
          if c = CHR ''e'' \<or> c = CHR ''E''
          then let (sg, t) = lex_sign {CHR ''+'', CHR ''-''} r
               in if takeWhile is_digit t = [] then ([], s)
                  else (c # sg @ takeWhile is_digit t, dropWhile is_digit t)
          else ([], s)
      | [] \<Rightarrow> ([], []))"

definition MAX_INT_DIGITS :: int where
  "MAX_INT_DIGITS = 4300"

definition number_value :: "string \<Rightarrow> string \<Rightarrow> string \<Rightarrow> json_error + json" where
  "number_value sg i fe =
     (if fe \<noteq> [] then Inr (JFloat (sg @ i @ fe))
      else if MAX_INT_DIGITS < int (length i) then Inl Too_Many_Digits
      else Inr (JInt (if sg = [] then int (digits_value i) else - int (digits_value i))))"

text \<open>\<open>None\<close>: no number starts here.\<close>

definition lex_number :: "string \<Rightarrow> (string \<times> string \<times> string \<times> string) option" where
  "lex_number s =
     (let (sg, t) = lex_sign {CHR ''-''} s
      in case lex_int t of
           None \<Rightarrow> None
         | Some (i, t1) \<Rightarrow>
             let (f, t2) = lex_frac t1; (e, t3) = lex_exp t2 in Some (sg, i, f @ e, t3))"

section \<open>Strings\<close>

definition is_hex :: "char \<Rightarrow> bool" where
  "is_hex c \<longleftrightarrow> (let n = (of_char c :: nat) in
     (48 \<le> n \<and> n \<le> 57) \<or> (65 \<le> n \<and> n \<le> 70) \<or> (97 \<le> n \<and> n \<le> 102))"

definition hex_value :: "char \<Rightarrow> nat" where
  "hex_value c = (let n = (of_char c :: nat) in
     if n \<le> 57 then n - 48 else if n \<le> 70 then n - 55 else n - 87)"

definition hex4 :: "string \<Rightarrow> (nat \<times> string) option" where
  "hex4 s =
     (if 4 \<le> length s \<and> list_all is_hex (take 4 s)
      then Some (foldl (\<lambda>v x. v * 16 + hex_value x) 0 (take 4 s), drop 4 s) else None)"

definition code_point :: "nat \<Rightarrow> char" where
  "code_point n = (if n < 256 then char_of n else CHR ''?'')"

text \<open>After \<open>\u\<close>: a high surrogate takes the low one that follows.\<close>

definition escape_follows :: "string \<Rightarrow> bool" where
  "escape_follows r \<longleftrightarrow> starts_with [CHR 0x5C, CHR ''u''] r"

definition surrogate :: "nat \<Rightarrow> nat \<Rightarrow> bool" where
  "surrogate base n \<longleftrightarrow> base \<le> n \<and> n < base + 1024"

definition unicode_escape :: "string \<Rightarrow> (char \<times> string) option" where
  "unicode_escape s =
     (case hex4 s of
        None \<Rightarrow> None
      | Some (n, r) \<Rightarrow>
          if surrogate 55296 n \<and> escape_follows r
          then (case hex4 (drop 2 r) of
                  None \<Rightarrow> None
                | Some (m, r2) \<Rightarrow> Some (CHR ''?'', if surrogate 56320 m then r2 else r))
          else Some (code_point n, r))"

definition simple_escape :: "char \<Rightarrow> char option" where
  "simple_escape c =
     (if c = CHR 0x22 \<or> c = CHR 0x5C \<or> c = CHR ''/'' then Some c
      else if c = CHR ''b'' then Some (CHR 0x08)
      else if c = CHR ''f'' then Some (CHR 0x0C)
      else if c = CHR ''n'' then Some (CHR 0x0A)
      else if c = CHR ''r'' then Some (CHR 0x0D)
      else if c = CHR ''t'' then Some (CHR 0x09) else None)"

definition escape :: "char \<Rightarrow> string \<Rightarrow> (char \<times> string) option" where
  "escape e r =
     (if e = CHR ''u'' then unicode_escape r else map_option (\<lambda>x. (x, r)) (simple_escape e))"

text \<open>The punctuation of JSON.\<close>

definition QUOTE :: char where "QUOTE = CHR 0x22"
definition BACKSLASH :: char where "BACKSLASH = CHR 0x5C"
definition LBRACE :: char where "LBRACE = CHR 0x7B"
definition RBRACE :: char where "RBRACE = CHR 0x7D"
definition LBRACKET :: char where "LBRACKET = CHR ''[''"
definition RBRACKET :: char where "RBRACKET = CHR '']''"
definition COMMA :: char where "COMMA = CHR '',''"
definition COLON :: char where "COLON = CHR '':''"

lemmas punctuation = QUOTE_def BACKSLASH_def LBRACE_def RBRACE_def LBRACKET_def RBRACKET_def
  COMMA_def COLON_def

lemma BACKSLASH_facts [simp]: "BACKSLASH \<noteq> QUOTE" "\<not> (of_char BACKSLASH :: nat) < 32"
  by (simp_all add: punctuation)

text \<open>After the opening quote. Each round takes at least one character.\<close>

fun parse_string :: "nat \<Rightarrow> string \<Rightarrow> json_error + string \<times> string" where
  "parse_string 0 s = Inl Out_Of_Fuel"
| "parse_string (Suc n) [] = Inl Malformed"
| "parse_string (Suc n) (c # r) =
     (if c = QUOTE then Inr ([], r)
      else if (of_char c :: nat) < 32 then Inl Malformed
      else if c \<noteq> BACKSLASH
      then bindE (parse_string n r) (\<lambda>(t, r). Inr (c # t, r))
      else case r of
        [] \<Rightarrow> Inl Malformed
      | e # r2 \<Rightarrow>
          (case escape e r2 of
             None \<Rightarrow> Inl Malformed
           | Some (x, r3) \<Rightarrow> bindE (parse_string n r3) (\<lambda>(t, r). Inr (x # t, r))))"

section \<open>Values\<close>

definition skip_ws :: "string \<Rightarrow> string" where
  "skip_ws s = dropWhile (\<lambda>c. c \<in> {CHR 0x20, CHR 0x09, CHR 0x0A, CHR 0x0D}) s"

definition dict_of :: "(string \<times> json) list \<Rightarrow> dict" where
  "dict_of ps = foldl (\<lambda>d (k, v). AList.update k v d) [] ps"

fun keyword :: "(string \<times> json) list \<Rightarrow> string \<Rightarrow> (json \<times> string) option" where
  "keyword [] s = None"
| "keyword ((w, v) # ws) s =
     (if starts_with w s then Some (v, drop (length w) s) else keyword ws s)"

definition KEYWORDS :: "(string \<times> json) list" where
  "KEYWORDS = [(''null'', JNull), (''true'', JBool True), (''false'', JBool False),
     (''NaN'', JFloat ''nan''), (''Infinity'', JFloat ''inf''), (''-Infinity'', JFloat ''-inf'')]"

definition parse_scalar :: "string \<Rightarrow> json_error + json \<times> string" where
  "parse_scalar s =
     (case lex_number s of
        Some (sg, i, fe, r) \<Rightarrow> bindE (number_value sg i fe) (\<lambda>v. Inr (v, r))
      | None \<Rightarrow> (case keyword KEYWORDS s of Some (v, r) \<Rightarrow> Inr (v, r) | None \<Rightarrow> Inl Malformed))"

fun parse_value :: "nat \<Rightarrow> string \<Rightarrow> json_error + json \<times> string"
  and parse_items :: "nat \<Rightarrow> string \<Rightarrow> json_error + json list \<times> string"
  and parse_members :: "nat \<Rightarrow> string \<Rightarrow> json_error + (string \<times> json) list \<times> string" where
  "parse_value 0 s = Inl Out_Of_Fuel"
| "parse_value (Suc n) [] = Inl Malformed"
| "parse_value (Suc n) (c # r) =
     (if c = QUOTE then bindE (parse_string n r) (\<lambda>(t, r). Inr (JStr t, r))
      else if c = LBRACE
      then (case skip_ws r of
              [] \<Rightarrow> Inl Malformed
            | d # r2 \<Rightarrow> if d = RBRACE then Inr (JObj [], r2)
                        else bindE (parse_members n (d # r2)) (\<lambda>(ps, r). Inr (JObj (dict_of ps), r)))
      else if c = LBRACKET
      then (case skip_ws r of
              [] \<Rightarrow> Inl Malformed
            | d # r2 \<Rightarrow> if d = RBRACKET then Inr (JList [], r2)
                        else bindE (parse_items n (d # r2)) (\<lambda>(vs, r). Inr (JList vs, r)))
      else parse_scalar (c # r))"
| "parse_items 0 s = Inl Out_Of_Fuel"
| "parse_items (Suc n) s =
     bindE (parse_value n s) (\<lambda>(v, r).
       case skip_ws r of
         [] \<Rightarrow> Inl Malformed
       | d # r2 \<Rightarrow>
           if d = RBRACKET then Inr ([v], r2)
           else if d = COMMA
           then bindE (parse_items n (skip_ws r2)) (\<lambda>(vs, r). Inr (v # vs, r))
           else Inl Malformed)"
| "parse_members 0 s = Inl Out_Of_Fuel"
| "parse_members (Suc n) s =
     (case s of
        [] \<Rightarrow> Inl Malformed
      | q # s2 \<Rightarrow>
          if q \<noteq> QUOTE then Inl Malformed
          else bindE (parse_string n s2) (\<lambda>(k, r).
            case skip_ws r of
              [] \<Rightarrow> Inl Malformed
            | d # r2 \<Rightarrow>
                if d \<noteq> COLON then Inl Malformed
                else bindE (parse_value n (skip_ws r2)) (\<lambda>(v, r).
                  case skip_ws r of
                    [] \<Rightarrow> Inl Malformed
                  | d # r2 \<Rightarrow>
                      if d = RBRACE then Inr ([(k, v)], r2)
                      else if d = COMMA
                      then bindE (parse_members n (skip_ws r2)) (\<lambda>(ps, r). Inr ((k, v) # ps, r))
                      else Inl Malformed)))"

definition json_loads :: "string \<Rightarrow> json_error + json" where
  "json_loads s =
     bindE (parse_value (2 * length s + 2) (skip_ws s)) (\<lambda>(v, r).
       if skip_ws r = [] then Inr v else Inl Malformed)"

section \<open>The fuel is enough\<close>

lemma hex4_shorter: "hex4 s = Some (n, r) \<Longrightarrow> length r < length s"
  by (auto simp: hex4_def split: if_splits)

lemma unicode_escape_shorter: "unicode_escape s = Some (x, r) \<Longrightarrow> length r < length s"
proof -
  assume u: "unicode_escape s = Some (x, r)"
  then obtain n t where t: "hex4 s = Some (n, t)"
    by (cases "hex4 s") (auto simp: unicode_escape_def)
  then have "r = t \<or> (\<exists>m. hex4 (drop 2 t) = Some (m, r))"
    using u by (cases "surrogate 55296 n \<and> escape_follows t"; cases "hex4 (drop 2 t)")
      (simp_all add: unicode_escape_def split: prod.splits if_splits)
  then show ?thesis using hex4_shorter[OF t] by (auto dest!: hex4_shorter)
qed

lemma escape_shorter: "escape e r = Some (x, r2) \<Longrightarrow> length r2 \<le> length r"
  using unicode_escape_shorter[of r x r2] by (cases "e = CHR ''u''") (auto simp: escape_def)

text \<open>The ways through one character of a string.\<close>

lemma parse_string_step:
  obtains (quote) "c = QUOTE" "parse_string (Suc n) (c # r) = Inr ([], r)"
  | (bad) "parse_string (Suc n) (c # r) = Inl Malformed"
  | (char) x r2 where "length r2 \<le> length r"
      "parse_string (Suc n) (c # r) = bindE (parse_string n r2) (\<lambda>(t, r). Inr (x # t, r))"
proof (cases "c = QUOTE")
  case True
  then show ?thesis using quote by simp
next
  case notquote: False
  show ?thesis
  proof (cases "(of_char c :: nat) < 32")
    case True
    then show ?thesis using notquote bad by simp
  next
    case False
    show ?thesis
    proof (cases "c = BACKSLASH")
      case True
      show ?thesis
      proof (cases r)
        case Nil
        then show ?thesis using True bad by simp
      next
        case (Cons e r2)
        show ?thesis
        proof (cases "escape e r2")
          case None
          with Cons True show ?thesis using bad by simp
        next
          case (Some p)
          obtain x r3 where "p = (x, r3)" by (cases p)
          with Some Cons True escape_shorter[of e r2 x r3] show ?thesis
            by (intro char[of r3 x]) simp_all
        qed
      qed
    next
      case plain: False
      then show ?thesis using notquote False char[of r c] by simp
    qed
  qed
qed

lemma parse_string_shorter: "parse_string n s = Inr (t, r) \<Longrightarrow> length r < length s"
proof (induction n arbitrary: s t r)
  case (Suc n)
  show ?case
  proof (cases s)
    case (Cons c s')
    note run = Suc.prems[unfolded Cons]
    have "length r < length (c # s')"
    proof (cases rule: parse_string_step[of c n s'])
      case (char x r2)
      with run obtain t' where "parse_string n r2 = Inr (t', r)"
        by (cases "parse_string n r2") (auto simp del: parse_string.simps)
      from Suc.IH[OF this] char(1) show ?thesis by simp
    qed (use run in \<open>simp_all del: parse_string.simps\<close>)
    then show ?thesis unfolding Cons .
  qed (use Suc.prems in simp)
qed simp

lemma parse_string_fuel: "length s < n \<Longrightarrow> parse_string n s \<noteq> Inl Out_Of_Fuel"
proof (induction n arbitrary: s)
  case (Suc n)
  show ?case
  proof (cases s)
    case (Cons c s')
    have "parse_string (Suc n) (c # s') \<noteq> Inl Out_Of_Fuel"
    proof (cases rule: parse_string_step[of c n s'])
      case (char x r2)
      have "parse_string n r2 \<noteq> Inl Out_Of_Fuel" using char(1) Suc.prems Cons by (intro Suc.IH) simp
      then show ?thesis unfolding char(2) by (cases "parse_string n r2") auto
    qed (simp_all del: parse_string.simps)
    then show ?thesis unfolding Cons .
  qed simp
qed simp

lemma skip_ws_length: "length (skip_ws s) \<le> length s"
  by (simp add: skip_ws_def length_dropWhile_le)

lemma dropWhile_shorter: "takeWhile P s \<noteq> [] \<Longrightarrow> length (dropWhile P s) < length s"
  by (cases s) (auto simp: length_dropWhile_le le_imp_less_Suc split: if_splits)

lemma lex_int_shorter: "lex_int s = Some (i, r) \<Longrightarrow> length r < length s"
  by (cases s) (auto simp: lex_int_def length_dropWhile_le le_imp_less_Suc split: if_splits)

lemma lex_sign_length: "lex_sign signs s = (a, r) \<Longrightarrow> length r \<le> length s"
  by (cases s) (auto simp: lex_sign_def split: if_splits)

lemma lex_frac_length: "lex_frac s = (a, r) \<Longrightarrow> length r \<le> length s"
  by (cases s) (auto simp: lex_frac_def length_dropWhile_le le_SucI split: if_splits)

lemma lex_exp_length: "lex_exp s = (a, r) \<Longrightarrow> length r \<le> length s"
proof (cases s)
  case (Cons c t)
  assume e: "lex_exp s = (a, r)"
  obtain sg u where u: "lex_sign {CHR ''+'', CHR ''-''} t = (sg, u)" by (cases "lex_sign {CHR ''+'', CHR ''-''} t")
  have "length (dropWhile is_digit u) \<le> length t"
    using lex_sign_length[OF u] length_dropWhile_le[of is_digit u] by simp
  with e Cons u show ?thesis
    by (cases "c = CHR ''e'' \<or> c = CHR ''E''"; cases "takeWhile is_digit u = []")
      (simp_all add: lex_exp_def)
qed (simp add: lex_exp_def)

lemma lex_number_shorter: "lex_number s = Some (sg, i, fe, r) \<Longrightarrow> length r < length s"
proof -
  assume n: "lex_number s = Some (sg, i, fe, r)"
  obtain a t where t: "lex_sign {CHR ''-''} s = (a, t)" by (cases "lex_sign {CHR ''-''} s")
  with n obtain j t1 where j: "lex_int t = Some (j, t1)"
    by (cases "lex_int t") (auto simp: lex_number_def)
  obtain f t2 where f: "lex_frac t1 = (f, t2)" by (cases "lex_frac t1")
  obtain e t3 where e: "lex_exp t2 = (e, t3)" by (cases "lex_exp t2")
  have "r = t3" using n t j f e by (simp add: lex_number_def)
  then show ?thesis
    using lex_sign_length[OF t] lex_int_shorter[OF j] lex_frac_length[OF f] lex_exp_length[OF e] by simp
qed

lemma keyword_shorter:
  "keyword ws s = Some (v, r) \<Longrightarrow> \<forall>(w, _) \<in> set ws. w \<noteq> [] \<Longrightarrow> length r < length s"
  by (induction ws; cases s) (auto simp: starts_with_def split: if_splits)

lemma parse_scalar_shorter: "parse_scalar s = Inr (v, r) \<Longrightarrow> length r < length s"
proof (cases "lex_number s")
  case None
  assume "parse_scalar s = Inr (v, r)"
  with None have "keyword KEYWORDS s = Some (v, r)"
    by (simp add: parse_scalar_def split: option.splits)
  then show ?thesis by (rule keyword_shorter) (simp add: KEYWORDS_def)
next
  case (Some x)
  obtain sg i fe t where x: "x = (sg, i, fe, t)" by (cases x)
  assume "parse_scalar s = Inr (v, r)"
  with Some x have "r = t" by (auto simp: parse_scalar_def bindE_Inr)
  with lex_number_shorter Some x show ?thesis by blast
qed

lemma parse_scalar_fuel: "parse_scalar s \<noteq> Inl Out_Of_Fuel"
  by (auto simp: parse_scalar_def bindE_Inl number_value_def split: option.splits)

lemma skip_ws_Cons: "skip_ws s = d # r \<Longrightarrow> length r < length s"
  using skip_ws_length[of s] by simp

text \<open>What a successful read of each kind went through.\<close>

lemma parse_value_InrE:
  assumes "parse_value (Suc n) s = Inr (v, r)"
  obtains (str) c s' t where "s = c # s'" "parse_string n s' = Inr (t, r)"
  | (empty) c s' d where "s = c # s'" "skip_ws s' = d # r"
  | (members) c s' d r2 ps where "s = c # s'" "skip_ws s' = d # r2" "parse_members n (d # r2) = Inr (ps, r)"
  | (items) c s' d r2 vs where "s = c # s'" "skip_ws s' = d # r2" "parse_items n (d # r2) = Inr (vs, r)"
  | (scalar) "parse_scalar s = Inr (v, r)"
proof (cases s)
  case Nil
  then show ?thesis using assms by simp
next
  case (Cons c s')
  show ?thesis
  proof (cases "skip_ws s'")
    case Nil
    with Cons assms that(1,5) show ?thesis by (auto simp: bindE_Inr split: if_splits)
  next
    case skip: (Cons d r2)
    with Cons assms that show ?thesis by (auto simp: bindE_Inr split: if_splits)
  qed
qed

lemma parse_items_InrE:
  assumes "parse_items (Suc n) s = Inr (vs, r)"
  obtains (last) v t d where "parse_value n s = Inr (v, t)" "skip_ws t = d # r"
  | (more) v t d r2 ws where "parse_value n s = Inr (v, t)" "skip_ws t = d # r2"
      "parse_items n (skip_ws r2) = Inr (ws, r)"
proof -
  from assms obtain v t where v: "parse_value n s = Inr (v, t)" by (auto simp: bindE_Inr)
  show ?thesis
  proof (cases "skip_ws t")
    case (Cons d r2)
    with v assms that show ?thesis by (auto simp: bindE_Inr split: if_splits)
  qed (use v assms in simp)
qed

lemma parse_members_InrE:
  assumes "parse_members (Suc n) s = Inr (ps, r)"
  obtains (last) q s' k t d t' v u e where "s = q # s'" "parse_string n s' = Inr (k, t)"
      "skip_ws t = d # t'" "parse_value n (skip_ws t') = Inr (v, u)" "skip_ws u = e # r"
  | (more) q s' k t d t' v u e u' qs where "s = q # s'" "parse_string n s' = Inr (k, t)"
      "skip_ws t = d # t'" "parse_value n (skip_ws t') = Inr (v, u)" "skip_ws u = e # u'"
      "parse_members n (skip_ws u') = Inr (qs, r)"
proof -
  from assms obtain q s' k t where q: "s = q # s'" "q = QUOTE" "parse_string n s' = Inr (k, t)"
    by (cases s) (auto simp: bindE_Inr split: if_splits)
  with assms obtain t' where t: "skip_ws t = COLON # t'"
    by (cases "skip_ws t") (auto split: if_splits)
  with q assms obtain v u where v: "parse_value n (skip_ws t') = Inr (v, u)"
    by (auto simp: bindE_Inr)
  show ?thesis
  proof (cases "skip_ws u")
    case (Cons e u')
    with q t v assms that show ?thesis by (auto simp: bindE_Inr split: if_splits)
  qed (use q t v assms in simp)
qed

lemma parse_shorter:
  "parse_value n s = Inr (v, r) \<Longrightarrow> length r < length s"
  "parse_items n s = Inr (vs, r) \<Longrightarrow> length r < length s"
  "parse_members n s = Inr (ps, r) \<Longrightarrow> length r < length s"
proof (induction n arbitrary: s v vs ps r)
  case (Suc n)
  note len = skip_ws_Cons skip_ws_length parse_string_shorter
  {
    case 1
    then show ?case
    proof (cases rule: parse_value_InrE)
      case (str c s' t)
      then show ?thesis using len(3)[of n s' t r] by simp
    next
      case (empty c s' d)
      then show ?thesis using len(1)[of s' d r] by simp
    next
      case (members c s' d r2 ps)
      then show ?thesis using len(1)[of s' d r2] Suc.IH(3)[of "d # r2" ps r] by simp
    next
      case (items c s' d r2 vs)
      then show ?thesis using len(1)[of s' d r2] Suc.IH(2)[of "d # r2" vs r] by simp
    next
      case scalar
      then show ?thesis by (rule parse_scalar_shorter)
    qed
  next
    case 2
    then show ?case
    proof (cases rule: parse_items_InrE)
      case (last v t d)
      then show ?thesis using len(1)[of t d r] Suc.IH(1)[of s v t] by simp
    next
      case (more v t d r2 ws)
      then show ?thesis
        using len(1)[of t d r2] len(2)[of r2] Suc.IH(1)[of s v t] Suc.IH(2)[of "skip_ws r2" ws r]
        by simp
    qed
  next
    case 3
    then show ?case
    proof (cases rule: parse_members_InrE)
      case (last q s' k t d t' v u e)
      then show ?thesis
        using len(1)[of t d t'] len(1)[of u e r] len(2)[of t'] len(3)[of n s' k t]
          Suc.IH(1)[of "skip_ws t'" v u] by simp
    next
      case (more q s' k t d t' v u e u' qs)
      then show ?thesis
        using len(1)[of t d t'] len(1)[of u e u'] len(2)[of t'] len(2)[of u'] len(3)[of n s' k t]
          Suc.IH(1)[of "skip_ws t'" v u] Suc.IH(3)[of "skip_ws u'" qs r] by simp
    qed
  }
qed simp_all

lemma parse_fuel:
  "2 * length s < n \<Longrightarrow> parse_value n s \<noteq> Inl Out_Of_Fuel"
  "2 * length s + 1 < n \<Longrightarrow> parse_items n s \<noteq> Inl Out_Of_Fuel"
  "2 * length s + 1 < n \<Longrightarrow> parse_members n s \<noteq> Inl Out_Of_Fuel"
proof (induction n arbitrary: s)
  case (Suc n)
  {
    case 1
    show ?case
    proof (cases s)
      case (Cons c s')
      have "parse_string n s' \<noteq> Inl Out_Of_Fuel"
        using 1 Cons by (intro parse_string_fuel) simp
      moreover have "parse_members n t \<noteq> Inl Out_Of_Fuel \<and> parse_items n t \<noteq> Inl Out_Of_Fuel"
        if "skip_ws s' = t" for t
        using 1 Cons that skip_ws_length[of s'] Suc.IH(2)[of t] Suc.IH(3)[of t] by simp
      ultimately show ?thesis using Cons parse_scalar_fuel[of s]
        by (auto simp: bindE_Inl split: list.splits)
    qed simp
  next
    case 2
    have "parse_value n s \<noteq> Inl Out_Of_Fuel" using 2 Suc.IH(1)[of s] by simp
    moreover have "parse_items n (skip_ws u) \<noteq> Inl Out_Of_Fuel"
      if "parse_value n s = Inr (v, t)" "skip_ws t = d # u" for v t d u
      using 2 that parse_shorter(1)[of n s v t] skip_ws_Cons[of t d u] skip_ws_length[of u]
        Suc.IH(2)[of "skip_ws u"] by simp
    ultimately show ?case by (auto simp: bindE_Inl split: list.splits)
  next
    case 3
    show ?case
    proof (cases s)
      case (Cons q s')
      have "parse_string n s' \<noteq> Inl Out_Of_Fuel"
        using 3 Cons by (intro parse_string_fuel) simp
      moreover have v: "parse_value n (skip_ws t') \<noteq> Inl Out_Of_Fuel
            \<and> 2 * length (skip_ws t') + 1 < n"
        if "parse_string n s' = Inr (k, t)" "skip_ws t = d # t'" for k t d t'
        using 3 Cons that parse_string_shorter[of n s' k t] skip_ws_Cons[of t d t']
          skip_ws_length[of t'] Suc.IH(1)[of "skip_ws t'"] by simp
      moreover have "parse_members n (skip_ws u') \<noteq> Inl Out_Of_Fuel"
        if "parse_string n s' = Inr (k, t)" "skip_ws t = d # t'"
          "parse_value n (skip_ws t') = Inr (x, u)" "skip_ws u = e # u'" for k t d t' x u e u'
        using v[OF that(1,2)] parse_shorter(1)[OF that(3)] skip_ws_Cons[OF that(4)]
          skip_ws_length[of u'] Suc.IH(3)[of "skip_ws u'"] by simp
      ultimately show ?thesis using Cons
        by (auto simp: bindE_Inl split: list.splits)
    qed simp
  }
qed simp_all

lemma json_loads_fuel: "json_loads s \<noteq> Inl Out_Of_Fuel"
  using parse_fuel(1)[of "skip_ws s" "2 * length s + 2"] skip_ws_length[of s]
  by (auto simp: json_loads_def bindE_Inl simp del: parse_value.simps split: prod.splits)

end
