(* ===== verification/Json_Round_Trip.thy ===== *)
theory Json_Round_Trip
  imports Json_Text
begin

text \<open>
  Reading what \<open>json.dumps\<close> wrote gives the value back, for the values whose dictionaries have
  distinct keys, whose integers fit the digit limit and whose floats have the spelling of a
  JSON number. The reader is followed by text that ends a number: the end of the input or
  punctuation.
\<close>

section \<open>Strings\<close>

lemma hex_digit_value: "d < 16 \<Longrightarrow> is_hex (hex_digit d) \<and> hex_value (hex_digit d) = d"
  by (auto simp: hex_digit_def is_hex_def hex_value_def Let_def)

lemma hex_pad_4:
  "hex_pad 4 n = [hex_digit (n div 16 div 16 div 16 mod 16), hex_digit (n div 16 div 16 mod 16),
     hex_digit (n div 16 mod 16), hex_digit (n mod 16)]"
proof -
  have "(4::nat) = Suc (Suc (Suc (Suc 0)))" by simp
  then show ?thesis by (simp only: hex_pad.simps append.simps)
qed

lemma hex4_pad: "n < 256 \<Longrightarrow> hex4 (hex_pad 4 n @ r) = Some (n, r)"
proof -
  assume n: "n < 256"
  then have "n div 16 div 16 = 0" "n div 16 mod 16 = n div 16" by simp_all
  with n show ?thesis by (simp add: hex4_def hex_pad_4 hex_digit_value)
qed

lemma unicode_escape_pad:
  assumes "(of_char c :: nat) = n"
  shows "unicode_escape (hex_pad 4 n @ r) = Some (c, r)"
proof -
  have n: "n < 256" using assms nat_of_char_less_256 by blast
  then have "\<not> surrogate 55296 n" by (simp add: surrogate_def)
  with n show ?thesis using assms
    by (auto simp: unicode_escape_def hex4_pad code_point_def)
qed

text \<open>One written character is read by one round.\<close>

lemma char_eqI: "(of_char c :: nat) = of_char d \<Longrightarrow> c = d"
  by simp

lemma parse_json_char:
  "parse_string (Suc n) (json_char a c @ r) = bindE (parse_string n r) (\<lambda>(t, r). Inr (c # t, r))"
proof -
  let ?k = "of_char c :: nat"
  have esc: "parse_string (Suc n) (CHR 0x5C # e # u)
      = (case escape e u of None \<Rightarrow> Inl Malformed
         | Some (x, v) \<Rightarrow> bindE (parse_string n v) (\<lambda>(t, r). Inr (x # t, r)))" for e u
    using BACKSLASH_facts by (simp add: BACKSLASH_def)
  note simple = esc escape_def simple_escape_def json_char_def Let_def
  consider "?k = 34" | "?k = 92" | "?k = 8" | "?k = 12" | "?k = 10" | "?k = 13" | "?k = 9"
    | (u) "?k \<notin> {34, 92, 8, 12, 10, 13, 9}" "?k < 32 \<or> (a \<and> 126 < ?k)"
    | (plain) "?k \<notin> {34, 92, 8, 12, 10, 13, 9}" "\<not> (?k < 32 \<or> (a \<and> 126 < ?k))"
    by blast
  then show ?thesis
  proof cases
    case 1 then have "c = CHR 0x22" by (intro char_eqI) simp
    then show ?thesis by (simp add: simple del: parse_string.simps)
  next
    case 2 then have "c = CHR 0x5C" by (intro char_eqI) simp
    then show ?thesis by (simp add: simple del: parse_string.simps)
  next
    case 3 then have "c = CHR 0x08" by (intro char_eqI) simp
    then show ?thesis by (simp add: simple del: parse_string.simps)
  next
    case 4 then have "c = CHR 0x0C" by (intro char_eqI) simp
    then show ?thesis by (simp add: simple del: parse_string.simps)
  next
    case 5 then have "c = CHR 0x0A" by (intro char_eqI) simp
    then show ?thesis by (simp add: simple del: parse_string.simps)
  next
    case 6 then have "c = CHR 0x0D" by (intro char_eqI) simp
    then show ?thesis by (simp add: simple del: parse_string.simps)
  next
    case 7 then have "c = CHR 0x09" by (intro char_eqI) simp
    then show ?thesis by (simp add: simple del: parse_string.simps)
  next
    case u
    then have "json_char a c = CHR 0x5C # CHR ''u'' # hex_pad 4 ?k"
      by (simp add: json_char_def Let_def)
    then show ?thesis by (simp add: esc escape_def unicode_escape_pad[OF refl] del: parse_string.simps)
  next
    case plain
    then have "json_char a c = [c]" "c \<noteq> QUOTE" "c \<noteq> BACKSLASH" "\<not> ?k < 32"
      by (auto simp: json_char_def Let_def punctuation)
    then show ?thesis by simp
  qed
qed

lemma parse_json_chars:
  "length s < n \<Longrightarrow>
   parse_string n (concat (map (json_char a) s) @ QUOTE # rest) = Inr (s, rest)"
proof (induction s arbitrary: n)
  case Nil
  then show ?case by (cases n) simp_all
next
  case (Cons c s)
  then obtain m where m: "n = Suc m" "length s < m" by (cases n) auto
  with Cons.IH[of m] show ?case by (simp add: parse_json_char del: parse_string.simps)
qed

section \<open>Numbers\<close>

definition ends_number :: "string \<Rightarrow> bool" where
  "ends_number s \<longleftrightarrow> (case s of [] \<Rightarrow> True
     | c # _ \<Rightarrow> \<not> is_digit c \<and> c \<notin> {CHR ''.'', CHR ''e'', CHR ''E'', CHR ''+'', CHR ''-''})"

lemma ends_numberD:
  "ends_number (c # r) \<Longrightarrow> \<not> is_digit c"
  "ends_number (c # r) \<Longrightarrow> c \<noteq> CHR ''.''"
  "ends_number (c # r) \<Longrightarrow> \<not> (c = CHR ''e'' \<or> c = CHR ''E'')"
  "ends_number (c # r) \<Longrightarrow> c \<notin> {CHR ''+'', CHR ''-''}"
  by (simp_all add: ends_number_def)

lemma digits_append:
  assumes "ends_number r"
  shows "takeWhile is_digit (s @ r) = takeWhile is_digit s"
    and "dropWhile is_digit (s @ r) = dropWhile is_digit s @ r"
  using assms by (induction s; cases r; auto dest: ends_numberD(1))+

lemma lex_int_append:
  "ends_number r \<Longrightarrow> lex_int s = Some (i, t) \<Longrightarrow> lex_int (s @ r) = Some (i, t @ r)"
proof (cases s)
  case (Cons c u)
  assume r: "ends_number r" and "lex_int s = Some (i, t)"
  then show ?thesis using digits_append[OF r, of s] unfolding Cons
    by (auto simp: lex_int_def simp del: dropWhile.simps takeWhile.simps split: if_splits)
qed (simp add: lex_int_def)

lemma lex_frac_append:
  "ends_number r \<Longrightarrow> lex_frac s = (f, t) \<Longrightarrow> lex_frac (s @ r) = (f, t @ r)"
proof (cases s)
  case Nil
  assume "ends_number r" "lex_frac s = (f, t)"
  with Nil show ?thesis by (cases r) (auto simp: lex_frac_def dest: ends_numberD(2))
next
  case (Cons c u)
  assume r: "ends_number r" and "lex_frac s = (f, t)"
  then show ?thesis unfolding Cons
    by (cases "c = CHR ''.'' \<and> takeWhile is_digit u \<noteq> []")
      (auto simp: lex_frac_def digits_append[OF r])
qed

lemma lex_sign_append:
  assumes "ends_number r" "sg \<subseteq> {CHR ''+'', CHR ''-''}"
  shows "lex_sign sg (s @ r) = (fst (lex_sign sg s), snd (lex_sign sg s) @ r)"
proof (cases s)
  case Nil
  have "c \<notin> sg" if "r = c # r'" for c r' using ends_numberD(4) assms that by blast
  then show ?thesis unfolding Nil by (cases r) (simp_all add: lex_sign_def)
qed (simp add: lex_sign_def)

lemma lex_exp_append:
  "ends_number r \<Longrightarrow> lex_exp s = (f, t) \<Longrightarrow> lex_exp (s @ r) = (f, t @ r)"
proof (cases s)
  case Nil
  assume "ends_number r" "lex_exp s = (f, t)"
  with Nil show ?thesis by (cases r) (simp_all add: lex_exp_def ends_numberD(3))
next
  case (Cons c u)
  assume r: "ends_number r" and e: "lex_exp s = (f, t)"
  obtain sg v where v: "lex_sign {CHR ''+'', CHR ''-''} u = (sg, v)" by (meson surj_pair)
  have v': "lex_sign {CHR ''+'', CHR ''-''} (u @ r) = (sg, v @ r)"
    using lex_sign_append[OF r subset_refl, of u] v by simp
  show ?thesis using e unfolding Cons
    by (cases "c = CHR ''e'' \<or> c = CHR ''E''"; cases "takeWhile is_digit v = []")
      (auto simp: lex_exp_def v v' digits_append[OF r])
qed

lemma lex_number_append:
  assumes "lex_number s = Some (sg, i, fe, t)" "ends_number r"
  shows "lex_number (s @ r) = Some (sg, i, fe, t @ r)"
proof -
  obtain a u where u: "lex_sign {CHR ''-''} s = (a, u)" by (meson surj_pair)
  then have u': "lex_sign {CHR ''-''} (s @ r) = (a, u @ r)"
    using lex_sign_append[OF assms(2), of "{CHR ''-''}" s] by simp
  from assms u obtain j t1 where j: "lex_int u = Some (j, t1)"
    by (cases "lex_int u") (auto simp: lex_number_def)
  obtain f t2 where f: "lex_frac t1 = (f, t2)" by (meson surj_pair)
  obtain e t3 where e: "lex_exp t2 = (e, t3)" by (meson surj_pair)
  show ?thesis
    using assms(1) u u' j f e lex_int_append[OF assms(2) j] lex_frac_append[OF assms(2) f]
      lex_exp_append[OF assms(2) e]
    by (simp add: lex_number_def)
qed

text \<open>An integer literal.\<close>

lemma is_digit_of [simp]: "(d::nat) < 10 \<Longrightarrow> is_digit (char_of (48 + d))"
  by (simp add: is_digit_def Let_def)

lemma nat_digits_all: "list_all is_digit (nat_digits n)"
proof (induction n rule: nat_digits.induct)
  case (1 n)
  then show ?case by (subst nat_digits.simps) simp
qed

lemma digits_value_snoc: "digits_value (s @ [c]) = digits_value s * 10 + (of_char c - 48)"
  by (simp add: digits_value_def)

lemma digits_value_nat [simp]: "digits_value (nat_digits n) = n"
proof (induction n rule: nat_digits.induct)
  case (1 n)
  show ?case
  proof (cases "n < 10")
    case True
    then show ?thesis by (simp add: digits_value_def)
  next
    case False
    with 1 show ?thesis
      by (subst nat_digits.simps) (simp add: digits_value_snoc)
  qed
qed

lemma nat_digits_zero_first:
  "nat_digits n = CHR ''0'' # r \<Longrightarrow> r = []"
proof (induction n arbitrary: r rule: nat_digits.induct)
  case (1 n)
  show ?case
  proof (cases "n < 10")
    case False
    with 1 obtain q where q: "nat_digits (n div 10) = CHR ''0'' # q"
      by (cases "nat_digits (n div 10)") (simp_all add: nat_digits.simps[of n])
    with 1(1)[OF False this] have "nat_digits (n div 10) = ''0''" by simp
    then have "n div 10 = digits_value ''0''" by (metis digits_value_nat)
    with False show ?thesis by (simp add: digits_value_def)
  qed (use 1 in \<open>simp add: nat_digits.simps[of n]\<close>)
qed

lemma digit_first: "nat_digits n = c # r \<Longrightarrow> is_digit c"
  using nat_digits_all[of n] by simp

lemma lex_int_digits: "lex_int (nat_digits n) = Some (nat_digits n, [])"
proof -
  obtain c r where c: "nat_digits n = c # r" by (cases "nat_digits n") simp_all
  have all: "takeWhile is_digit (nat_digits n) = nat_digits n"
      "dropWhile is_digit (nat_digits n) = []"
    using nat_digits_all[of n] by (auto simp: list_all_iff)
  show ?thesis
  proof (cases "c = CHR ''0''")
    case True
    with c nat_digits_zero_first[of n r] show ?thesis by (simp add: lex_int_def)
  next
    case False
    with all digit_first[OF c] show ?thesis
      unfolding c by (simp only: lex_int_def list.case if_False if_True)
  qed
qed

definition minus :: "int \<Rightarrow> string" where
  "minus i = (if i < 0 then ''-'' else [])"

lemma lex_number_int:
  "lex_number (int_str i) = Some (minus i, nat_digits (nat \<bar>i\<bar>), [], [])"
proof -
  have neq: "c \<noteq> CHR ''-''" if "nat_digits n = c # r" for n c r
    using digit_first[OF that] by (auto simp: is_digit_def Let_def)
  have "lex_sign {CHR ''-''} (nat_digits n) = ([], nat_digits n)" for n
    using neq by (cases "nat_digits n") (simp_all add: lex_sign_def)
  moreover have "lex_sign {CHR ''-''} (CHR ''-'' # nat_digits n) = (''-'', nat_digits n)" for n
    by (simp add: lex_sign_def)
  ultimately show ?thesis
    by (simp add: lex_number_def int_str_def lex_int_digits lex_frac_def lex_exp_def minus_def)
qed

lemma parse_int:
  "int (length (nat_digits (nat \<bar>i\<bar>))) \<le> MAX_INT_DIGITS \<Longrightarrow> ends_number r \<Longrightarrow>
   parse_scalar (int_str i @ r) = Inr (JInt i, r)"
  by (simp add: parse_scalar_def lex_number_append[OF lex_number_int] number_value_def minus_def)

text \<open>A float literal: \<open>repr\<close> of a finite double, or one of the three names.\<close>

definition float_text :: "string \<Rightarrow> bool" where
  "float_text s \<longleftrightarrow> s \<in> {''nan'', ''inf'', ''-inf''}
     \<or> (case lex_number s of Some (sg, i, fe, r) \<Rightarrow> fe \<noteq> [] \<and> r = [] | None \<Rightarrow> False)"

lemma lex_int_text: "lex_int s = Some (i, t) \<Longrightarrow> s = i @ t"
  by (cases s) (auto simp: lex_int_def simp del: takeWhile.simps dropWhile.simps
      split: if_splits)

lemma lex_number_split:
  assumes "lex_number s = Some (sg, i, fe, t)"
  obtains u t1 t2 f e where "lex_sign {CHR ''-''} s = (sg, u)" "lex_int u = Some (i, t1)"
    "lex_frac t1 = (f, t2)" "lex_exp t2 = (e, t)" "fe = f @ e"
proof -
  obtain a u where u: "lex_sign {CHR ''-''} s = (a, u)" by (meson surj_pair)
  with assms obtain j t1 where j: "lex_int u = Some (j, t1)"
    by (cases "lex_int u") (auto simp: lex_number_def)
  obtain f t2 where f: "lex_frac t1 = (f, t2)" by (meson surj_pair)
  obtain e t3 where e: "lex_exp t2 = (e, t3)" by (meson surj_pair)
  from assms u j f e that show ?thesis by (simp add: lex_number_def)
qed

lemma lex_sign_text: "lex_sign sgs s = (a, t) \<Longrightarrow> s = a @ t"
  by (cases s) (auto simp: lex_sign_def split: if_splits)

lemma lex_frac_text: "lex_frac s = (a, t) \<Longrightarrow> s = a @ t"
  by (cases s) (auto simp: lex_frac_def split: if_splits)

lemma lex_exp_text: "lex_exp s = (a, t) \<Longrightarrow> s = a @ t"
proof (cases s)
  case (Cons c u)
  assume e: "lex_exp s = (a, t)"
  obtain sg v where v: "lex_sign {CHR ''+'', CHR ''-''} u = (sg, v)" by (meson surj_pair)
  have "c # u = a @ t" using e[unfolded Cons] v
    by (cases "c = CHR ''e'' \<or> c = CHR ''E''"; cases "takeWhile is_digit v = []")
      (auto simp: lex_exp_def lex_sign_text[OF v] simp del: append_assoc
        simp flip: append_assoc, simp_all add: lex_sign_text[OF v])
  then show ?thesis unfolding Cons .
qed (simp add: lex_exp_def)

lemma lex_number_text: "lex_number s = Some (sg, i, fe, t) \<Longrightarrow> s = sg @ i @ fe @ t"
  by (elim lex_number_split)
    (metis append_assoc lex_exp_text lex_frac_text lex_int_text lex_sign_text)

lemma lex_number_first:
  "lex_number s = Some x \<Longrightarrow> \<exists>c r. s = c # r \<and> (is_digit c \<or> c = CHR ''-'')"
proof -
  assume "lex_number s = Some x"
  moreover obtain sg i fe t where "x = (sg, i, fe, t)" by (cases x)
  ultimately have n: "lex_number s = Some (sg, i, fe, t)" by simp
  show ?thesis
  proof (cases s)
    case Nil
    with n show ?thesis by (simp add: lex_number_def lex_sign_def lex_int_def)
  next
    case (Cons c r)
    have "is_digit c" if "c \<noteq> CHR ''-''"
      using n that unfolding Cons
      by (cases "c = CHR ''0''")
        (auto simp: lex_number_def lex_sign_def lex_int_def is_digit_def split: if_splits)
    with Cons show ?thesis by blast
  qed
qed

section \<open>Values\<close>

fun json_ok :: "json \<Rightarrow> bool"
  and items_ok :: "json list \<Rightarrow> bool"
  and pairs_ok :: "(string \<times> json) list \<Rightarrow> bool" where
  "json_ok JNull = True"
| "json_ok (JBool b) = True"
| "json_ok (JInt i) = (int (length (nat_digits (nat \<bar>i\<bar>))) \<le> MAX_INT_DIGITS)"
| "json_ok (JFloat r) = float_text r"
| "json_ok (JStr s) = True"
| "json_ok (JList xs) = items_ok xs"
| "json_ok (JObj d) = (distinct (map fst d) \<and> pairs_ok d)"
| "items_ok [] = True"
| "items_ok (x # xs) = (json_ok x \<and> items_ok xs)"
| "pairs_ok [] = True"
| "pairs_ok ((k, v) # d) = (json_ok v \<and> pairs_ok d)"

definition value_start :: "char \<Rightarrow> bool" where
  "value_start c \<longleftrightarrow> c \<notin> {CHR 0x20, CHR 0x09, CHR 0x0A, CHR 0x0D, RBRACKET, RBRACE}"

definition scalar_start :: "char \<Rightarrow> bool" where
  "scalar_start c \<longleftrightarrow> value_start c \<and> c \<notin> {QUOTE, LBRACE, LBRACKET}"

lemma number_start: "is_digit c \<or> c = CHR ''-'' \<Longrightarrow> scalar_start c"
  by (auto simp: scalar_start_def value_start_def is_digit_def punctuation Let_def)

lemma keyword_scalar:
  "ends_number r \<Longrightarrow> parse_scalar (''null'' @ r) = Inr (JNull, r)"
  "ends_number r \<Longrightarrow> parse_scalar (''true'' @ r) = Inr (JBool True, r)"
  "ends_number r \<Longrightarrow> parse_scalar (''false'' @ r) = Inr (JBool False, r)"
  "ends_number r \<Longrightarrow> parse_scalar (''NaN'' @ r) = Inr (JFloat ''nan'', r)"
  "ends_number r \<Longrightarrow> parse_scalar (''Infinity'' @ r) = Inr (JFloat ''inf'', r)"
  "ends_number r \<Longrightarrow> parse_scalar (''-Infinity'' @ r) = Inr (JFloat ''-inf'', r)"
  by (simp_all add: parse_scalar_def lex_number_def lex_sign_def lex_int_def is_digit_def
      KEYWORDS_def starts_with_def)

lemma float_text_cases:
  assumes "float_text s"
  obtains "s \<in> {''nan'', ''inf'', ''-inf''}"
  | sg i fe where "lex_number s = Some (sg, i, fe, [])" "fe \<noteq> []"
  using assms by (auto simp: float_text_def split: option.splits prod.splits)

lemma names_no_number:
  "lex_number ''nan'' = None" "lex_number ''inf'' = None" "lex_number ''-inf'' = None"
  by code_simp+

lemma json_float_number: "lex_number s = Some x \<Longrightarrow> json_float s = s"
  using names_no_number by (auto simp: json_float_def)

lemma parse_float:
  "float_text s \<Longrightarrow> ends_number r \<Longrightarrow> parse_scalar (json_float s @ r) = Inr (JFloat s, r)"
proof (elim float_text_cases)
  assume "s \<in> {''nan'', ''inf'', ''-inf''}" and r: "ends_number r"
  then show ?thesis using keyword_scalar(4-6)[OF r] by (auto simp: json_float_def)
next
  fix sg i fe
  assume n: "lex_number s = Some (sg, i, fe, [])" "fe \<noteq> []" and r: "ends_number r"
  have "lex_number (s @ r) = Some (sg, i, fe, r)" using lex_number_append[OF n(1) r] by simp
  moreover have "number_value sg i fe = Inr (JFloat s)"
    using n lex_number_text[OF n(1)] by (simp add: number_value_def)
  ultimately show ?thesis using n by (simp add: json_float_number parse_scalar_def)
qed

lemma parse_value_scalar:
  "scalar_start c \<Longrightarrow> parse_value (Suc n) (c # s) = parse_scalar (c # s)"
  by (simp add: scalar_start_def)

lemma value_start_skip: "value_start c \<Longrightarrow> skip_ws (c # s) = c # s"
  by (simp add: skip_ws_def value_start_def)

lemma json_float_start: "float_text s \<Longrightarrow> \<exists>c r. json_float s = c # r \<and> scalar_start c"
proof (elim float_text_cases)
  assume "s \<in> {''nan'', ''inf'', ''-inf''}"
  then show ?thesis
    by (auto simp: json_float_def scalar_start_def value_start_def punctuation)
next
  fix sg i fe
  assume n: "lex_number s = Some (sg, i, fe, [])"
  then show ?thesis using lex_number_first[OF n] number_start by (auto simp: json_float_number)
qed

lemma punctuation_start: "value_start QUOTE" "value_start LBRACE" "value_start LBRACKET"
  by (simp_all add: value_start_def punctuation)

lemma dumps_start: "json_ok v \<Longrightarrow> \<exists>c r. json_dumps a v = c # r \<and> value_start c"
proof (cases v)
  case (JInt i)
  then show ?thesis
    using lex_number_first[OF lex_number_int, of i] number_start by (auto simp: scalar_start_def)
next
  case (JFloat s)
  moreover assume "json_ok v"
  ultimately show ?thesis using json_float_start[of s] by (auto simp: scalar_start_def)
qed (use punctuation_start in \<open>auto simp: json_string_def QUOTE_def LBRACE_def LBRACKET_def
        value_start_def punctuation\<close>)

lemma dict_of_snoc: "dict_of (ps @ [(k, v)]) = AList.update k v (dict_of ps)"
  by (simp add: dict_of_def)

lemma update_fresh: "k \<notin> fst ` set d \<Longrightarrow> AList.update k v d = d @ [(k, v)]"
  by (induction d) auto

lemma dict_of_distinct: "distinct (map fst d) \<Longrightarrow> dict_of d = d"
proof (induction d rule: rev_induct)
  case (snoc p d)
  then show ?case by (cases p) (simp add: dict_of_snoc update_fresh)
qed (simp add: dict_of_def)

text \<open>What follows a value in the text.\<close>

lemma ends_punctuation:
  "ends_number []" "ends_number (COMMA # r)" "ends_number (RBRACKET # r)" "ends_number (RBRACE # r)"
  by (simp_all add: ends_number_def is_digit_def punctuation)

lemma skip_punctuation [simp]:
  "skip_ws (COMMA # r) = COMMA # r" "skip_ws (RBRACKET # r) = RBRACKET # r"
  "skip_ws (RBRACE # r) = RBRACE # r" "skip_ws (COLON # r) = COLON # r"
  "skip_ws (CHR 0x20 # r) = skip_ws r" "skip_ws [] = []"
  by (simp_all add: skip_ws_def punctuation)

lemma punctuation_distinct [simp]:
  "COMMA \<noteq> RBRACKET" "COMMA \<noteq> RBRACE" "LBRACE \<noteq> QUOTE" "LBRACKET \<noteq> QUOTE" "LBRACKET \<noteq> LBRACE"
  by (simp_all add: punctuation)

text \<open>The text of the elements and members, as it is written and read.\<close>

fun items_text :: "bool \<Rightarrow> json list \<Rightarrow> string \<Rightarrow> string" where
  "items_text a [] r = r"
| "items_text a [v] r = json_dumps a v @ RBRACKET # r"
| "items_text a (v # w # vs) r = json_dumps a v @ COMMA # CHR 0x20 # items_text a (w # vs) r"

definition member_text :: "bool \<Rightarrow> string \<times> json \<Rightarrow> string \<Rightarrow> string" where
  "member_text a p r = QUOTE # concat (map (json_char a) (fst p))
     @ QUOTE # COLON # CHR 0x20 # json_dumps a (snd p) @ r"

fun members_text :: "bool \<Rightarrow> (string \<times> json) list \<Rightarrow> string \<Rightarrow> string" where
  "members_text a [] r = r"
| "members_text a [p] r = member_text a p (RBRACE # r)"
| "members_text a (p # q # ps) r = member_text a p (COMMA # CHR 0x20 # members_text a (q # ps) r)"

lemma dumps_list:
  "vs \<noteq> [] \<Longrightarrow> json_dumps a (JList vs) @ r = LBRACKET # items_text a vs r"
proof -
  assume "vs \<noteq> []"
  then have "join_str '', '' (json_items a vs) @ CHR '']'' # r = items_text a vs r"
    by (induction a vs r rule: items_text.induct) (simp_all add: punctuation)
  then show ?thesis by (simp add: punctuation)
qed

lemma dumps_obj:
  "d \<noteq> [] \<Longrightarrow> json_dumps a (JObj d) @ r = LBRACE # members_text a d r"
proof -
  assume "d \<noteq> []"
  then have "join_str '', '' (json_pairs a d) @ CHR 0x7D # r = members_text a d r"
    by (induction a d r rule: members_text.induct)
      (auto simp: punctuation member_text_def json_string_def)
  then show ?thesis by (simp add: punctuation)
qed

section \<open>The round trip\<close>

lemma items_text_start:
  "vs \<noteq> [] \<Longrightarrow> items_ok vs \<Longrightarrow> \<exists>c t. items_text a vs r = c # t \<and> value_start c"
proof (cases vs)
  case (Cons v ws)
  assume "items_ok vs"
  with Cons obtain c t where "json_dumps a v = c # t" "value_start c"
    using dumps_start[of v a] by auto
  with Cons show ?thesis by (cases ws) simp_all
qed simp

lemma members_text_start: "d \<noteq> [] \<Longrightarrow> \<exists>t. members_text a d r = QUOTE # t"
  by (induction a d r rule: members_text.induct) (simp_all add: member_text_def)

lemma skip_dumps: "json_ok v \<Longrightarrow> skip_ws (json_dumps a v @ r) = json_dumps a v @ r"
  using dumps_start[of v a] value_start_skip by fastforce

lemma parse_value_string:
  "length s < n \<Longrightarrow> parse_value (Suc n) (json_string a s @ r) = Inr (JStr s, r)"
  using parse_json_chars[of s n a r] by (simp add: json_string_def flip: QUOTE_def)

lemma parse_value_items:
  assumes "vs \<noteq> []" "items_ok vs" "parse_items n (items_text a vs r) = Inr (vs, r)"
  shows "parse_value (Suc n) (LBRACKET # items_text a vs r) = Inr (JList vs, r)"
proof -
  obtain c t where c: "items_text a vs r = c # t" "value_start c"
    using items_text_start[OF assms(1,2)] by blast
  then have "c \<noteq> RBRACKET" by (auto simp: value_start_def)
  with c assms(3) show ?thesis by (simp add: value_start_skip)
qed

lemma parse_value_members:
  assumes "d \<noteq> []" "distinct (map fst d)" "parse_members n (members_text a d r) = Inr (d, r)"
  shows "parse_value (Suc n) (LBRACE # members_text a d r) = Inr (JObj d, r)"
proof -
  obtain t where c: "members_text a d r = QUOTE # t" using members_text_start[OF assms(1)] by blast
  have "QUOTE \<noteq> RBRACE" by (simp add: punctuation)
  with c assms(2,3) show ?thesis by (simp add: value_start_skip punctuation_start dict_of_distinct)
qed

lemma parse_members_member:
  assumes "json_ok v" "length k < n" "parse_value n (json_dumps a v @ r) = Inr (v, r)"
  shows "parse_members (Suc n) (member_text a (k, v) r) =
     (case skip_ws r of
        [] \<Rightarrow> Inl Malformed
      | d # r2 \<Rightarrow>
          if d = RBRACE then Inr ([(k, v)], r2)
          else if d = COMMA
          then bindE (parse_members n (skip_ws r2)) (\<lambda>(ps, r). Inr ((k, v) # ps, r))
          else Inl Malformed)"
  using assms parse_json_chars[of k n a "COLON # CHR 0x20 # json_dumps a v @ r"]
  by (simp add: member_text_def skip_dumps)

lemma json_char_length: "1 \<le> length (json_char a c)"
  by (simp add: json_char_def Let_def)

lemma json_chars_length: "length s \<le> length (concat (map (json_char a) s))"
proof (induction s)
  case (Cons c s)
  from add_mono[OF json_char_length[of a c] Cons] show ?case by simp
qed simp

lemma member_text_length:
  "length k + length (json_dumps a v @ r) + 3 \<le> length (member_text a (k, v) r)"
  using json_chars_length[of k a] by (simp add: member_text_def)

lemma parse_dumps:
  "json_ok v \<Longrightarrow> ends_number r \<Longrightarrow> 2 * length (json_dumps a v @ r) < n \<Longrightarrow>
     parse_value n (json_dumps a v @ r) = Inr (v, r)"
  "vs \<noteq> [] \<Longrightarrow> items_ok vs \<Longrightarrow> 2 * length (items_text a vs r) + 1 < n \<Longrightarrow>
     parse_items n (items_text a vs r) = Inr (vs, r)"
  "d \<noteq> [] \<Longrightarrow> pairs_ok d \<Longrightarrow> 2 * length (members_text a d r) + 1 < n \<Longrightarrow>
     parse_members n (members_text a d r) = Inr (d, r)"
proof (induction a v and a vs and a d arbitrary: n r and n r and n r
    rule: json_dumps_json_items_json_pairs.induct)
  case (1 a)
  then obtain m where "n = Suc m" by (cases n) auto
  with 1 show ?case
    using keyword_scalar(1) parse_value_scalar[of "CHR ''n''" m "''ull'' @ r"]
    by (simp add: scalar_start_def value_start_def punctuation)
next
  case (2 a b)
  then obtain m where "n = Suc m" by (cases n) auto
  with 2 show ?case
    using keyword_scalar(2,3) parse_value_scalar[of "CHR ''t''" m "''rue'' @ r"]
      parse_value_scalar[of "CHR ''f''" m "''alse'' @ r"]
    by (simp add: scalar_start_def value_start_def punctuation)
next
  case (3 a i)
  obtain c t where "int_str i = c # t" "scalar_start c"
    using lex_number_first[OF lex_number_int, of i] number_start by blast
  moreover obtain m where "n = Suc m" using 3 by (cases n) auto
  ultimately show ?case using 3 parse_int[of i r] parse_value_scalar[of c m "t @ r"] by simp
next
  case (4 a s)
  obtain c t where "json_float s = c # t" "scalar_start c"
    using 4 json_float_start[of s] by auto
  moreover obtain m where "n = Suc m" using 4 by (cases n) auto
  ultimately show ?case using 4 parse_float[of s r] parse_value_scalar[of c m "t @ r"] by simp
next
  case (5 a s)
  then obtain m where m: "n = Suc m" by (cases n) auto
  have "length s + 2 \<le> length (json_string a s)"
    using json_chars_length[of s a] by (simp add: json_string_def)
  with 5 m show ?case using parse_value_string[of s m a r] by simp
next
  case (6 a vs)
  then obtain m where m: "n = Suc m" by (cases n) auto
  show ?case
  proof (cases "vs = []")
    case True
    with m show ?thesis by (simp add: punctuation value_start_def skip_ws_def)
  next
    case False
    note written = dumps_list[OF False, of a r]
    have "parse_items m (items_text a vs r) = Inr (vs, r)"
      using 6 m unfolding written by (intro "6.IH" False) simp_all
    with False 6 show ?thesis unfolding written m by (intro parse_value_items) simp_all
  qed
next
  case (7 a d)
  then obtain m where m: "n = Suc m" by (cases n) auto
  show ?case
  proof (cases "d = []")
    case True
    with m show ?thesis by (simp add: punctuation value_start_def skip_ws_def)
  next
    case False
    note written = dumps_obj[OF False, of a r]
    have "parse_members m (members_text a d r) = Inr (d, r)"
      using 7 m unfolding written by (intro "7.IH" False) simp_all
    with False 7 show ?thesis unfolding written m by (intro parse_value_members) simp_all
  qed
next
  case (9 a v vs)
  then obtain m where m: "n = Suc m" by (cases n) auto
  show ?case
  proof (cases vs)
    case Nil
    have "parse_value m (json_dumps a v @ RBRACKET # r) = Inr (v, RBRACKET # r)"
      using 9 m Nil by (intro "9.IH"(1)) (simp_all add: ends_punctuation)
    with m Nil show ?thesis by simp
  next
    case (Cons w ws)
    let ?rest = "items_text a (w # ws) r"
    have "parse_value m (json_dumps a v @ COMMA # CHR 0x20 # ?rest) = Inr (v, COMMA # CHR 0x20 # ?rest)"
      using 9 m Cons by (intro "9.IH"(1)) (simp_all add: ends_punctuation)
    moreover have "parse_items m ?rest = Inr (vs, r)"
      using 9 m unfolding Cons by (intro "9.IH"(2)[unfolded Cons]) simp_all
    moreover obtain c t where "?rest = c # t" "value_start c"
      using items_text_start[of "w # ws" a r] 9 Cons by auto
    ultimately show ?thesis using m Cons by (simp add: value_start_skip)
  qed
next
  case (11 a k v d)
  then obtain m where m: "n = Suc m" by (cases n) auto
  have v: "json_ok v" "pairs_ok d" using 11 by simp_all
  show ?case
  proof (cases d)
    case Nil
    have len: "2 * length (member_text a (k, v) (RBRACE # r)) + 1 < n" using 11 Nil by simp
    have "parse_value m (json_dumps a v @ RBRACE # r) = Inr (v, RBRACE # r)"
      using len m v member_text_length[of k a v "RBRACE # r"]
      by (intro "11.IH"(1)) (simp_all add: ends_punctuation)
    moreover have "length k < m" using len m member_text_length[of k a v "RBRACE # r"] by simp
    ultimately show ?thesis using m Nil v by (simp add: parse_members_member del: parse_members.simps)
  next
    case (Cons p ps)
    let ?rest = "members_text a (p # ps) r"
    let ?after = "COMMA # CHR 0x20 # ?rest"
    have len: "2 * length (member_text a (k, v) ?after) + 1 < n" using 11 Cons by simp
    have "parse_value m (json_dumps a v @ ?after) = Inr (v, ?after)"
      using len m v member_text_length[of k a v ?after]
      by (intro "11.IH"(1)) (simp_all add: ends_punctuation)
    moreover have "length k < m" using len m member_text_length[of k a v ?after] by simp
    moreover have "parse_members m ?rest = Inr (d, r)"
      using len m v member_text_length[of k a v ?after] unfolding Cons
      by (intro "11.IH"(2)[unfolded Cons]) simp_all
    moreover obtain t where "?rest = QUOTE # t" using members_text_start[of "p # ps" a r] by auto
    ultimately show ?thesis using m Cons v
      by (simp add: parse_members_member value_start_skip punctuation_start del: parse_members.simps)
  qed
qed simp_all

text \<open>\<open>json.loads\<close> reads what \<open>json.dumps\<close> wrote, escaped to ASCII or not.\<close>

theorem json_round_trip: "json_ok v \<Longrightarrow> json_loads (json_dumps a v) = Inr v"
  using parse_dumps(1)[of v "[]" a "2 * length (json_dumps a v) + 2"] skip_dumps[of v a "[]"]
  by (simp add: json_loads_def ends_punctuation)

end
