(* ===== verification/Anthropic_Provider.thy ===== *)
theory Anthropic_Provider
  imports Router_Types Json_Round_Trip Effects
begin

text \<open>
  \<open>router/providers/anthropic.py\<close>: the request built from messages and profile, the start of a
  stream with its retries, and the translation of the stream's events into chunks. The SDK is
  the record \<open>anthropic_api\<close>; its state \<open>'w\<close> is everything outside. A connection is the list of
  events the SDK delivers and the exception that ends the iteration, if one does. Backoff times
  are exact rationals, before rounding to a double.
\<close>

section \<open>The SDK\<close>

text \<open>\<open>APIStatusError\<close> with its code, \<open>APIConnectionError\<close> with its subclass \<open>APITimeoutError\<close>, and
  any other exception. The text is \<open>str(exc)\<close>.\<close>

datatype api_error = Status_Error int string | Connection_Error string | Foreign_Error exn

datatype start_block = Tool_Use_Start string string | Other_Block

datatype block_delta = Text_Part string | Input_Json_Part string | Other_Delta

text \<open>The counters of \<open>message_start\<close> and \<open>message_delta\<close>: input, cache read, output.\<close>

datatype sse =
    Message_Start "int option" "int option" "int option"
  | Content_Block_Start int start_block
  | Content_Block_Delta int block_delta
  | Content_Block_Stop int
  | Message_Delta "int option" "int option" "int option"
  | Other_Event

type_synonym connection = "sse list \<times> api_error option"

text \<open>The keyword arguments of \<open>messages.stream\<close>; an absent key is \<open>None\<close>.\<close>

record request =
  rq_model :: string
  rq_messages :: "dict list"
  rq_max_tokens :: int
  rq_temperature :: "rat option"
  rq_top_p :: "rat option"
  rq_system :: "dict list option"
  rq_tools :: "dict list option"

record 'w anthropic_api =
  ap_enter :: "request \<Rightarrow> 'w \<Rightarrow> (api_error + connection) \<times> 'w"
  ap_exit :: "'w \<Rightarrow> 'w"
  ap_sleep :: "rat \<Rightarrow> 'w \<Rightarrow> 'w"
  ap_close :: "'w \<Rightarrow> 'w"

section \<open>The request\<close>

definition text_dict :: "string \<Rightarrow> dict" where
  "text_dict t = [(''type'', JStr ''text''), (''text'', JStr t)]"

definition text_of :: "content_block \<Rightarrow> string" where
  "text_of b = (case cb_text b of None \<Rightarrow> [] | Some t \<Rightarrow> t)"

definition to_text_blocks :: "message_content \<Rightarrow> dict list" where
  "to_text_blocks c =
     (case c of
        Plain s \<Rightarrow> [text_dict s]
      | Blocks bs \<Rightarrow> map (\<lambda>b. text_dict (text_of b)) (filter (\<lambda>b. text_of b \<noteq> []) bs))"

definition or_null :: "string option \<Rightarrow> json" where
  "or_null x = (case x of None \<Rightarrow> JNull | Some s \<Rightarrow> JStr s)"

definition block_to_anthropic :: "content_block \<Rightarrow> dict" where
  "block_to_anthropic b =
     (case cb_type b of
        Text_Block \<Rightarrow> text_dict (text_of b)
      | Tool_Use \<Rightarrow>
          [(''type'', JStr ''tool_use''), (''id'', or_null (cb_id b)), (''name'', or_null (cb_name b)),
           (''input'', JObj (case cb_input b of None \<Rightarrow> [] | Some d \<Rightarrow> d))]
      | Tool_Result \<Rightarrow>
          [(''type'', JStr ''tool_result''), (''tool_use_id'', or_null (cb_tool_use_id b)),
           (''content'', case cb_content b of None \<Rightarrow> JStr [] | Some v \<Rightarrow> v)]
          @ (if cb_is_error b = Some True then [(''is_error'', JBool True)] else []))"

definition content_to_anthropic :: "message_content \<Rightarrow> json" where
  "content_to_anthropic c =
     (case c of
        Plain s \<Rightarrow> JStr s
      | Blocks bs \<Rightarrow> JList (map (\<lambda>b. JObj (block_to_anthropic b)) bs))"

text \<open>Never called with a system message.\<close>

definition wire_role :: "role \<Rightarrow> string" where
  "wire_role r =
     (case r of System \<Rightarrow> ''system'' | User \<Rightarrow> ''user'' | Assistant \<Rightarrow> ''assistant'' | Tool \<Rightarrow> ''user'')"

definition message_to_anthropic :: "message \<Rightarrow> dict" where
  "message_to_anthropic m =
     [(''role'', JStr (wire_role (role m))), (''content'', content_to_anthropic (content m))]"

fun split_system :: "message list \<Rightarrow> dict list \<times> dict list" where
  "split_system [] = ([], [])"
| "split_system (m # ms) =
     (case split_system ms of (system_blocks, out) \<Rightarrow>
        if role m = System then (to_text_blocks (content m) @ system_blocks, out)
        else (system_blocks, message_to_anthropic m # out))"

definition apply_system_cache_control :: "dict list \<Rightarrow> router_profile \<Rightarrow> dict list" where
  "apply_system_cache_control blocks p =
     (if provider_strategy (rp_caching p) \<noteq> Explicit_Breakpoints then blocks
      else if After_System_Prompt \<notin> set (breakpoints (rp_caching p)) then blocks
      else if blocks = [] then blocks
      else butlast blocks
        @ [AList.update ''cache_control'' (JObj [(''type'', JStr ''ephemeral'')]) (last blocks)])"

definition tool_to_anthropic :: "tool_def \<Rightarrow> dict" where
  "tool_to_anthropic t =
     [(''name'', JStr (td_name t)), (''description'', JStr (td_description t)),
      (''input_schema'', JObj (td_input_schema t))]"

definition build_request ::
  "router_profile \<Rightarrow> message list \<Rightarrow> tool_def list option \<Rightarrow> request" where
  "build_request p ms tools =
     (case split_system ms of (system_blocks, anthropic_messages) \<Rightarrow>
        let blocks = apply_system_cache_control system_blocks p;
            narrowed = top_p (rp_sampling p) < 1
        in \<lparr>rq_model = model_id (rp_model p),
            rq_messages = anthropic_messages,
            rq_max_tokens = max_tokens (rp_sampling p),
            rq_temperature = (if narrowed then None else Some (temperature (rp_sampling p))),
            rq_top_p = (if narrowed then Some (top_p (rp_sampling p)) else None),
            rq_system = (if blocks = [] then None else Some blocks),
            rq_tools = (case tools of
                None \<Rightarrow> None
              | Some ts \<Rightarrow> if ts = [] then None else Some (map tool_to_anthropic ts))\<rparr>)"

section \<open>Opening the stream\<close>

text \<open>A failure the next attempt may cure.\<close>

definition transient :: "api_error \<Rightarrow> bool" where
  "transient e =
     (case e of Status_Error code _ \<Rightarrow> 500 \<le> code | Connection_Error _ \<Rightarrow> True
      | Foreign_Error _ \<Rightarrow> False)"

definition api_error_text :: "api_error \<Rightarrow> string" where
  "api_error_text e =
     (case e of Status_Error _ t \<Rightarrow> t | Connection_Error t \<Rightarrow> t | Foreign_Error x \<Rightarrow> exn_text x)"

definition status_code :: "api_error \<Rightarrow> int option" where
  "status_code e = (case e of Status_Error code _ \<Rightarrow> Some code | _ \<Rightarrow> None)"

definition max_attempts :: "error_handling \<Rightarrow> int" where
  "max_attempts eh = (if retry_on_transient eh then max_retries eh + 1 else 1)"

definition backoff :: "error_handling \<Rightarrow> nat \<Rightarrow> rat" where
  "backoff eh attempt = backoff_base_seconds eh * backoff_multiplier eh ^ attempt"

definition exhausted :: "api_error option \<Rightarrow> model_chunk" where
  "exhausted failure =
     error_chunk (''anthropic stream startup failed after retries: ''
         @ (case failure of None \<Rightarrow> ''None'' | Some e \<Rightarrow> api_error_text e))
       True (Option.bind failure status_code)"

text \<open>An open connection, a chunk that reports the failure, or an exception that escapes. The
  recursion is on the attempts left.\<close>

datatype opened = Opened connection | Refused model_chunk | Escaped exn

fun open_attempts ::
  "'w anthropic_api \<Rightarrow> error_handling \<Rightarrow> request \<Rightarrow> nat \<Rightarrow> nat \<Rightarrow> api_error option \<Rightarrow> 'w
    \<Rightarrow> opened \<times> 'w" where
  "open_attempts A eh rq attempt 0 failure w = (Refused (exhausted failure), w)"
| "open_attempts A eh rq attempt (Suc left) failure w =
     (case ap_enter A rq w of
        (Inr conn, w) \<Rightarrow> (Opened conn, w)
      | (Inl e, w) \<Rightarrow>
          (case e of
             Foreign_Error x \<Rightarrow> (Escaped x, w)
           | _ \<Rightarrow>
               if \<not> transient e
               then (Refused (error_chunk (api_error_text e) False (status_code e)), w)
               else open_attempts A eh rq (Suc attempt) left (Some e)
                      (if left = 0 then w else ap_sleep A (backoff eh attempt) w)))"

definition open_stream_with_retry ::
  "'w anthropic_api \<Rightarrow> error_handling \<Rightarrow> request \<Rightarrow> 'w \<Rightarrow> opened \<times> 'w" where
  "open_stream_with_retry A eh rq w = open_attempts A eh rq 0 (nat (max_attempts eh)) None w"

section \<open>Reading the stream\<close>

record tool_block =
  tb_id :: string
  tb_name :: string
  tb_buf :: string

record stream_state =
  st_blocks :: "(int \<times> tool_block) list"
  st_input :: int
  st_cached :: int
  st_output :: int

definition START :: stream_state where
  "START = \<lparr>st_blocks = [], st_input = 0, st_cached = 0, st_output = 0\<rparr>"

text \<open>A \<open>ValueError\<close> of the integer limit is not a \<open>JSONDecodeError\<close> and escapes.\<close>

definition safe_json_loads :: "string \<Rightarrow> exn + dict" where
  "safe_json_loads buf =
     (if strip buf = [] then Inr []
      else case json_loads buf of
        Inl Too_Many_Digits \<Rightarrow> Inl (Exn ''ValueError'' [])
      | Inl _ \<Rightarrow> Inr []
      | Inr v \<Rightarrow> (case v of JObj d \<Rightarrow> Inr d | _ \<Rightarrow> Inr [(''_value'', v)]))"

definition or_zero :: "int option \<Rightarrow> int" where
  "or_zero x = (case x of None \<Rightarrow> 0 | Some n \<Rightarrow> n)"

fun take_event :: "stream_state \<Rightarrow> sse \<Rightarrow> exn + model_chunk list \<times> stream_state" where
  "take_event st (Message_Start i c n) =
     Inr ([], st\<lparr>st_input := or_zero i, st_cached := or_zero c, st_output := or_zero n\<rparr>)"
| "take_event st (Content_Block_Start index (Tool_Use_Start i n)) =
     Inr ([tool_call_start i n index],
          st\<lparr>st_blocks := AList.update index \<lparr>tb_id = i, tb_name = n, tb_buf = []\<rparr> (st_blocks st)\<rparr>)"
| "take_event st (Content_Block_Start index Other_Block) = Inr ([], st)"
| "take_event st (Content_Block_Delta index (Text_Part t)) = Inr ([text_delta t], st)"
| "take_event st (Content_Block_Delta index (Input_Json_Part part)) =
     (case map_of (st_blocks st) index of
        None \<Rightarrow> Inr ([], st)
      | Some b \<Rightarrow>
          Inr ([tool_call_delta (tb_id b) part index],
               st\<lparr>st_blocks := AList.update index (b\<lparr>tb_buf := tb_buf b @ part\<rparr>) (st_blocks st)\<rparr>))"
| "take_event st (Content_Block_Delta index Other_Delta) = Inr ([], st)"
| "take_event st (Content_Block_Stop index) =
     (case map_of (st_blocks st) index of
        None \<Rightarrow> Inr ([], st)
      | Some b \<Rightarrow>
          bindE (safe_json_loads (tb_buf b)) (\<lambda>parsed.
            Inr ([tool_call_end (tb_id b) (tb_name b) parsed index],
                 st\<lparr>st_blocks := AList.delete index (st_blocks st)\<rparr>)))"
| "take_event st (Message_Delta i c n) =
     Inr ([], st\<lparr>st_output := (case n of None \<Rightarrow> st_output st | Some k \<Rightarrow> k),
                 st_cached := (case c of None \<Rightarrow> st_cached st | Some k \<Rightarrow> k),
                 st_input := (case i of None \<Rightarrow> st_input st | Some k \<Rightarrow> max (st_input st) k)\<rparr>)"
| "take_event st Other_Event = Inr ([], st)"

text \<open>The chunks of the iteration, and the state it ends in or the exception that ends it.\<close>

fun take_events ::
  "stream_state \<Rightarrow> sse list \<Rightarrow> api_error option \<Rightarrow> model_chunk list \<times> (api_error + stream_state)"
where
  "take_events st [] ending = ([], case ending of None \<Rightarrow> Inr st | Some e \<Rightarrow> Inl e)"
| "take_events st (ev # evs) ending =
     (case take_event st ev of
        Inl x \<Rightarrow> ([], Inl (Foreign_Error x))
      | Inr (chunks, st') \<Rightarrow>
          (case take_events st' evs ending of (rest, out) \<Rightarrow> (chunks @ rest, out)))"

definition final_usage :: "stream_state \<Rightarrow> usage" where
  "final_usage st =
     \<lparr>input_tokens = st_input st, output_tokens = st_output st,
      cached_input_tokens = st_cached st, reasoning_tokens = 0, cost_usd = None\<rparr>"

definition last_chunks :: "api_error + stream_state \<Rightarrow> model_chunk list \<times> exn option" where
  "last_chunks out =
     (case out of
        Inr st \<Rightarrow> ([usage_chunk (final_usage st), done_chunk], None)
      | Inl (Status_Error code t) \<Rightarrow> ([error_chunk t (500 \<le> code) (Some code)], None)
      | Inl (Connection_Error t) \<Rightarrow> ([error_chunk t True None], None)
      | Inl (Foreign_Error x) \<Rightarrow> ([], Some x))"

definition read_stream :: "connection \<Rightarrow> model_chunk list \<times> exn option" where
  "read_stream conn =
     (case take_events START (fst conn) (snd conn) of (chunks, out) \<Rightarrow>
        case last_chunks out of (rest, raised) \<Rightarrow> (chunks @ rest, raised))"

definition anthropic_stream ::
  "'w anthropic_api \<Rightarrow> router_profile \<Rightarrow> message list \<Rightarrow> tool_def list option \<Rightarrow> 'w
    \<Rightarrow> (model_chunk list \<times> exn option) \<times> 'w" where
  "anthropic_stream A p ms tools w =
     (case open_stream_with_retry A (rp_error_handling p) (build_request p ms tools) w of
        (Refused chunk, w) \<Rightarrow> (([chunk], None), w)
      | (Escaped x, w) \<Rightarrow> (([], Some x), w)
      | (Opened conn, w) \<Rightarrow> (read_stream conn, ap_exit A w))"

text \<open>A client the provider made itself is closed after the call.\<close>

definition anthropic_complete ::
  "'w anthropic_api \<Rightarrow> bool \<Rightarrow> router_profile \<Rightarrow> message list \<Rightarrow> tool_def list option \<Rightarrow> 'w
    \<Rightarrow> (model_chunk list \<times> exn option) \<times> 'w" where
  "anthropic_complete A owns_client p ms tools w =
     (case anthropic_stream A p ms tools w of (out, w) \<Rightarrow>
        (out, if owns_client then ap_close A w else w))"

end
