(* ===== verification/Anthropic_Facts.thy ===== *)
theory Anthropic_Facts
  imports Anthropic_Provider
begin

text \<open>
  What the Anthropic provider promises: the chunks follow the protocol of \<open>ProviderInterface\<close>
  (\<open>router/providers/base.py\<close>), a tool input cut into fragments is put together again, a
  transient failure is retried with exponential backoff up to the configured number of times,
  and every connection that was opened is closed.
\<close>

section \<open>The chunk protocol\<close>

text \<open>The streams a provider may yield, given the tool calls that are open at an index: text and
  tool-call chunks in any mix, where a delta or an end belongs to the call that is open at its
  index, and then one \<open>usage\<close> chunk and \<open>done\<close>, or one \<open>error\<close> chunk, or the exception.\<close>

inductive protocol :: "(int \<rightharpoonup> string \<times> string) \<Rightarrow> bool \<Rightarrow> model_chunk list \<Rightarrow> bool" where
  finished: "protocol oc False [usage_chunk u, done_chunk]"
| failed: "protocol oc False [error_chunk t retryable code]"
| raised: "protocol oc True []"
| text_part: "protocol oc r cs \<Longrightarrow> protocol oc r (text_delta t # cs)"
| call_start: "protocol (oc(index \<mapsto> (i, n))) r cs \<Longrightarrow> protocol oc r (tool_call_start i n index # cs)"
| call_part: "oc index = Some (i, n) \<Longrightarrow> protocol oc r cs \<Longrightarrow>
    protocol oc r (tool_call_delta i part index # cs)"
| call_end: "oc index = Some (i, n) \<Longrightarrow> protocol (oc(index := None)) r cs \<Longrightarrow>
    protocol oc r (tool_call_end i n inp index # cs)"

definition open_calls :: "stream_state \<Rightarrow> int \<Rightarrow> (string \<times> string) option" where
  "open_calls st index = map_option (\<lambda>b. (tb_id b, tb_name b)) (map_of (st_blocks st) index)"

lemma open_calls_update [simp]:
  "open_calls (st\<lparr>st_blocks := AList.update index b (st_blocks st)\<rparr>)
     = (open_calls st)(index \<mapsto> (tb_id b, tb_name b))"
  "open_calls (st\<lparr>st_blocks := AList.delete index (st_blocks st)\<rparr>) = (open_calls st)(index := None)"
  by (auto simp: open_calls_def fun_eq_iff update_conv' delete_conv')

lemma open_calls_counters [simp]:
  "open_calls (st\<lparr>st_input := i, st_cached := c, st_output := n\<rparr>) = open_calls st"
  "open_calls (st\<lparr>st_output := n, st_cached := c, st_input := i\<rparr>) = open_calls st"
  by (simp_all add: open_calls_def fun_eq_iff)

lemma take_event_protocol:
  assumes "take_event st ev = Inr (chunks, st')" "protocol (open_calls st') r cs"
  shows "protocol (open_calls st) r (chunks @ cs)"
proof (cases "(st, ev)" rule: take_event.cases)
  case (5 st index part)
  show ?thesis
  proof (cases "map_of (st_blocks st) index")
    case (Some b)
    then have b: "open_calls st index = Some (tb_id b, tb_name b)" by (simp add: open_calls_def)
    then have "(open_calls st)(index \<mapsto> (tb_id b, tb_name b)) = open_calls st" by auto
    with assms 5 Some show ?thesis by (auto intro: call_part[where oc = "open_calls st" and index = index, OF b])
  qed (use assms 5 in auto)
next
  case (7 st index)
  with assms show ?thesis
    by (auto simp: bindE_Inr split: option.splits intro!: call_end simp: open_calls_def)
qed (use assms in \<open>auto intro: protocol.intros\<close>)

lemma last_chunks_protocol:
  "last_chunks out = (cs, x) \<Longrightarrow> protocol oc (x \<noteq> None) cs"
  by (auto simp: last_chunks_def split: sum.splits api_error.splits intro: protocol.intros)

lemma take_events_protocol:
  assumes "take_events st evs ending = (chunks, out)" "last_chunks out = (rest, x)"
  shows "protocol (open_calls st) (x \<noteq> None) (chunks @ rest)"
  using assms
proof (induction evs arbitrary: st chunks)
  case Nil
  then show ?case using last_chunks_protocol[OF Nil.prems(2)] by simp
next
  case (Cons ev evs)
  show ?case
  proof (cases "take_event st ev")
    case (Inl e)
    then show ?thesis using Cons.prems(1) last_chunks_protocol[OF Cons.prems(2)] by simp
  next
    case (Inr p)
    obtain now st' where p: "p = (now, st')" by (cases p)
    obtain later out' where later: "take_events st' evs ending = (later, out')" by (meson surj_pair)
    with Cons.prems Inr p have eq: "chunks = now @ later" "out' = out" by simp_all
    from Cons.IH[of st' later] later eq Cons.prems
    have "protocol (open_calls st') (x \<noteq> None) (later @ rest)" by simp
    from take_event_protocol[OF Inr[unfolded p] this] eq show ?thesis by simp
  qed
qed

lemma read_stream_protocol:
  "read_stream conn = (chunks, x) \<Longrightarrow> protocol (\<lambda>_. None) (x \<noteq> None) chunks"
proof -
  assume r: "read_stream conn = (chunks, x)"
  obtain cs out where t: "take_events START (fst conn) (snd conn) = (cs, out)" by (meson surj_pair)
  obtain rest y where l: "last_chunks out = (rest, y)" by (meson surj_pair)
  have "open_calls START = (\<lambda>_. None)" by (simp add: open_calls_def START_def fun_eq_iff)
  with take_events_protocol[OF t l] r t l show ?thesis by (simp add: read_stream_def)
qed

lemma refused_is_error:
  "open_attempts A eh rq k n f v = (Refused chunk, v') \<Longrightarrow> \<exists>t r c. chunk = error_chunk t r c"
  by (induction A eh rq k n f v rule: open_attempts.induct)
    (auto simp: exhausted_def split: prod.splits sum.splits api_error.splits if_splits)

lemma anthropic_stream_protocol:
  "case anthropic_complete A owns p ms tools w of
     ((chunks, x), w') \<Rightarrow> protocol (\<lambda>_. None) (x \<noteq> None) chunks"
proof -
  obtain op w1 where op: "open_stream_with_retry A (rp_error_handling p) (build_request p ms tools) w
      = (op, w1)" by (meson surj_pair)
  show ?thesis
  proof (cases op)
    case (Opened conn)
    then show ?thesis using op read_stream_protocol[of conn]
      by (auto simp: anthropic_complete_def anthropic_stream_def split: prod.splits)
  next
    case (Refused chunk)
    then obtain t r c where "chunk = error_chunk t r c"
      using op refused_is_error by (metis open_stream_with_retry_def)
    then show ?thesis using op Refused
      by (auto simp: anthropic_complete_def anthropic_stream_def intro: protocol.intros)
  next
    case (Escaped x)
    then show ?thesis using op
      by (auto simp: anthropic_complete_def anthropic_stream_def intro: protocol.intros)
  qed
qed

section \<open>Tool inputs\<close>

lemma strip_nonempty: "\<not> is_space c \<Longrightarrow> strip (c # s) \<noteq> []"
  by (simp add: strip_def dropWhile_eq_Nil_conv)

lemma safe_json_loads_dumps: "json_ok (JObj d) \<Longrightarrow> safe_json_loads (json_dumps a (JObj d)) = Inr d"
proof -
  assume "json_ok (JObj d)"
  then have "json_loads (json_dumps a (JObj d)) = Inr (JObj d)" by (rule json_round_trip)
  moreover have "strip (json_dumps a (JObj d)) \<noteq> []"
    using strip_nonempty[of "CHR 0x7B"] by (simp add: is_space_def)
  ultimately show ?thesis by (simp add: safe_json_loads_def)
qed

text \<open>The fragments of the input of the call at an index, and streams that neither start nor
  stop a call there.\<close>

fun fragments :: "int \<Rightarrow> sse list \<Rightarrow> string" where
  "fragments index [] = []"
| "fragments index (ev # evs) =
     (case ev of
        Content_Block_Delta k (Input_Json_Part part) \<Rightarrow>
          (if k = index then part @ fragments index evs else fragments index evs)
      | _ \<Rightarrow> fragments index evs)"

definition inside_call :: "int \<Rightarrow> sse \<Rightarrow> bool" where
  "inside_call index ev \<longleftrightarrow>
     (case ev of Content_Block_Start k (Tool_Use_Start _ _) \<Rightarrow> k \<noteq> index
      | Content_Block_Stop k \<Rightarrow> k \<noteq> index | _ \<Rightarrow> True)"

lemma take_event_buffer:
  assumes "take_event st ev = Inr (cs, st')" "inside_call index ev"
    "map_of (st_blocks st) index = Some b"
  shows "map_of (st_blocks st') index = Some (b\<lparr>tb_buf := tb_buf b @ fragments index [ev]\<rparr>)"
  using assms
  by (cases "(st, ev)" rule: take_event.cases)
    (auto simp: inside_call_def update_conv' delete_conv' bindE_Inr split: option.splits)

lemma fragments_Cons: "fragments index (ev # evs) = fragments index [ev] @ fragments index evs"
  by (simp split: sse.split block_delta.split)

lemma take_events_buffer:
  assumes "take_events st evs None = (cs, Inr st')" "list_all (inside_call index) evs"
    "map_of (st_blocks st) index = Some b"
  shows "map_of (st_blocks st') index = Some (b\<lparr>tb_buf := tb_buf b @ fragments index evs\<rparr>)"
  using assms
proof (induction evs arbitrary: st cs b)
  case (Cons ev evs)
  from Cons.prems(1) obtain c1 s1 c2 where e: "take_event st ev = Inr (c1, s1)"
    "take_events s1 evs None = (c2, Inr st')"
    by (auto split: sum.splits prod.splits)
  from take_event_buffer[OF e(1) _ Cons.prems(3)] Cons.prems(2)
  have "map_of (st_blocks s1) index = Some (b\<lparr>tb_buf := tb_buf b @ fragments index [ev]\<rparr>)" by simp
  from Cons.IH[OF e(2) _ this] Cons.prems(2) show ?case
    by (simp only: list.pred_inject fragments_Cons[of index ev evs]) simp
qed simp

lemma take_events_append:
  "take_events st (evs @ fs) ending =
     (case take_events st evs None of
        (cs, Inl e) \<Rightarrow> (cs, Inl e)
      | (cs, Inr st') \<Rightarrow> (case take_events st' fs ending of (cs', out) \<Rightarrow> (cs @ cs', out)))"
  by (induction evs arbitrary: st) (auto split: sum.splits prod.splits)

lemma take_events_Foreign:
  "take_events st evs None = (cs, Inl e) \<Longrightarrow> \<exists>x. e = Foreign_Error x"
  by (induction evs arbitrary: st cs) (auto split: sum.splits prod.splits)

lemma take_events_block:
  assumes "list_all (inside_call index) evs" "fragments index evs = json_dumps a (JObj d)"
    "json_ok (JObj d)"
    "take_events st (Content_Block_Start index (Tool_Use_Start i n) # evs
       @ Content_Block_Stop index # post) ending = (chunks, out)"
    "last_chunks out = (rest, None)"
  shows "tool_call_end i n d index \<in> set chunks"
proof -
  define b where "b = \<lparr>tb_id = i, tb_name = n, tb_buf = []\<rparr>"
  define s1 where "s1 = st\<lparr>st_blocks := AList.update index b (st_blocks st)\<rparr>"
  obtain cs r where t: "take_events s1 evs None = (cs, r)" by (meson surj_pair)
  show ?thesis
  proof (cases r)
    case (Inl e)
    with t take_events_Foreign obtain x where "r = Inl (Foreign_Error x)" by blast
    with t assms(4,5) show ?thesis
      by (simp add: take_events_append flip: b_def s1_def) (auto simp: last_chunks_def)
  next
    case (Inr s2)
    have "map_of (st_blocks s1) index = Some b" by (simp add: s1_def update_conv')
    from take_events_buffer[OF t[unfolded Inr] assms(1) this]
    have "map_of (st_blocks s2) index = Some (b\<lparr>tb_buf := json_dumps a (JObj d)\<rparr>)"
      using assms(2) by (simp add: b_def)
    then have "take_event s2 (Content_Block_Stop index)
        = Inr ([tool_call_end i n d index], s2\<lparr>st_blocks := AList.delete index (st_blocks s2)\<rparr>)"
      using safe_json_loads_dumps[OF assms(3), of a] by (simp add: b_def del: json_dumps.simps)
    with assms(4) t Inr show ?thesis
      by (auto simp: take_events_append simp flip: b_def s1_def simp del: take_event.simps(7)
          split: prod.splits)
  qed
qed

text \<open>C10. The model's tool input survives the stream: when the fragments delivered for a call, cut
  anywhere and mixed with other blocks, add up to the JSON text of a dictionary, and no
  exception leaves the stream, the call ends with exactly that dictionary.\<close>

theorem tool_input_reassembled:
  assumes "list_all (inside_call index) evs" "fragments index evs = json_dumps a (JObj d)"
    "json_ok (JObj d)"
    "read_stream (pre @ Content_Block_Start index (Tool_Use_Start i n) # evs
       @ Content_Block_Stop index # post, ending) = (chunks, None)"
  shows "tool_call_end i n d index \<in> set chunks"
proof -
  let ?call = "Content_Block_Start index (Tool_Use_Start i n) # evs @ Content_Block_Stop index # post"
  obtain c1 r1 where p: "take_events START pre None = (c1, r1)" by (meson surj_pair)
  show ?thesis
  proof (cases r1)
    case (Inl e)
    with p take_events_Foreign obtain x where "r1 = Inl (Foreign_Error x)" by blast
    with assms(4) p show ?thesis
      by (auto simp: read_stream_def take_events_append last_chunks_def)
  next
    case (Inr s1)
    obtain c2 out where c: "take_events s1 ?call ending = (c2, out)" by (meson surj_pair)
    obtain rest x where l: "last_chunks out = (rest, x)" by (meson surj_pair)
    from assms(4) p Inr c l have "x = None" "chunks = c1 @ c2 @ rest"
      by (simp_all add: read_stream_def take_events_append del: take_events.simps)
    with take_events_block[OF assms(1-3) c] l show ?thesis by simp
  qed
qed

section \<open>Connections\<close>

text \<open>A count of open connections that entering, when it succeeds, raises by one and leaving
  lowers by one.\<close>

definition counts_connections :: "'w anthropic_api \<Rightarrow> ('w \<Rightarrow> int) \<Rightarrow> bool" where
  "counts_connections A live \<longleftrightarrow>
     (\<forall>rq w. live (snd (ap_enter A rq w))
        = live w + (case fst (ap_enter A rq w) of Inr _ \<Rightarrow> 1 | Inl _ \<Rightarrow> 0))
     \<and> (\<forall>w. live (ap_exit A w) = live w - 1)
     \<and> (\<forall>t w. live (ap_sleep A t w) = live w) \<and> (\<forall>w. live (ap_close A w) = live w)"

lemma open_attempts_live:
  assumes "counts_connections A live"
  shows "open_attempts A eh rq k n f w = (op, w') \<Longrightarrow>
    live w' = live w + (case op of Opened _ \<Rightarrow> 1 | _ \<Rightarrow> 0)"
proof (induction n arbitrary: k f w)
  case (Suc n)
  obtain r w1 where e: "ap_enter A rq w = (r, w1)" by (meson surj_pair)
  then have live: "live w1 = live w + (case r of Inr _ \<Rightarrow> 1 | Inl _ \<Rightarrow> 0)"
    using assms by (metis counts_connections_def fst_conv snd_conv)
  have sleep: "live (ap_sleep A t w1) = live w1" for t
    using assms by (simp add: counts_connections_def)
  show ?case
  proof (cases r)
    case (Inl x)
    with Suc.IH[where w = w1] Suc.IH[where w = "ap_sleep A (backoff eh k) w1"] Suc.prems e live sleep
    show ?thesis by (auto split: api_error.splits if_splits)
  qed (use Suc.prems e live in auto)
qed auto

lemma complete_closes:
  assumes "counts_connections A live"
  shows "live (snd (anthropic_complete A owns p ms tools w)) = live w"
proof -
  obtain op w1 where op: "open_attempts A (rp_error_handling p) (build_request p ms tools) 0
      (nat (max_attempts (rp_error_handling p))) None w = (op, w1)" by (meson surj_pair)
  have "live (ap_exit A v) = live v - 1" "live (ap_close A v) = live v" for v
    using assms by (simp_all add: counts_connections_def)
  with open_attempts_live[OF assms op] op show ?thesis
    by (cases op) (auto simp: anthropic_complete_def anthropic_stream_def open_stream_with_retry_def)
qed


section \<open>Retries\<close>

text \<open>An API that answers attempts from a list and records the sleeps. Every sequence of outcomes
  is such a list.\<close>

record script_api =
  sa_answers :: "(api_error + connection) list"
  sa_slept :: "rat list"
  sa_exits :: nat
  sa_closes :: nat

definition scripted_api :: "script_api anthropic_api" where
  "scripted_api =
     \<lparr>ap_enter = (\<lambda>rq w. case sa_answers w of
         [] \<Rightarrow> (Inl (Connection_Error ''no answer''), w)
       | r # rs \<Rightarrow> (r, w\<lparr>sa_answers := rs\<rparr>)),
      ap_exit = (\<lambda>w. w\<lparr>sa_exits := Suc (sa_exits w)\<rparr>),
      ap_sleep = (\<lambda>t w. w\<lparr>sa_slept := sa_slept w @ [t]\<rparr>),
      ap_close = (\<lambda>w. w\<lparr>sa_closes := Suc (sa_closes w)\<rparr>)\<rparr>"

definition retryable :: "api_error + connection \<Rightarrow> bool" where
  "retryable r = (case r of Inl e \<Rightarrow> transient e | Inr _ \<Rightarrow> False)"

definition attempt_outcome :: "api_error + connection \<Rightarrow> opened" where
  "attempt_outcome r =
     (case r of
        Inr conn \<Rightarrow> Opened conn
      | Inl (Foreign_Error x) \<Rightarrow> Escaped x
      | Inl e \<Rightarrow> Refused (error_chunk (api_error_text e) False (status_code e)))"

definition error_of :: "api_error + connection \<Rightarrow> api_error option" where
  "error_of r = (case r of Inl e \<Rightarrow> Some e | Inr _ \<Rightarrow> None)"

lemma scripted_enter:
  "ap_enter scripted_api rq \<lparr>sa_answers = r # rs, sa_slept = sl, sa_exits = x, sa_closes = c\<rparr>
     = (r, \<lparr>sa_answers = rs, sa_slept = sl, sa_exits = x, sa_closes = c\<rparr>)"
  by (simp add: scripted_api_def)

lemma scripted_sleep:
  "ap_sleep scripted_api t \<lparr>sa_answers = rs, sa_slept = sl, sa_exits = x, sa_closes = c\<rparr>
     = \<lparr>sa_answers = rs, sa_slept = sl @ [t], sa_exits = x, sa_closes = c\<rparr>"
  by (simp add: scripted_api_def)

lemma not_retryable_attempt:
  "\<not> retryable r \<Longrightarrow>
   open_attempts scripted_api eh rq k (Suc n) f
     \<lparr>sa_answers = r # rs, sa_slept = sl, sa_exits = x, sa_closes = c\<rparr>
   = (attempt_outcome r, \<lparr>sa_answers = rs, sa_slept = sl, sa_exits = x, sa_closes = c\<rparr>)"
  by (auto simp: scripted_enter retryable_def attempt_outcome_def transient_def
      split: sum.splits api_error.splits)

lemma retryable_attempt:
  "retryable r \<Longrightarrow>
   open_attempts scripted_api eh rq k (Suc n) f
     \<lparr>sa_answers = r # rs, sa_slept = sl, sa_exits = x, sa_closes = c\<rparr>
   = open_attempts scripted_api eh rq (Suc k) n (error_of r)
       \<lparr>sa_answers = rs, sa_slept = sl @ (if n = 0 then [] else [backoff eh k]),
        sa_exits = x, sa_closes = c\<rparr>"
  by (auto simp: scripted_enter scripted_sleep retryable_def error_of_def transient_def
      split: sum.splits api_error.splits)

fun backoffs :: "error_handling \<Rightarrow> nat \<Rightarrow> nat \<Rightarrow> rat list" where
  "backoffs eh k 0 = []"
| "backoffs eh k (Suc n) = backoff eh k # backoffs eh (Suc k) n"

lemma backoffs_upt: "backoffs eh k n = map (backoff eh) [k..<k + n]"
  by (induction n arbitrary: k) (simp_all add: upt_conv_Cons del: upt_Suc)

lemma attempts_succeed:
  "list_all retryable rs \<Longrightarrow> \<not> retryable r \<Longrightarrow> length rs < n \<Longrightarrow>
   open_attempts scripted_api eh rq k n f
     \<lparr>sa_answers = rs @ r # later, sa_slept = sl, sa_exits = x, sa_closes = c\<rparr>
   = (attempt_outcome r,
      \<lparr>sa_answers = later, sa_slept = sl @ backoffs eh k (length rs),
       sa_exits = x, sa_closes = c\<rparr>)"
proof (induction rs arbitrary: n k f sl)
  case Nil
  then obtain m where "n = Suc m" by (cases n) auto
  with Nil show ?case by (simp add: not_retryable_attempt del: open_attempts.simps)
next
  case (Cons q rs)
  then obtain m where m: "n = Suc m" "m \<noteq> 0" "length rs < m" by (cases n) auto
  with Cons show ?case by (simp add: retryable_attempt del: open_attempts.simps)
qed

lemma attempts_exhausted:
  "list_all retryable rs \<Longrightarrow> rs \<noteq> [] \<Longrightarrow>
   open_attempts scripted_api eh rq k (length rs) f
     \<lparr>sa_answers = rs @ later, sa_slept = sl, sa_exits = x, sa_closes = c\<rparr>
   = (Refused (exhausted (error_of (last rs))),
      \<lparr>sa_answers = later, sa_slept = sl @ backoffs eh k (length rs - 1),
       sa_exits = x, sa_closes = c\<rparr>)"
proof (induction rs arbitrary: k f sl)
  case (Cons q rs)
  show ?case
  proof (cases "rs = []")
    case True
    with Cons.prems show ?thesis
      by (simp add: retryable_attempt del: open_attempts.simps(2))
  next
    case False
    then obtain m where "length rs = Suc m" by (cases rs) auto
    with Cons False show ?thesis
      by (simp add: retryable_attempt del: open_attempts.simps)
  qed
qed simp

text \<open>C20. The retry policy, for every sequence of answers. Transient failures (a status of 500 or
  more, a connection error, a timeout) are retried after \<open>base * multiplier ^ i\<close> seconds; the
  first other answer is the outcome; when \<open>max_attempts\<close> transient failures came, the last of
  them is reported as a retryable error, with no sleep after it. No further attempt is made.\<close>

theorem retry_policy:
  assumes "list_all retryable rs" "0 \<le> max_retries eh"
  shows "(int (length rs) < max_attempts eh \<longrightarrow> \<not> retryable r \<longrightarrow>
      open_stream_with_retry scripted_api eh rq
        \<lparr>sa_answers = rs @ r # later, sa_slept = [], sa_exits = x, sa_closes = c\<rparr>
      = (attempt_outcome r,
         \<lparr>sa_answers = later, sa_slept = map (backoff eh) [0..<length rs],
          sa_exits = x, sa_closes = c\<rparr>))
    \<and> (int (length rs) = max_attempts eh \<longrightarrow>
      open_stream_with_retry scripted_api eh rq
        \<lparr>sa_answers = rs @ later, sa_slept = [], sa_exits = x, sa_closes = c\<rparr>
      = (Refused (exhausted (error_of (last rs))),
         \<lparr>sa_answers = later, sa_slept = map (backoff eh) [0..<length rs - 1],
          sa_exits = x, sa_closes = c\<rparr>))"
proof (intro conjI impI)
  assume "int (length rs) < max_attempts eh" "\<not> retryable r"
  with assms(1) show "open_stream_with_retry scripted_api eh rq
        \<lparr>sa_answers = rs @ r # later, sa_slept = [], sa_exits = x, sa_closes = c\<rparr>
      = (attempt_outcome r,
         \<lparr>sa_answers = later, sa_slept = map (backoff eh) [0..<length rs],
          sa_exits = x, sa_closes = c\<rparr>)"
    using attempts_succeed[of rs r "nat (max_attempts eh)" eh rq 0 None later "[]" x c]
    by (simp add: open_stream_with_retry_def backoffs_upt)
next
  assume n: "int (length rs) = max_attempts eh"
  then have "rs \<noteq> []" "nat (max_attempts eh) = length rs"
    using assms(2) by (auto simp: max_attempts_def split: if_splits)
  with assms(1) show "open_stream_with_retry scripted_api eh rq
        \<lparr>sa_answers = rs @ later, sa_slept = [], sa_exits = x, sa_closes = c\<rparr>
      = (Refused (exhausted (error_of (last rs))),
         \<lparr>sa_answers = later, sa_slept = map (backoff eh) [0..<length rs - 1],
          sa_exits = x, sa_closes = c\<rparr>)"
    using attempts_exhausted[of rs eh rq 0 None later "[]" x c]
    by (simp add: open_stream_with_retry_def backoffs_upt)
qed

end
