(* ===== verification/Doubles.thy ===== *)
theory Doubles
  imports Tename_Prelude
begin

text \<open>
  Arithmetic on the non-negative doubles, as exact rationals rounded to the nearest double, ties
  to even, with subnormals; overflow to infinity is left out. \<open>round_digits\<close> is \<open>round(x, n)\<close>, which
  rounds the exact value to \<open>n\<close> decimals, ties to even, and takes the nearest double of that.
\<close>

section \<open>Rounding\<close>

text \<open>The nearest integer, ties to even.\<close>

definition round_even :: "rat \<Rightarrow> int" where
  "round_even x = (let n = \<lfloor>x\<rfloor>; r = x - of_int n in
     if r < 1 / 2 \<or> (r = 1 / 2 \<and> even n) then n else n + 1)"

definition pow2 :: "int \<Rightarrow> rat" where
  "pow2 e = (if 0 \<le> e then 2 ^ nat e else 1 / 2 ^ nat (- e))"

fun log2 :: "nat \<Rightarrow> nat" where
  "log2 n = (if n < 2 then 0 else Suc (log2 (n div 2)))"

declare log2.simps [simp del]

text \<open>The exponent of the last place of the double nearest to a positive \<open>x\<close>.\<close>

definition last_place :: "rat \<Rightarrow> int" where
  "last_place x =
     (case quotient_of x of (a, b) \<Rightarrow>
        let e = int (log2 (nat a)) - int (log2 (nat b)) - 53;
            e = (if x < pow2 (e + 53) then e else e + 1)
        in max e (- 1074))"

definition to_double :: "rat \<Rightarrow> rat" where
  "to_double x = (if x \<le> 0 then 0
     else of_int (round_even (x / pow2 (last_place x))) * pow2 (last_place x))"

definition round_digits :: "nat \<Rightarrow> rat \<Rightarrow> rat" where
  "round_digits n x = to_double (of_int (round_even (x * 10 ^ n)) / 10 ^ n)"

section \<open>How far rounding goes\<close>

lemma round_even_error: "\<bar>of_int (round_even x) - x\<bar> \<le> 1 / 2"
proof -
  have "0 \<le> x - of_int \<lfloor>x\<rfloor>" "x - of_int \<lfloor>x\<rfloor> < 1" by linarith+
  then show ?thesis by (simp add: round_even_def Let_def abs_le_iff)
qed

lemma pow2_pos [simp]: "0 < pow2 e"
  by (simp add: pow2_def)

lemma pow2_add: "pow2 (a + b) = pow2 a * pow2 b"
proof -
  have powi: "pow2 e = 2 powi e" for e
    by (simp add: pow2_def power_int_def field_simps)
  show ?thesis unfolding powi by (simp add: power_int_add)
qed

lemma log2_bounds: "0 < n \<Longrightarrow> 2 ^ log2 n \<le> n \<and> n < 2 ^ Suc (log2 n)"
proof (induction n rule: log2.induct)
  case (1 n)
  show ?case
  proof (cases "n < 2")
    case True
    with 1 show ?thesis by (simp add: log2.simps)
  next
    case False
    with 1 have "2 ^ log2 (n div 2) \<le> n div 2" "n div 2 < 2 ^ Suc (log2 (n div 2))" by simp_all
    moreover have "log2 n = Suc (log2 (n div 2))" using False by (subst log2.simps) simp
    moreover have "2 * (n div 2) \<le> n" "n < 2 * (n div 2) + 2" by linarith+
    ultimately show ?thesis by (simp only: power_Suc) linarith
  qed
qed

text \<open>Half a unit in the last place; above the subnormals, a relative error of \<open>2 ^ -53\<close>.\<close>

lemma last_place_bound:
  assumes "0 < x"
  shows "last_place x = - 1074 \<or> pow2 (last_place x + 52) \<le> x"
proof -
  obtain a b where q: "quotient_of x = (a, b)" by (meson surj_pair)
  have x: "x = of_int a / of_int b" and b: "0 < b"
    using quotient_of_div[OF q] quotient_of_denom_pos[OF q] by simp_all
  with assms have a: "0 < a" by (simp add: zero_less_divide_iff)
  define e where "e = int (log2 (nat a)) - int (log2 (nat b)) - 53"
  have e52: "e + 52 = int (log2 (nat a)) + - int (Suc (log2 (nat b)))" by (simp add: e_def)
  have "2 ^ log2 (nat a) \<le> nat a" "nat b < 2 ^ Suc (log2 (nat b))"
    using log2_bounds[of "nat a"] log2_bounds[of "nat b"] a b by simp_all
  then have "int (2 ^ log2 (nat a)) \<le> int (nat a)" "int (nat b) < int (2 ^ Suc (log2 (nat b)))"
    by (simp_all only: of_nat_le_iff of_nat_less_iff)
  then have "2 ^ log2 (nat a) \<le> a" "b < 2 ^ Suc (log2 (nat b))" using a b by simp_all
  then have "(of_int (2 ^ log2 (nat a)) :: rat) \<le> of_int a"
    "(of_int b :: rat) < of_int (2 ^ Suc (log2 (nat b)))" by (simp_all only: of_int_le_iff of_int_less_iff)
  then have "(2 ^ log2 (nat a) :: rat) \<le> of_int a" "(of_int b :: rat) \<le> 2 ^ Suc (log2 (nat b))" by simp_all
  then have "(2 ^ log2 (nat a) :: rat) / 2 ^ Suc (log2 (nat b)) \<le> of_int a / of_int b"
    using a b by (intro frac_le) simp_all
  moreover have "pow2 (e + 52) = 2 ^ log2 (nat a) / 2 ^ Suc (log2 (nat b))"
    unfolding e52 pow2_add by (simp add: pow2_def nat_add_distrib)
  ultimately have low: "pow2 (e + 52) \<le> x" using x by simp
  have "last_place x = max (if x < pow2 (e + 53) then e else e + 1) (- 1074)"
    by (simp add: last_place_def q e_def Let_def)
  moreover have "pow2 ((if x < pow2 (e + 53) then e else e + 1) + 52) \<le> x"
    using low by (simp add: add.commute)
  ultimately show ?thesis by (auto simp: max_def)
qed

lemma to_double_error:
  assumes "0 \<le> x"
  shows "\<bar>to_double x - x\<bar> \<le> x / 2 ^ 53 + 1 / 2 ^ 1075"
proof (cases "x = 0")
  case False
  with assms have pos: "0 < x" by simp
  define p where "p = pow2 (last_place x)"
  have p: "0 < p" by (simp add: p_def)
  have "to_double x - x = (of_int (round_even (x / p)) - x / p) * p"
    using pos p by (simp add: to_double_def left_diff_distrib flip: p_def)
  then have "\<bar>to_double x - x\<bar> = \<bar>of_int (round_even (x / p)) - x / p\<bar> * p"
    using p by (simp add: abs_mult)
  also have "\<dots> \<le> 1 / 2 * p" using p round_even_error by (intro mult_right_mono) simp_all
  also have "\<dots> \<le> x / 2 ^ 53 + 1 / 2 ^ 1075"
    using last_place_bound[OF pos]
  proof
    assume "last_place x = - 1074"
    then have "1 / 2 * p = 1 / 2 ^ 1075" by (simp add: p_def pow2_def)
    then show ?thesis using pos by simp
  next
    assume "pow2 (last_place x + 52) \<le> x"
    then have "p * 2 ^ 52 \<le> x" by (simp add: pow2_add p_def) (simp add: pow2_def)
    then have "1 / 2 * p \<le> x / 2 ^ 53" by simp
    moreover have "(0::rat) \<le> 1 / 2 ^ 1075" by (simp only: zero_le_divide_1_iff zero_le_power zero_le_numeral)
    ultimately show ?thesis by (rule add_increasing2[rotated])
  qed
  finally show ?thesis .
qed (simp add: to_double_def)

lemma to_double_nonneg: "0 \<le> to_double x"
proof (cases "x \<le> 0")
  case False
  then have "0 \<le> x / pow2 (last_place x)" by (intro divide_nonneg_nonneg less_imp_le[OF pow2_pos]) simp
  then have "0 \<le> \<lfloor>x / pow2 (last_place x)\<rfloor>" by (simp only: zero_le_floor)
  then have "0 \<le> round_even (x / pow2 (last_place x))" by (simp add: round_even_def Let_def)
  then show ?thesis by (simp add: to_double_def less_imp_le)
qed (simp add: to_double_def)

lemma round_digits_error:
  assumes "0 \<le> x"
  shows "\<bar>round_digits n x - x\<bar> \<le> 1 / (2 * 10 ^ n) + (x + 1 / 10 ^ n) / 2 ^ 53 + 1 / 2 ^ 1075"
proof -
  define y where "y = of_int (round_even (x * 10 ^ n)) / (10 :: rat) ^ n"
  have "y - x = (of_int (round_even (x * 10 ^ n)) - x * 10 ^ n) / 10 ^ n"
    by (simp add: y_def diff_divide_distrib)
  then have "\<bar>y - x\<bar> = \<bar>of_int (round_even (x * 10 ^ n)) - x * 10 ^ n\<bar> / 10 ^ n"
    by (simp add: abs_divide)
  also have "\<dots> \<le> 1 / 2 / 10 ^ n" using round_even_error by (intro divide_right_mono) simp_all
  finally have dec: "\<bar>y - x\<bar> \<le> 1 / (2 * 10 ^ n)" by simp
  have "0 \<le> \<lfloor>x * 10 ^ n\<rfloor>" using assms by simp
  then have y0: "0 \<le> y" by (simp add: y_def round_even_def Let_def)
  have "y \<le> x + 1 / 10 ^ n"
    using dec by (simp add: abs_le_iff field_simps)
  then have "y / 2 ^ 53 \<le> (x + 1 / 10 ^ n) / 2 ^ 53" by (intro divide_right_mono) simp_all
  moreover have "\<bar>to_double y - y\<bar> \<le> y / 2 ^ 53 + 1 / 2 ^ 1075" by (rule to_double_error[OF y0])
  moreover have "round_digits n x = to_double y" by (simp add: round_digits_def y_def)
  ultimately show ?thesis using dec by linarith
qed

section \<open>Exact integers\<close>

lemma round_even_of_int [simp]: "round_even (of_int n) = n"
  by (simp add: round_even_def)

lemma pow2_nonpos: "e \<le> 0 \<Longrightarrow> pow2 e = 1 / 2 ^ nat (- e)"
  by (simp add: pow2_def)

lemma log2_less: "0 < n \<Longrightarrow> n < 2 ^ k \<Longrightarrow> log2 n < k"
  using log2_bounds[of n] by (meson le_less_trans power_less_imp_less_exp one_less_numeral_iff
      semiring_norm(76))

lemma to_double_int:
  assumes "0 \<le> n" "n < 2 ^ 53"
  shows "to_double (of_int n) = of_int n"
proof (cases "n = 0")
  case False
  then have pos: "0 < n" using assms by simp
  then have "nat n < 2 ^ 53" using assms(2) by (simp add: nat_less_iff)
  with pos have "log2 (nat n) < 53" by (intro log2_less) simp_all
  moreover have "quotient_of (of_int n) = (n, 1)" by (simp add: quotient_of_int)
  moreover have "log2 (nat 1) = 0" by (subst log2.simps) simp
  ultimately have e: "last_place (of_int n) \<le> 0" by (simp add: last_place_def Let_def)
  define k where "k = nat (- last_place (of_int n))"
  have p: "pow2 (last_place (of_int n)) = 1 / 2 ^ k" using pow2_nonpos[OF e] by (simp add: k_def)
  have "of_int n / pow2 (last_place (of_int n)) = of_int (n * 2 ^ k)" by (simp add: p)
  then show ?thesis using pos p by (simp add: to_double_def del: of_int_mult)  (simp)
qed (simp add: to_double_def)

section \<open>Accumulated error\<close>

text \<open>\<open>near a b y z\<close>: the computed \<open>y\<close> is the exact \<open>z\<close> up to \<open>a\<close> relative and \<open>b\<close> absolute units.\<close>

definition unit_rel :: rat where "unit_rel = 1 / 2 ^ 53"
definition unit_abs :: rat where "unit_abs = 1 / 2 ^ 1075"

lemma units: "0 < unit_rel" "unit_rel * 200 \<le> 1" "0 < unit_abs"
  by (simp_all add: unit_rel_def unit_abs_def)

definition near :: "rat \<Rightarrow> rat \<Rightarrow> rat \<Rightarrow> rat \<Rightarrow> bool" where
  "near a b y z \<longleftrightarrow> 0 \<le> y \<and> 0 \<le> z \<and> \<bar>y - z\<bar> \<le> a * (z * unit_rel) + b * unit_abs"

lemma near_refl: "0 \<le> y \<Longrightarrow> near 0 0 y y"
  by (simp add: near_def)

lemma near_add: "near a b y z \<Longrightarrow> near a d y' z' \<Longrightarrow> near a (b + d) (y + y') (z + z')"
  by (auto simp: near_def distrib_left distrib_right abs_le_iff)

lemma near_weaken: "near a b y z \<Longrightarrow> a \<le> c \<Longrightarrow> near c b y z"
proof -
  assume n: "near a b y z" "a \<le> c"
  then have "a * (z * unit_rel) \<le> c * (z * unit_rel)"
    using units by (intro mult_right_mono) (simp_all add: near_def)
  with n show ?thesis by (simp add: near_def)
qed

lemma near_scale: "near a b y z \<Longrightarrow> 0 \<le> b \<Longrightarrow> 1 \<le> c \<Longrightarrow> near a b (y / c) (z / c)"
proof -
  assume n: "near a b y z" "0 \<le> b" "1 \<le> c"
  have "\<bar>y / c - z / c\<bar> = \<bar>y - z\<bar> / c" using n by (simp add: abs_divide flip: diff_divide_distrib)
  also have "\<dots> \<le> (a * (z * unit_rel) + b * unit_abs) / c"
    using n by (intro divide_right_mono) (simp_all add: near_def)
  also have "\<dots> = a * (z / c * unit_rel) + b * unit_abs / c" by (simp add: add_divide_distrib)
  also have "b * unit_abs / c \<le> b * unit_abs"
    using n mult_nonneg_nonneg[OF n(2) less_imp_le[OF units(3)]]
    by (simp add: divide_le_eq mult_le_cancel_left1)
  finally show ?thesis using n by (simp add: near_def)
qed

lemma near_double:
  assumes "near a b y z" "a \<le> 100" "0 \<le> b"
  shows "near (a + 2) (2 * b + 1) (to_double y) z"
proof -
  have z: "0 \<le> z" "0 \<le> y" and d: "\<bar>y - z\<bar> \<le> a * (z * unit_rel) + b * unit_abs"
    using assms by (simp_all add: near_def)
  have zr: "0 \<le> z * unit_rel" using z units by simp
  have "z * (unit_rel * 200) \<le> z * 1" using z units by (intro mult_left_mono) simp_all
  then have "100 * (z * unit_rel) \<le> z" using zr by simp
  moreover have "a * (z * unit_rel) \<le> 100 * (z * unit_rel)"
    using assms(2) zr by (intro mult_right_mono) simp_all
  ultimately have "y \<le> 2 * z + b * unit_abs" using d by linarith
  then have "y * unit_rel \<le> (2 * z + b * unit_abs) * unit_rel"
    using units by (intro mult_right_mono) simp_all
  also have "\<dots> = 2 * (z * unit_rel) + b * unit_abs * unit_rel" by (simp add: distrib_right)
  also have "b * unit_abs * unit_rel \<le> b * unit_abs"
    using units assms(3) by (intro mult_left_le) simp_all
  finally have "y * unit_rel \<le> 2 * (z * unit_rel) + b * unit_abs" by simp
  moreover have "\<bar>to_double y - y\<bar> \<le> y * unit_rel + unit_abs"
    using to_double_error[OF z(2)] by (simp add: unit_rel_def unit_abs_def)
  moreover have "(a + 2) * (z * unit_rel) = a * (z * unit_rel) + 2 * (z * unit_rel)"
    by (rule distrib_right)
  moreover have "(2 * b + 1) * unit_abs = 2 * (b * unit_abs) + unit_abs" by (simp add: distrib_right)
  ultimately have "\<bar>to_double y - z\<bar> \<le> (a + 2) * (z * unit_rel) + (2 * b + 1) * unit_abs"
    using d by linarith
  then show ?thesis using z to_double_nonneg by (simp add: near_def)
qed

end
