(* ===== verification/Model_Router.thy ===== *)
theory Model_Router
  imports Anthropic_Facts Doubles
begin

text \<open>
  \<open>router/service.py\<close> and \<open>router/pricing.py\<close>: dispatch of a completion to the provider the profile
  names, and the cost that is put into the \<open>usage\<close> chunk. Parsed YAML, pydantic's reading of a
  price entry and of a usage payload, and the spelling a payload gives a float are parameters.
  The main facts: the stream a caller gets follows the chunk protocol, and the cost is the exact
  price up to the eighth decimal and the rounding of doubles.
\<close>

type_synonym 'w provider =
  "router_profile \<Rightarrow> message list \<Rightarrow> tool_def list option \<Rightarrow> 'w
    \<Rightarrow> (model_chunk list \<times> exn option) \<times> 'w"

record 'w model_router =
  mr_providers :: "(string \<times> 'w provider) list"
  mr_raw_pricing :: "exn + (string \<times> (string \<times> json) list option) list"
  mr_validate_pricing :: "json \<Rightarrow> exn + pricing"
  mr_validate_usage :: "dict \<Rightarrow> exn + usage"
  mr_float_text :: "rat \<Rightarrow> string"

section \<open>Pricing\<close>

fun load_models ::
  "(json \<Rightarrow> exn + pricing) \<Rightarrow> (string \<times> json) list \<Rightarrow> exn + (string \<times> pricing) list" where
  "load_models V [] = Inr []"
| "load_models V ((m, entry) # ms) =
     bindE (V entry) (\<lambda>p. bindE (load_models V ms) (\<lambda>ps. Inr ((m, p) # ps)))"

fun load_providers ::
  "(json \<Rightarrow> exn + pricing) \<Rightarrow> (string \<times> (string \<times> json) list option) list
    \<Rightarrow> exn + (string \<times> (string \<times> pricing) list) list" where
  "load_providers V [] = Inr []"
| "load_providers V ((name, models) # raw) =
     bindE (load_models V (case models of None \<Rightarrow> [] | Some ms \<Rightarrow> ms)) (\<lambda>ps.
     bindE (load_providers V raw) (\<lambda>table. Inr ((name, ps) # table)))"

definition load_default_pricing_table ::
  "'w model_router \<Rightarrow> exn + (string \<times> (string \<times> pricing) list) list" where
  "load_default_pricing_table R =
     bindE (mr_raw_pricing R) (load_providers (mr_validate_pricing R))"

definition lookup_pricing ::
  "'w model_router \<Rightarrow> string \<Rightarrow> string \<Rightarrow> pricing option \<Rightarrow> exn + pricing option" where
  "lookup_pricing R name mid override =
     (case override of
        Some p \<Rightarrow> Inr (Some p)
      | None \<Rightarrow>
          bindE (load_default_pricing_table R) (\<lambda>table.
            Inr (map_of (case map_of table name of None \<Rightarrow> [] | Some ps \<Rightarrow> ps) mid)))"

definition cached_rate :: "pricing \<Rightarrow> rat" where
  "cached_rate p =
     (case cached_input_per_million p of Some r \<Rightarrow> r | None \<Rightarrow> input_per_million p)"

text \<open>\<open>(tokens * rate) / 1_000_000\<close>: the count becomes a double first.\<close>

definition priced :: "int \<Rightarrow> rat \<Rightarrow> rat" where
  "priced tokens rate = to_double (to_double (to_double (of_int tokens) * rate) / 1000000)"

definition uncached_input :: "usage \<Rightarrow> int" where
  "uncached_input u = max (input_tokens u - cached_input_tokens u) 0"

definition compute_cost_usd :: "usage \<Rightarrow> pricing option \<Rightarrow> rat option" where
  "compute_cost_usd u pricing =
     (case pricing of
        None \<Rightarrow> None
      | Some p \<Rightarrow>
          Some (round_digits 8
            (to_double (to_double
                (priced (uncached_input u) (input_per_million p)
                 + priced (cached_input_tokens u) (cached_rate p))
              + priced (output_tokens u + reasoning_tokens u) (output_per_million p)))))"

section \<open>The router\<close>

definition enrich_usage ::
  "'w model_router \<Rightarrow> router_profile \<Rightarrow> model_chunk \<Rightarrow> exn + model_chunk" where
  "enrich_usage R p chunk =
     bindE (lookup_pricing R (provider (rp_model p)) (model_id (rp_model p)) (rp_pricing p)) (\<lambda>pricing.
     bindE (mr_validate_usage R (ck_content chunk)) (\<lambda>u.
     case compute_cost_usd u pricing of
       None \<Rightarrow> Inr chunk
     | Some cost \<Rightarrow> Inr (usage_chunk (u\<lparr>cost_usd := Some (mr_float_text R cost)\<rparr>))))"

text \<open>The chunks passed on, and the exception that ends the iteration.\<close>

fun enrich_chunks ::
  "'w model_router \<Rightarrow> router_profile \<Rightarrow> model_chunk list \<Rightarrow> exn option
    \<Rightarrow> model_chunk list \<times> exn option" where
  "enrich_chunks R p [] ending = ([], ending)"
| "enrich_chunks R p (chunk # chunks) ending =
     (case (if ck_type chunk = Usage_Chunk then enrich_usage R p chunk else Inr chunk) of
        Inl x \<Rightarrow> ([], Some x)
      | Inr c \<Rightarrow> (case enrich_chunks R p chunks ending of (cs, x) \<Rightarrow> (c # cs, x)))"

definition unknown_provider :: "'w model_router \<Rightarrow> string \<Rightarrow> exn" where
  "unknown_provider R name =
     Exn ''ValueError''
       (''no provider registered for '' @ CHR 0x27 # name @ CHR 0x27 # ''. Known: ''
        @ py_repr (JList (map JStr (sort (map fst (mr_providers R))))))"

definition router_complete :: "'w model_router \<Rightarrow> 'w provider" where
  "router_complete R p ms tools w =
     (case map_of (mr_providers R) (provider (rp_model p)) of
        None \<Rightarrow> (([], Some (unknown_provider R (provider (rp_model p)))), w)
      | Some f \<Rightarrow> (case f p ms tools w of ((chunks, x), w) \<Rightarrow> (enrich_chunks R p chunks x, w)))"

text \<open>Without providers, or with an empty dictionary of them, there is the Anthropic one with a
  client of its own.\<close>

definition default_providers ::
  "'w anthropic_api \<Rightarrow> (string \<times> 'w provider) list option \<Rightarrow> (string \<times> 'w provider) list" where
  "default_providers A given =
     (case given of
        None \<Rightarrow> [(''anthropic'', anthropic_complete A True)]
      | Some ps \<Rightarrow> if ps = [] then [(''anthropic'', anthropic_complete A True)] else ps)"

section \<open>The stream a caller gets\<close>

lemma usage_chunk_content: "ck_type c = Usage_Chunk \<Longrightarrow> \<exists>d. c = \<lparr>ck_type = Usage_Chunk, ck_content = d\<rparr>"
  by (cases c) simp

lemma enrich_usage_chunk:
  "enrich_usage R p (usage_chunk u) = Inr c \<Longrightarrow> \<exists>u'. c = usage_chunk u'"
  by (auto simp: enrich_usage_def bindE_Inr split: option.splits)

lemma enrich_protocol:
  assumes "protocol oc r chunks" "r = (x \<noteq> None)" "enrich_chunks R p chunks x = (cs, y)"
  shows "protocol oc (y \<noteq> None) cs"
  using assms
proof (induction arbitrary: cs y rule: protocol.induct)
  case (finished oc u)
  show ?case
  proof (cases "enrich_usage R p (usage_chunk u)")
    case (Inr c)
    with enrich_usage_chunk[OF this] finished show ?thesis by (auto intro: protocol.finished)
  qed (use finished in \<open>auto intro: protocol.raised\<close>)
qed (auto split: prod.splits intro: protocol.intros)

definition follows_protocol :: "'w provider \<Rightarrow> bool" where
  "follows_protocol f \<longleftrightarrow>
     (\<forall>p ms tools w chunks x w'. f p ms tools w = ((chunks, x), w')
        \<longrightarrow> protocol (\<lambda>_. None) (x \<noteq> None) chunks)"

lemma anthropic_follows_protocol: "follows_protocol (anthropic_complete A owns)"
  unfolding follows_protocol_def
  using anthropic_stream_protocol by (metis (mono_tags, lifting) case_prod_conv)

lemma router_follows_protocol:
  assumes "\<forall>f \<in> set (map snd (mr_providers R)). follows_protocol f"
  shows "follows_protocol (router_complete R)"
  unfolding follows_protocol_def
proof (intro allI impI)
  fix p ms tools w chunks x w'
  assume run: "router_complete R p ms tools w = ((chunks, x), w')"
  show "protocol (\<lambda>_. None) (x \<noteq> None) chunks"
  proof (cases "map_of (mr_providers R) (provider (rp_model p))")
    case None
    with run show ?thesis by (auto simp: router_complete_def intro: protocol.raised)
  next
    case (Some f)
    then have f: "follows_protocol f" using assms by (force dest: map_of_SomeD)
    obtain cs y v where out: "f p ms tools w = ((cs, y), v)" by (metis surj_pair)
    with f have "protocol (\<lambda>_. None) (y \<noteq> None) cs" unfolding follows_protocol_def by blast
    from enrich_protocol[OF this refl] run Some out show ?thesis
      by (auto simp: router_complete_def)
  qed
qed

lemma default_router_follows:
  "follows_protocol (router_complete (R\<lparr>mr_providers := default_providers A None\<rparr>))"
  by (rule router_follows_protocol) (simp add: default_providers_def anthropic_follows_protocol)

text \<open>C9. Whatever the SDK delivers, a router with its default provider yields a stream that follows
  the protocol of \<open>ProviderInterface\<close>: a delta or an end only for the call open at its index,
  with that call's id and name, and one terminator (\<open>usage\<close> and \<open>done\<close>, or \<open>error\<close>), absent
  exactly when an exception leaves the stream.\<close>

theorem router_stream_protocol:
  "case router_complete (R\<lparr>mr_providers := default_providers A None\<rparr>) p ms tools w of
     ((chunks, x), w') \<Rightarrow> protocol (\<lambda>_. None) (x \<noteq> None) chunks"
  using default_router_follows[of A R] unfolding follows_protocol_def by (auto split: prod.splits)

section \<open>How exact the cost is\<close>

definition exact_cost :: "usage \<Rightarrow> pricing \<Rightarrow> rat" where
  "exact_cost u p =
     (of_int (uncached_input u) * input_per_million p
      + of_int (cached_input_tokens u) * cached_rate p
      + of_int (output_tokens u + reasoning_tokens u) * output_per_million p) / 1000000"

lemma priced_near:
  assumes "0 \<le> n" "n < 2 ^ 53" "0 \<le> rate"
  shows "near 4 3 (priced n rate) (of_int n * rate / 1000000)"
proof -
  have "near 0 0 (of_int n * rate) (of_int n * rate)" using assms by (intro near_refl) simp
  from near_double[OF this] have "near 2 1 (to_double (of_int n * rate)) (of_int n * rate)" by simp
  then have "near 2 1 (to_double (of_int n * rate) / 1000000) (of_int n * rate / 1000000)"
    by (rule near_scale) simp_all
  from near_double[OF this] show ?thesis by (simp add: priced_def to_double_int[OF assms(1,2)])
qed

definition usage_counts_ok :: "usage \<Rightarrow> bool" where
  "usage_counts_ok u \<longleftrightarrow> 0 \<le> input_tokens u \<and> input_tokens u < 2 ^ 53
     \<and> 0 \<le> cached_input_tokens u \<and> cached_input_tokens u < 2 ^ 53
     \<and> 0 \<le> output_tokens u + reasoning_tokens u \<and> output_tokens u + reasoning_tokens u < 2 ^ 53"

lemma sum_near:
  assumes "near 4 3 q1 x1" "near 4 3 q2 x2" "near 4 3 q3 x3"
  shows "near 8 33 (to_double (to_double (q1 + q2) + q3)) (x1 + x2 + x3)"
proof -
  from near_double[OF near_add[OF assms(1,2)]] have "near 6 13 (to_double (q1 + q2)) (x1 + x2)" by simp
  moreover have "near 6 3 q3 x3" by (rule near_weaken[OF assms(3)]) simp
  ultimately have "near 6 16 (to_double (q1 + q2) + q3) (x1 + x2 + x3)"
    using near_add[of 6 13 "to_double (q1 + q2)" "x1 + x2" 3] by simp
  from near_double[OF this] show ?thesis by simp
qed

lemma unit_abs_small: "unit_abs \<le> 1 / 10 ^ 20"
proof -
  have "(10::rat) ^ 20 \<le> 2 ^ 67" by simp
  also have "\<dots> \<le> 2 ^ 1075" by (rule power_increasing) simp_all
  finally show ?thesis unfolding unit_abs_def by (intro frac_le) simp_all
qed

text \<open>C22. For token counts below \<open>2 ^ 53\<close> and prices that make the bill at most a million dollars, the
  cost the router reports, after every rounding of the floating-point computation and of
  \<open>round(_, 8)\<close>, is within a hundred-millionth of a dollar of the exact price.\<close>

theorem cost_within_rounding:
  assumes "usage_counts_ok u" "0 \<le> input_per_million p" "0 \<le> output_per_million p"
    "0 \<le> cached_rate p" "exact_cost u p \<le> 1000000"
  shows "\<exists>c. compute_cost_usd u (Some p) = Some c \<and> \<bar>c - exact_cost u p\<bar> < 1 / 10 ^ 8"
proof -
  define s where "s = to_double (to_double
      (priced (uncached_input u) (input_per_million p)
       + priced (cached_input_tokens u) (cached_rate p))
    + priced (output_tokens u + reasoning_tokens u) (output_per_million p))"
  have u: "0 \<le> uncached_input u" "uncached_input u < 2 ^ 53"
    using assms(1) by (auto simp: uncached_input_def usage_counts_ok_def)
  have x: "exact_cost u p = of_int (uncached_input u) * input_per_million p / 1000000
      + of_int (cached_input_tokens u) * cached_rate p / 1000000
      + of_int (output_tokens u + reasoning_tokens u) * output_per_million p / 1000000"
    by (simp add: exact_cost_def add_divide_distrib)
  have "near 8 33 s (exact_cost u p)"
    unfolding s_def x using assms(1)
    by (intro sum_near priced_near u assms(2-4)) (simp_all add: usage_counts_ok_def)
  then have s0: "0 \<le> s" and d: "\<bar>s - exact_cost u p\<bar> \<le> 8 * (exact_cost u p * unit_rel) + 33 * unit_abs"
    by (simp_all add: near_def)
  have "exact_cost u p * unit_rel \<le> 1000000 * unit_rel"
    using assms(5) units by (intro mult_right_mono) simp_all
  then have rel: "exact_cost u p * unit_rel \<le> 1 / 10 ^ 9 / 8" by (simp add: unit_rel_def)
  with d unit_abs_small have near: "\<bar>s - exact_cost u p\<bar> \<le> 11 / 10 ^ 10" by simp
  have "s + 1 / 10 ^ 8 \<le> 1000001"
    using abs_ge_self[of "s - exact_cost u p"] near assms(5) by simp
  then have "(s + 1 / 10 ^ 8) / 2 ^ 53 \<le> 1000001 / 2 ^ 53" by (intro divide_right_mono) simp_all
  also have "(1000001::rat) / 2 ^ 53 \<le> 1 / 10 ^ 9" by simp
  finally have last: "(s + 1 / 10 ^ 8) / 2 ^ 53 \<le> 1 / 10 ^ 9" .
  have "\<bar>round_digits 8 s - s\<bar> \<le> 1 / (2 * 10 ^ 8) + 1 / 10 ^ 9 + 1 / 10 ^ 20"
    using round_digits_error[OF s0, of 8, folded unit_abs_def] last unit_abs_small
    by (meson add_mono order_refl order_trans)
  then have "\<bar>round_digits 8 s - s\<bar> \<le> 62 / 10 ^ 10" by simp
  with near have "\<bar>round_digits 8 s - exact_cost u p\<bar> \<le> 62 / 10 ^ 10 + 11 / 10 ^ 10"
    using abs_triangle_ineq[of "round_digits 8 s - s" "s - exact_cost u p"] by linarith
  then have "\<bar>round_digits 8 s - exact_cost u p\<bar> < 1 / 10 ^ 8" by simp
  moreover have "compute_cost_usd u (Some p) = Some (round_digits 8 s)"
    by (simp add: compute_cost_usd_def s_def)
  ultimately show ?thesis by blast
qed

end
