(* ===== verification/Wire_Request.thy ===== *)
theory Wire_Request
  imports Vanilla_Adapter Anthropic_Provider
begin

text \<open>
  From the log to the wire: what the adapter's messages become in the request of the Anthropic
  provider. The ids of the tool use and tool result blocks are read off the JSON of the
  request, so that the order the API insists on, a use before its result, is stated there.
\<close>

definition block_ref :: "string \<Rightarrow> string \<Rightarrow> json \<Rightarrow> string option" where
  "block_ref kind key b =
     (case b of
        JObj d \<Rightarrow> if dget d ''type'' = JStr kind then as_str (dget d key) else None
      | _ \<Rightarrow> None)"

definition wire_ids :: "string \<Rightarrow> string \<Rightarrow> dict \<Rightarrow> string list" where
  "wire_ids kind key m =
     (case dget m ''content'' of
        JList bs \<Rightarrow> List.map_filter (block_ref kind key) bs
      | _ \<Rightarrow> [])"

abbreviation wire_uses :: "dict \<Rightarrow> string list" where
  "wire_uses \<equiv> wire_ids ''tool_use'' ''id''"

abbreviation wire_results :: "dict \<Rightarrow> string list" where
  "wire_results \<equiv> wire_ids ''tool_result'' ''tool_use_id''"

text \<open>Every result on the wire names a use of an earlier message.\<close>

fun wire_answered :: "string set \<Rightarrow> dict list \<Rightarrow> bool" where
  "wire_answered seen [] \<longleftrightarrow> True"
| "wire_answered seen (m # ms) \<longleftrightarrow> set (wire_results m) \<subseteq> seen
     \<and> wire_answered (seen \<union> set (wire_uses m)) ms"

lemma as_str_or_null [simp]: "as_str (or_null x) = x"
  by (cases x) (simp_all add: or_null_def)

lemma block_ref_block:
  "block_ref ''tool_use'' ''id'' (JObj (block_to_anthropic b))
     = (if cb_type b = Tool_Use then cb_id b else None)"
  "block_ref ''tool_result'' ''tool_use_id'' (JObj (block_to_anthropic b))
     = (if cb_type b = Tool_Result then cb_tool_use_id b else None)"
  by (cases "cb_type b"; simp add: block_ref_def block_to_anthropic_def text_dict_def)+

lemma map_filter_map: "List.map_filter f (map g xs) = List.map_filter (\<lambda>x. f (g x)) xs"
  by (simp add: map_filter_def filter_map comp_def)

lemma wire_ids_message:
  "wire_uses (message_to_anthropic m) = use_ids (block_list (content m))"
  "wire_results (message_to_anthropic m) = result_ids (block_list (content m))"
  by (cases "content m"; simp add: message_to_anthropic_def wire_ids_def content_to_anthropic_def
      map_filter_map block_ref_block use_ids_def result_ids_def)+

definition plain_systems :: "message list \<Rightarrow> bool" where
  "plain_systems ms \<longleftrightarrow> (\<forall>m \<in> set ms. role m = System \<longrightarrow> block_list (content m) = [])"

lemma split_system_answered:
  "answered seen ms \<Longrightarrow> plain_systems ms \<Longrightarrow> wire_answered seen (snd (split_system ms))"
  by (induction ms arbitrary: seen)
    (auto simp: plain_systems_def wire_ids_message split: prod.split)

lemma plain_systems_simps [simp]:
  "plain_systems []"
  "plain_systems (ms @ ns) \<longleftrightarrow> plain_systems ms \<and> plain_systems ns"
  "plain_systems [msg r (Plain t)]"
  "r \<noteq> System \<Longrightarrow> plain_systems [msg r c]"
  by (auto simp: plain_systems_def)

lemma flush_plain_systems:
  "plain_systems (messages (flush_assistant st)) = plain_systems (messages st)"
  "plain_systems (messages (flush_tool_results st)) = plain_systems (messages st)"
  by (simp_all add: flush_assistant_def flush_tool_results_def Let_def)

lemma step_plain_systems:
  "context_step ids st ev = Inr st' \<Longrightarrow> plain_systems (messages st) \<Longrightarrow> plain_systems (messages st')"
  by (cases ev) (auto simp: context_step_def flush_plain_systems add_message_def push_use_def
      push_result_def Let_def bindE_Inr split: if_splits json.splits option.splits)

lemma vanilla_plain_systems: "vanilla_build_context es = Inr ms \<Longrightarrow> plain_systems ms"
proof -
  assume "vanilla_build_context es = Inr ms"
  then obtain st where st: "foldE (context_step (tool_call_ids es)) empty_context
      (map (\<lambda>ev. (ev_type ev, ev_payload ev)) es) = Inr st" "ms = finish_context st"
    by (auto simp: vanilla_build_context_def bindE_Inr)
  have "plain_systems (messages empty_context)" by (simp add: empty_context_def)
  from foldE_invariant[OF st(1), of "\<lambda>st. plain_systems (messages st)", OF this step_plain_systems]
  show ?thesis by (simp add: st(2) finish_context_def flush_plain_systems)
qed


end
