(* ===== verification/Examples_Provider.thy ===== *)
theory Examples_Provider
  imports Examples_Context Anthropic_Facts Model_Router Wire_Request
begin

text \<open>The properties of the provider and of the router applied to concrete streams, answers and
  bills.\<close>

definition split_fragments :: "sse list" where
  "split_fragments =
     [Content_Block_Delta 1 (Input_Json_Part [CHR 0x7B, CHR 0x22, CHR ''q'']),
      Content_Block_Delta 0 (Text_Part ''let me see''),
      Content_Block_Delta 1 (Input_Json_Part [CHR 0x22, CHR '':'', CHR '' '', CHR 0x22]),
      Content_Block_Delta 1 (Input_Json_Part [CHR ''a'', CHR 0x22, CHR 0x7D])]"

definition sample_connection :: connection where
  "sample_connection =
     ([Message_Start (Some 10) None None]
        @ Content_Block_Start 1 (Tool_Use_Start ''t1'' ''search'') # split_fragments
        @ Content_Block_Stop 1 # [Message_Delta None None (Some 7)], None)"

theorem tool_input_reassembled_witness:
  "tool_call_end ''t1'' ''search'' [(''q'', JStr ''a'')] 1 \<in> set (fst (read_stream sample_connection))"
proof -
  have "list_all (inside_call 1) split_fragments" by code_simp
  moreover have "fragments 1 split_fragments = json_dumps True (JObj [(''q'', JStr ''a'')])" by code_simp
  moreover have "json_ok (JObj [(''q'', JStr ''a'')])" by code_simp
  moreover have "snd (read_stream sample_connection) = None" by code_simp
  then have "read_stream sample_connection = (fst (read_stream sample_connection), None)"
    by (simp add: prod_eq_iff)
  ultimately show ?thesis
    unfolding sample_connection_def by (rule tool_input_reassembled)
qed

text \<open>An API whose state is the number of open connections.\<close>

definition counting_api :: "int anthropic_api" where
  "counting_api = \<lparr>ap_enter = (\<lambda>rq w. (Inr ([], None), w + 1)), ap_exit = (\<lambda>w. w - 1),
     ap_sleep = (\<lambda>t w. w), ap_close = (\<lambda>w. w)\<rparr>"


definition sample_handling :: error_handling where
  "sample_handling = \<lparr>retry_on_transient = True, max_retries = 1, backoff_base_seconds = 2,
     backoff_multiplier = 3\<rparr>"

theorem retry_policy_witness:
  "open_stream_with_retry scripted_api sample_handling (build_request (to_router_profile sample_profile) [] None)
      \<lparr>sa_answers = [Inl (Status_Error 503 ''busy''), Inr sample_connection], sa_slept = [],
       sa_exits = 0, sa_closes = 0\<rparr>
    = (Opened sample_connection,
       \<lparr>sa_answers = [], sa_slept = [2], sa_exits = 0, sa_closes = 0\<rparr>)"
proof -
  have "list_all retryable [Inl (Status_Error 503 ''busy'')]"
    by (simp add: retryable_def transient_def)
  moreover have "0 \<le> max_retries sample_handling" by (simp add: sample_handling_def)
  ultimately show ?thesis
    using retry_policy[of "[Inl (Status_Error 503 ''busy'')]" sample_handling "Inr sample_connection"
        "build_request (to_router_profile sample_profile) [] None" "[]" 0 0]
    by (simp add: max_attempts_def sample_handling_def retryable_def attempt_outcome_def backoff_def)
qed

definition sample_pricing :: pricing where
  "sample_pricing = \<lparr>input_per_million = 3, output_per_million = 15,
     cached_input_per_million = Some (3 / 10)\<rparr>"

definition sample_usage :: usage where
  "sample_usage = \<lparr>input_tokens = 1000, output_tokens = 77, cached_input_tokens = 333,
     reasoning_tokens = 0, cost_usd = None\<rparr>"

theorem cost_within_rounding_witness:
  "\<exists>c. compute_cost_usd sample_usage (Some sample_pricing) = Some c
    \<and> \<bar>c - exact_cost sample_usage sample_pricing\<bar> < 1 / 10 ^ 8"
proof (rule cost_within_rounding)
  show "usage_counts_ok sample_usage" by (simp add: usage_counts_ok_def sample_usage_def)
  show "0 \<le> input_per_million sample_pricing" "0 \<le> output_per_million sample_pricing"
    by (simp_all add: sample_pricing_def)
  show "0 \<le> cached_rate sample_pricing" by (simp add: cached_rate_def sample_pricing_def)
  show "exact_cost sample_usage sample_pricing \<le> 1000000"
    by (simp add: exact_cost_def uncached_input_def cached_rate_def sample_pricing_def
        sample_usage_def)
qed


end
