(* ===== verification/Sdk_Agents.thy ===== *)
theory Sdk_Agents
  imports Session_Service Sandbox_Service Json_Round_Trip
begin

text \<open>
  \<open>sdk/_config.py\<close>, \<open>sdk/errors.py\<close> and \<open>sdk/agents.py\<close>: where the client's settings come from,
  and the rows of the \<open>agents\<close> table. JSON columns are bound as the text of \<open>json.dumps\<close> and
  stored as the value PostgreSQL reads from it; the order of the keys of a stored object is
  kept here, where PostgreSQL may change it. PostgreSQL refuses a NUL character in text and in
  JSON strings.
\<close>

section \<open>Errors\<close>

text \<open>The classes of the SDK with their text, and what the database driver raises.\<close>

datatype sdk_error =
    ConfigurationError string
  | SdkNotFoundError string
  | SdkValidationError string
  | DriverError session_error

section \<open>Configuration\<close>

record resolved_config =
  rc_database_url :: string
  rc_anthropic_api_key :: "string option"
  rc_profiles_dir :: "string option"
  rc_vault_path :: "string option"
  rc_vault_passphrase :: "string option"

type_synonym environ = "(string \<times> string) list"

definition DATABASE_URL_ENV :: string where "DATABASE_URL_ENV = ''TENAME_DATABASE_URL''"
definition ANTHROPIC_API_KEY_ENV :: string where "ANTHROPIC_API_KEY_ENV = ''ANTHROPIC_API_KEY''"
definition SDK_PASSPHRASE_ENV :: string where "SDK_PASSPHRASE_ENV = ''TENAME_VAULT_PASSPHRASE''"
definition PROFILES_DIR_ENV :: string where "PROFILES_DIR_ENV = ''TENAME_PROFILES_DIR''"

text \<open>\<open>value or os.environ.get(name)\<close>\<close>

definition or_env :: "string option \<Rightarrow> environ \<Rightarrow> string \<Rightarrow> string option" where
  "or_env x E name = (case x of Some s \<Rightarrow> if s \<noteq> [] then Some s else map_of E name | None \<Rightarrow> map_of E name)"

definition resolve_config ::
  "environ \<Rightarrow> string option \<Rightarrow> string option \<Rightarrow> string option \<Rightarrow> string option \<Rightarrow> string option
    \<Rightarrow> sdk_error + resolved_config" where
  "resolve_config E database_url api_key profiles_dir vault_path vault_passphrase =
     (case or_env database_url E DATABASE_URL_ENV of
        None \<Rightarrow> Inl (ConfigurationError
          (''database_url is required (pass it explicitly or set '' @ DATABASE_URL_ENV @ '')''))
      | Some url \<Rightarrow>
          if url = [] then Inl (ConfigurationError
            (''database_url is required (pass it explicitly or set '' @ DATABASE_URL_ENV @ '')''))
          else Inr \<lparr>rc_database_url = url,
                    rc_anthropic_api_key = or_env api_key E ANTHROPIC_API_KEY_ENV,
                    rc_profiles_dir = or_env profiles_dir E PROFILES_DIR_ENV,
                    rc_vault_path = vault_path,
                    rc_vault_passphrase = or_env vault_passphrase E SDK_PASSPHRASE_ENV\<rparr>)"

text \<open>\<open>os.environ.setdefault\<close> of the key, as \<open>AsyncTename.__init__\<close> does; the provider's client takes
  its key from the environment.\<close>

definition export_key :: "resolved_config \<Rightarrow> environ \<Rightarrow> environ" where
  "export_key c E =
     (case rc_anthropic_api_key c of
        None \<Rightarrow> E
      | Some k \<Rightarrow>
          (case map_of E ANTHROPIC_API_KEY_ENV of
             None \<Rightarrow> AList.update ANTHROPIC_API_KEY_ENV k E
           | Some _ \<Rightarrow> E))"

section \<open>Agents\<close>

record create_agent_input =
  ca_name :: string
  ca_model :: string
  ca_system_prompt :: "string option"
  ca_tools :: "string list"
  ca_framework :: string
  ca_sandbox_recipe :: "recipe option"

fun network_policy_value :: "network_policy \<Rightarrow> string" where
  "network_policy_value Open = ''open''"
| "network_policy_value Isolated = ''isolated''"
| "network_policy_value Allowlist = ''allowlist''"

definition str_dict :: "(string \<times> string) list \<Rightarrow> json" where
  "str_dict d = JObj (map (\<lambda>(k, v). (k, JStr v)) d)"

definition recipe_dump :: "recipe \<Rightarrow> dict" where
  "recipe_dump r =
     [(''runtime'', JStr (runtime r)), (''packages'', JList (map JStr (packages r))),
      (''files'', str_dict (files r)), (''env'', str_dict (env r)),
      (''cpu_limit'', JInt (cpu_limit r)), (''memory_limit_mb'', JInt (memory_limit_mb r)),
      (''timeout_seconds'', JInt (timeout_seconds r)),
      (''network_policy'', JStr (network_policy_value (network_policy r)))]"

definition has_nul :: "string \<Rightarrow> bool" where
  "has_nul s \<longleftrightarrow> CHR 0x00 \<in> set s"

fun json_nul :: "json \<Rightarrow> bool"
  and items_nul :: "json list \<Rightarrow> bool"
  and pairs_nul :: "(string \<times> json) list \<Rightarrow> bool" where
  "json_nul (JStr s) = has_nul s"
| "json_nul (JList xs) = items_nul xs"
| "json_nul (JObj d) = pairs_nul d"
| "json_nul v = False"
| "items_nul [] = False"
| "items_nul (x # xs) = (json_nul x \<or> items_nul xs)"
| "pairs_nul [] = False"
| "pairs_nul ((k, v) # d) = (has_nul k \<or> json_nul v \<or> pairs_nul d)"

text \<open>\<open>CAST(... AS JSONB)\<close>\<close>

definition jsonb :: "string \<Rightarrow> sdk_error + json" where
  "jsonb t =
     (case json_loads t of
        Inl _ \<Rightarrow> Inl (DriverError DataError)
      | Inr v \<Rightarrow> if json_nul v then Inl (DriverError DataError) else Inr v)"

definition text_param :: "string \<Rightarrow> sdk_error + string" where
  "text_param s = (if has_nul s then Inl (DriverError DataError) else Inr s)"

fun optE :: "('a \<Rightarrow> 'e + 'b) \<Rightarrow> 'a option \<Rightarrow> 'e + 'b option" where
  "optE f None = Inr None"
| "optE f (Some x) = bindE (f x) (\<lambda>y. Inr (Some y))"

record agent_row =
  ar_id :: uuid
  ar_name :: string
  ar_model :: string
  ar_framework :: string
  ar_system_prompt :: "string option"
  ar_tools :: json
  ar_sandbox_recipe :: "json option"
  ar_created_at :: int

fun strings_of :: "json list \<Rightarrow> string list option" where
  "strings_of [] = Some []"
| "strings_of (x # xs) =
     (case (as_str x, strings_of xs) of (Some s, Some ss) \<Rightarrow> Some (s # ss) | _ \<Rightarrow> None)"

definition row_to_agent :: "agent_row \<Rightarrow> sdk_error + agent" where
  "row_to_agent r =
     (case (Option.bind (as_list (ar_tools r)) strings_of,
            case ar_sandbox_recipe r of None \<Rightarrow> Some None | Some v \<Rightarrow> map_option Some (as_obj v)) of
        (Some ts, Some rec) \<Rightarrow>
          Inr \<lparr>ag_id = ar_id r, ag_tenant = DEFAULT_TENANT_ID, ag_name = ar_name r,
               ag_model = ar_model r, ag_framework = ar_framework r,
               ag_system_prompt = ar_system_prompt r, ag_tools = ts,
               ag_sandbox_recipe = rec, ag_created_at = ar_created_at r\<rparr>
      | _ \<Rightarrow> Inl (DriverError ValueError))"

definition bind_agent :: "uuid \<Rightarrow> int \<Rightarrow> create_agent_input \<Rightarrow> sdk_error + agent_row" where
  "bind_agent new_id now spec =
     bindE (text_param (ca_name spec)) (\<lambda>name.
     bindE (text_param (ca_model spec)) (\<lambda>model.
     bindE (text_param (ca_framework spec)) (\<lambda>framework.
     bindE (optE text_param (ca_system_prompt spec)) (\<lambda>prompt.
     bindE (jsonb (json_dumps True (JList (map JStr (ca_tools spec))))) (\<lambda>tools.
     bindE (optE (\<lambda>r. jsonb (json_dumps True (JObj (recipe_dump r)))) (ca_sandbox_recipe spec)) (\<lambda>rec.
     Inr \<lparr>ar_id = new_id, ar_name = name, ar_model = model, ar_framework = framework,
          ar_system_prompt = prompt, ar_tools = tools, ar_sandbox_recipe = rec,
          ar_created_at = now\<rparr>))))))"

definition agent_not_found :: "uuid \<Rightarrow> sdk_error" where
  "agent_not_found i = SdkNotFoundError (''agent '' @ uuid_str i @ '' does not exist'')"

definition fetch_agent :: "uuid \<Rightarrow> db \<Rightarrow> sdk_error + agent" where
  "fetch_agent i d =
     (case find (\<lambda>a. ag_id a = i) (agents d) of None \<Rightarrow> Inl (agent_not_found i) | Some a \<Rightarrow> Inr a)"

definition create_agent ::
  "uuid \<Rightarrow> int \<Rightarrow> create_agent_input \<Rightarrow> db \<Rightarrow> sdk_error + agent \<times> db" where
  "create_agent new_id now spec d =
     (if ca_name spec = [] then Inl (SdkValidationError ''agent name must be non-empty'')
      else if ca_model spec = [] then Inl (SdkValidationError ''agent model must be non-empty'')
      else bindE (bind_agent new_id now spec) (\<lambda>row.
        if has_agent d new_id then Inl (DriverError IntegrityError)
        else bindE (row_to_agent row) (\<lambda>a.
          let d' = d\<lparr>agents := agents d @ [a]\<rparr>
          in bindE (fetch_agent new_id d') (\<lambda>a. Inr (a, d')))))"

text \<open>\<open>ORDER BY created_at DESC\<close>; agents of the same instant in the order of the table.\<close>

definition list_agents :: "db \<Rightarrow> agent list" where
  "list_agents d = sort_key (\<lambda>a. - ag_created_at a) (agents d)"

text \<open>The foreign key of \<open>sessions.agent_id\<close> restricts deletion.\<close>

definition delete_agent :: "uuid \<Rightarrow> db \<Rightarrow> sdk_error + db" where
  "delete_agent i d =
     (if \<not> has_agent d i then Inl (agent_not_found i)
      else if list_ex (\<lambda>r. s_agent_id r = i) (sessions d) then Inl (DriverError IntegrityError)
      else Inr (d\<lparr>agents := filter (\<lambda>a. ag_id a \<noteq> i) (agents d)\<rparr>))"

section \<open>Facts\<close>

lemma items_ok_strings [simp]: "items_ok (map JStr ts)"
  by (induction ts) simp_all

lemma strings_of_map [simp]: "strings_of (map JStr ts) = Some ts"
  by (induction ts) simp_all

lemma pairs_ok_strings [simp]: "pairs_ok (map (\<lambda>p. (fst p, JStr (snd p))) d)"
  by (induction d) auto

text \<open>A recipe as Python holds it: dictionaries have distinct keys, and its numbers can be written
  out.\<close>

definition recipe_ok :: "recipe \<Rightarrow> bool" where
  "recipe_ok r \<longleftrightarrow> distinct (map fst (files r)) \<and> distinct (map fst (env r))
     \<and> json_ok (JInt (cpu_limit r)) \<and> json_ok (JInt (memory_limit_mb r))
     \<and> json_ok (JInt (timeout_seconds r))"

lemma recipe_dump_ok: "recipe_ok r \<Longrightarrow> json_ok (JObj (recipe_dump r))"
  by (simp add: recipe_ok_def recipe_dump_def str_dict_def comp_def case_prod_unfold)

lemma jsonb_dumps: "json_ok v \<Longrightarrow> jsonb (json_dumps a v) = Inr v' \<Longrightarrow> v' = v"
  by (simp add: jsonb_def json_round_trip split: if_splits)

lemma text_param_Inr [returns_iff]: "text_param s = Inr t \<longleftrightarrow> t = s \<and> \<not> has_nul s"
  by (auto simp: text_param_def)

lemma optE_text_Inr: "optE text_param x = Inr y \<Longrightarrow> y = x"
  by (cases x) (auto simp: returns_iff)

lemma find_agent_None: "find (\<lambda>a. ag_id a = i) (agents d) = None \<longleftrightarrow> \<not> has_agent d i"
  by (auto simp: has_agent_def find_None_iff list_ex_iff)

lemma bind_agent_fields:
  assumes "bind_agent i now spec = Inr row" "case_option True recipe_ok (ca_sandbox_recipe spec)"
  shows "row = \<lparr>ar_id = i, ar_name = ca_name spec, ar_model = ca_model spec,
    ar_framework = ca_framework spec, ar_system_prompt = ca_system_prompt spec,
    ar_tools = JList (map JStr (ca_tools spec)),
    ar_sandbox_recipe = map_option (\<lambda>r. JObj (recipe_dump r)) (ca_sandbox_recipe spec),
    ar_created_at = now\<rparr>"
proof -
  from assms(1) obtain p ts rec where
    p: "optE text_param (ca_system_prompt spec) = Inr p"
    and ts: "jsonb (json_dumps True (JList (map JStr (ca_tools spec)))) = Inr ts"
    and rec: "optE (\<lambda>r. jsonb (json_dumps True (JObj (recipe_dump r)))) (ca_sandbox_recipe spec) = Inr rec"
    and row: "row = \<lparr>ar_id = i, ar_name = ca_name spec, ar_model = ca_model spec,
      ar_framework = ca_framework spec, ar_system_prompt = p, ar_tools = ts,
      ar_sandbox_recipe = rec, ar_created_at = now\<rparr>"
    by (auto simp: bind_agent_def returns_iff simp del: json_dumps.simps)
  have "ts = JList (map JStr (ca_tools spec))" by (rule jsonb_dumps[OF _ ts]) simp
  moreover have "rec = map_option (\<lambda>r. JObj (recipe_dump r)) (ca_sandbox_recipe spec)"
  proof (cases "ca_sandbox_recipe spec")
    case (Some r)
    with rec obtain v where v: "jsonb (json_dumps True (JObj (recipe_dump r))) = Inr v" "rec = Some v"
      by (auto simp: bindE_Inr simp del: json_dumps.simps)
    have "recipe_ok r" using assms(2) Some by simp
    from jsonb_dumps[OF recipe_dump_ok[OF this] v(1)] v(2) Some show ?thesis by simp
  qed (use rec in simp)
  ultimately show ?thesis using row optE_text_Inr[OF p] by simp
qed

definition agent_of_spec :: "uuid \<Rightarrow> int \<Rightarrow> create_agent_input \<Rightarrow> agent" where
  "agent_of_spec i now spec =
     \<lparr>ag_id = i, ag_tenant = DEFAULT_TENANT_ID, ag_name = ca_name spec, ag_model = ca_model spec,
      ag_framework = ca_framework spec, ag_system_prompt = ca_system_prompt spec,
      ag_tools = ca_tools spec,
      ag_sandbox_recipe = map_option recipe_dump (ca_sandbox_recipe spec), ag_created_at = now\<rparr>"

lemma create_agent_Inr:
  assumes "create_agent i now spec d = Inr (a, d')"
    "case_option True recipe_ok (ca_sandbox_recipe spec)"
  shows "\<not> has_agent d i" "a = agent_of_spec i now spec" "d' = d\<lparr>agents := agents d @ [a]\<rparr>"
proof -
  from assms(1) obtain row b where row: "bind_agent i now spec = Inr row" "\<not> has_agent d i"
      "row_to_agent row = Inr b" "d' = d\<lparr>agents := agents d @ [b]\<rparr>" "fetch_agent i d' = Inr a"
    by (auto simp: create_agent_def Let_def bindE_Inr split: if_splits)
  have b: "b = agent_of_spec i now spec"
    using row(3) bind_agent_fields[OF row(1) assms(2)]
    by (cases "ca_sandbox_recipe spec") (auto simp: row_to_agent_def agent_of_spec_def)
  then have "ag_id b = i" by (simp add: agent_of_spec_def)
  with row(2,4,5) have "a = b"
    by (simp add: fetch_agent_def find_append find_agent_None[THEN iffD2] split: option.splits)
  with b row show "\<not> has_agent d i" "a = agent_of_spec i now spec" "d' = d\<lparr>agents := agents d @ [a]\<rparr>"
    by simp_all
qed

lemma service_ok_agents:
  assumes "service_ok d" "\<forall>r \<in> set (sessions d). has_agent (d\<lparr>agents := as\<rparr>) (s_agent_id r)"
  shows "service_ok (d\<lparr>agents := as\<rparr>)"
  using assms
  by (auto simp: service_ok_def dense_log_def event_row_ok_def request_ids_unique_def
      session_log_def session_row_of_def)

text \<open>C23. An agent that was created is read back as it was specified, tools and recipe having gone
  through their JSON columns; the other agents are not disturbed; and deleting it restores the
  database.\<close>

theorem agent_created_read_deleted:
  assumes "create_agent i now spec d = Inr (a, d')" "service_ok d"
    "case_option True recipe_ok (ca_sandbox_recipe spec)"
  shows "fetch_agent i d' = Inr (agent_of_spec i now spec)
    \<and> (\<forall>j. j \<noteq> i \<longrightarrow> fetch_agent j d' = fetch_agent j d) \<and> delete_agent i d' = Inr d"
proof (intro conjI allI impI)
  note c = create_agent_Inr[OF assms(1,3)]
  have id: "ag_id a = i" by (simp add: c(2) agent_of_spec_def)
  show "fetch_agent i d' = Inr (agent_of_spec i now spec)"
    using c id by (simp add: fetch_agent_def find_append find_agent_None[THEN iffD2])
  show "fetch_agent j d' = fetch_agent j d" if "j \<noteq> i" for j
    using c(3) id that by (auto simp: fetch_agent_def find_append split: option.splits)
  have "\<not> list_ex (\<lambda>r. s_agent_id r = i) (sessions d)"
    using c(1) assms(2) by (auto simp: service_ok_def list_ex_iff)
  moreover have "filter (\<lambda>x. ag_id x \<noteq> i) (agents d) = agents d"
    using c(1) by (simp add: filter_id_conv has_agent_def list_ex_iff)
  ultimately show "delete_agent i d' = Inr d"
    using c(3) id by (simp add: delete_agent_def has_agent_def)
qed

text \<open>Creating and deleting agents keep the invariant of the Session Service's tables: an agent
  with sessions cannot be deleted, so no session loses its agent.\<close>

theorem agent_operations_keep_service_ok:
  assumes "service_ok d"
  shows "(create_agent i now spec d = Inr (a, d') \<longrightarrow> service_ok d')
    \<and> (delete_agent j d = Inr d'' \<longrightarrow> service_ok d'')"
proof (intro conjI impI)
  assume "create_agent i now spec d = Inr (a, d')"
  then obtain b where "d' = d\<lparr>agents := agents d @ [b]\<rparr>"
    by (auto simp: create_agent_def Let_def bindE_Inr split: if_splits)
  moreover have "\<forall>r \<in> set (sessions d). has_agent d (s_agent_id r)"
    using assms by (simp add: service_ok_def)
  ultimately show "service_ok d'"
    using service_ok_agents[OF assms, of "agents d @ [b]"] by (simp add: has_agent_def)
next
  assume del: "delete_agent j d = Inr d''"
  then have "\<forall>r \<in> set (sessions d). s_agent_id r \<noteq> j"
    by (auto simp: delete_agent_def list_ex_iff split: if_splits)
  moreover have "\<forall>r \<in> set (sessions d). has_agent d (s_agent_id r)"
    using assms by (simp add: service_ok_def)
  ultimately have "\<forall>r \<in> set (sessions d).
      has_agent (d\<lparr>agents := filter (\<lambda>a. ag_id a \<noteq> j) (agents d)\<rparr>) (s_agent_id r)"
    by (fastforce simp: has_agent_def list_ex_iff)
  from service_ok_agents[OF assms this] show "service_ok d''"
    using del by (auto simp: delete_agent_def split: if_splits)
qed

text \<open>The SDK says that an explicit argument wins over the environment. It does for the database,
  but an explicit API key is not what the provider uses when the environment holds one.\<close>

theorem explicit_key_ignored:
  assumes "resolve_config E url (Some key) dir path pass = Inr c"
    "map_of E ANTHROPIC_API_KEY_ENV = Some old" "key \<noteq> []"
  shows "rc_anthropic_api_key c = Some key \<and> map_of (export_key c E) ANTHROPIC_API_KEY_ENV = Some old"
  using assms
  by (auto simp: resolve_config_def export_key_def or_env_def split: option.splits if_splits)

end
