(* ===== verification/Sdk_Sessions.thy ===== *)
theory Sdk_Sessions
  imports Harness Sdk_Agents
begin

text \<open>
  \<open>sdk/sessions.py\<close> and the clients of \<open>sdk/client.py\<close>: a session handle that sends a user message
  and streams the events the harness writes. The harness and every other writer are the
  operations of the Session Service that commit between two reads. What reaches the caller is
  the list of events and the exception that ends the iteration, if one does.
\<close>

section \<open>Streaming\<close>

type_synonym stream = "event list \<times> exn option"

definition last_of :: "int \<Rightarrow> event list \<Rightarrow> int" where
  "last_of n es = (if es = [] then n else ev_sequence (last es))"

definition read_from :: "uuid \<Rightarrow> int \<Rightarrow> db \<Rightarrow> exn + event list" where
  "read_from sid n d =
     map_sum (session_exn sid) id (get_events sid (Some (n + 1)) None None DEFAULT_EVENTS_LIMIT d)"

text \<open>One round of the poll: what others commit before the read, and, when the harness task is then
  found done, what they commit before the trailing read.\<close>

type_synonym round = "service_op list \<times> service_op list option"

fun stream_events :: "uuid \<Rightarrow> int \<Rightarrow> round list \<Rightarrow> db \<Rightarrow> stream" where
  "stream_events sid n [] d = ([], None)"
| "stream_events sid n ((ops, fin) # rounds) d =
     (let d = run_ops service_step ops d in
      case read_from sid n d of
        Inl e \<Rightarrow> ([], Some e)
      | Inr es \<Rightarrow>
          (case fin of
             None \<Rightarrow>
               (case stream_events sid (last_of n es) rounds d of (rest, x) \<Rightarrow> (es @ rest, x))
           | Some ops' \<Rightarrow>
               (case read_from sid (last_of n es) (run_ops service_step ops' d) of
                  Inl e \<Rightarrow> (es, Some e)
                | Inr trailing \<Rightarrow> (es @ trailing, None))))"

text \<open>The state of the tables after the rounds, and whether they end with the harness done.\<close>

fun after_rounds :: "round list \<Rightarrow> db \<Rightarrow> db" where
  "after_rounds [] d = d"
| "after_rounds ((ops, fin) # rounds) d =
     (let d = run_ops service_step ops d in
      case fin of None \<Rightarrow> after_rounds rounds d | Some ops' \<Rightarrow> run_ops service_step ops' d)"

fun harness_done :: "round list \<Rightarrow> bool" where
  "harness_done [] = False"
| "harness_done ((ops, fin) # rounds) = (fin \<noteq> None \<or> harness_done rounds)"

text \<open>\<open>send\<close>. \<open>ops\<close> commit between the first read and the emit; \<open>raised\<close> is the exception of the
  harness task, raised after the last event.\<close>

definition send ::
  "uuid \<Rightarrow> string \<Rightarrow> uuid \<Rightarrow> int \<Rightarrow> service_op list \<Rightarrow> round list \<Rightarrow> exn option \<Rightarrow> db \<Rightarrow> stream" where
  "send sid said new_id now ops rounds raised d =
     (case get_events_default sid d of
        Inl e \<Rightarrow> ([], Some (session_exn sid e))
      | Inr seen \<Rightarrow>
          (case emit_event now sid new_id USER_MESSAGE [(''content'', JStr said)]
                  (run_ops service_step ops d) of
             Inl e \<Rightarrow> ([], Some (session_exn sid e))
           | Inr (_, d1) \<Rightarrow>
               (case stream_events sid (last_of 0 seen) rounds d1 of
                  (es, x) \<Rightarrow> (es, case raised of Some y \<Rightarrow> Some y | None \<Rightarrow> x))))"

section \<open>The other operations of the handle\<close>

definition handle_get_events ::
  "uuid \<Rightarrow> int option \<Rightarrow> int option \<Rightarrow> event_type list option \<Rightarrow> int \<Rightarrow> db \<Rightarrow> exn + event list" where
  "handle_get_events sid start end_opt types limit d =
     map_sum (session_exn sid) id (get_events sid start end_opt types limit d)"

definition handle_complete :: "int \<Rightarrow> uuid \<Rightarrow> db \<Rightarrow> exn + db" where
  "handle_complete now sid d = map_sum (session_exn sid) snd (mark_complete now sid d)"

definition client_create_session ::
  "uuid \<Rightarrow> int \<Rightarrow> uuid \<Rightarrow> dict option \<Rightarrow> db \<Rightarrow> session_error + session \<times> db" where
  "client_create_session new_id now agent_id metadata d =
     create_session new_id now agent_id metadata None d"

definition client_get_session :: "uuid \<Rightarrow> db \<Rightarrow> session_error + session" where
  "client_get_session sid d = wake sid d"

text \<open>The synchronous \<open>send\<close>: a coroutine on the background loop fills a queue with the events, the
  exception and the sentinel, and the caller takes items until one of the last two.\<close>

datatype item = Got event | Raised exn | Sentinel

definition drive :: "stream \<Rightarrow> item list" where
  "drive s = map Got (fst s) @ (case snd s of None \<Rightarrow> [] | Some x \<Rightarrow> [Raised x]) @ [Sentinel]"

fun drain :: "item list \<Rightarrow> stream" where
  "drain [] = ([], None)"
| "drain (Sentinel # q) = ([], None)"
| "drain (Raised x # q) = ([], Some x)"
| "drain (Got e # q) = (case drain q of (es, x) \<Rightarrow> (e # es, x))"

definition sync_send ::
  "uuid \<Rightarrow> string \<Rightarrow> uuid \<Rightarrow> int \<Rightarrow> service_op list \<Rightarrow> round list \<Rightarrow> exn option \<Rightarrow> db \<Rightarrow> stream" where
  "sync_send sid said new_id now ops rounds raised d =
     drain (drive (send sid said new_id now ops rounds raised d))"

lemma drain_drive: "drain (drive s) = s"
proof -
  have "drain (map Got es @ q) = (es @ fst (drain q), snd (drain q))" for es q
    by (induction es) (simp_all split: prod.split)
  then show ?thesis by (cases s) (simp add: drive_def split: option.split)
qed

section \<open>What the caller sees\<close>

text \<open>The log of a session in valid tables, as events.\<close>

definition log_events :: "db \<Rightarrow> uuid \<Rightarrow> event list" where
  "log_events d sid = (case rows_to_events (session_log d sid) of Inr es \<Rightarrow> es | Inl _ \<Rightarrow> [])"

lemma log_events:
  assumes "service_ok d"
  shows "rows_to_events (session_log d sid) = Inr (log_events d sid)"
    and "list_all2 (\<lambda>r e. row_to_event r = Inr e) (session_log d sid) (log_events d sid)"
proof -
  have "\<forall>r \<in> set (session_log d sid). event_type_of (e_type r) \<noteq> None"
    using assms by (auto simp: service_ok_def event_row_ok_def session_log_def)
  from rows_valid[OF this] show "rows_to_events (session_log d sid) = Inr (log_events d sid)"
    by (auto simp: log_events_def)
  then show "list_all2 (\<lambda>r e. row_to_event r = Inr e) (session_log d sid) (log_events d sid)"
    by (simp add: rows_to_events_Inr)
qed

lemma log_events_length: "service_ok d \<Longrightarrow> length (log_events d sid) = length (session_log d sid)"
  using log_events(2) list_all2_lengthD by metis

lemma rows_window:
  "service_ok d \<Longrightarrow> rows_to_events (take m (drop n (session_log d sid))) = Inr (take m (drop n (log_events d sid)))"
  using log_events(2)[of d sid] by (simp add: rows_to_events_Inr list_all2_takeI list_all2_dropI)

lemma log_events_sequence:
  assumes "service_ok d" "k < length (log_events d sid)"
  shows "ev_sequence (log_events d sid ! k) = int k + 1"
proof -
  obtain n where n: "map e_sequence (session_log d sid) = [1..n]" by (rule log_map_sequence[OF assms(1)])
  have k: "k < length (session_log d sid)" using assms log_events_length by simp
  then have "row_to_event (session_log d sid ! k) = Inr (log_events d sid ! k)"
    using log_events(2)[OF assms(1)] by (auto simp: list_all2_conv_all_nth)
  then have "ev_sequence (log_events d sid ! k) = map e_sequence (session_log d sid) ! k"
    using k by (simp add: row_to_event_fields)
  also have "\<dots> = int k + 1"
  proof -
    have "length (session_log d sid) = nat n" using arg_cong[OF n, of length] by simp
    with k show ?thesis unfolding n by (simp add: nth_upto)
  qed
  finally show ?thesis .
qed

lemma log_events_prefix:
  assumes "service_ok d" "service_ok d'" "prefix (session_log d sid) (session_log d' sid)"
  shows "prefix (log_events d sid) (log_events d' sid)"
proof -
  from assms(3) have s: "session_log d sid = take (length (session_log d sid)) (session_log d' sid)"
    by (auto simp: prefix_def)
  have "rows_to_events (session_log d sid)
      = Inr (take (length (session_log d sid)) (log_events d' sid))"
    using rows_window[OF assms(2), of "length (session_log d sid)" 0 sid] s by simp
  then have "log_events d sid = take (length (session_log d sid)) (log_events d' sid)"
    using log_events(1)[OF assms(1)] by simp
  then show ?thesis by (metis take_is_prefix)
qed

lemma log_events_run:
  "service_ok d \<Longrightarrow> prefix (log_events d sid) (log_events (run_ops service_step ops d) sid)"
  by (intro log_events_prefix svc.run_inv svc.run_log)

lemma read_from_log:
  assumes "service_ok d"
  shows "read_from sid (int k) d = Inr (take 1000 (drop k (log_events d sid)))"
  using assms rows_window[OF assms, of 1000 k sid]
  by (simp add: read_from_def get_events_from DEFAULT_EVENTS_LIMIT_def)

lemma last_of_window:
  assumes "service_ok d" "k \<le> length (log_events d sid)"
  shows "last_of (int k) (take m (drop k (log_events d sid)))
    = int (k + length (take m (drop k (log_events d sid))))"
proof (cases "take m (drop k (log_events d sid)) = []")
  case False
  let ?w = "take m (drop k (log_events d sid))"
  from False obtain j where j: "length ?w = Suc j" by (cases ?w) auto
  then have bound: "k + j < length (log_events d sid)" "j < m" by auto
  have "last ?w = ?w ! (length ?w - 1)" using False by (rule last_conv_nth)
  also have "\<dots> = log_events d sid ! (k + j)" unfolding j using bound by simp
  finally have "last ?w = log_events d sid ! (k + j)" .
  then show ?thesis using log_events_sequence[OF assms(1) bound(1)] False
    by (simp only: last_of_def j) simp
qed (auto simp: last_of_def)

lemma window_prefix:
  assumes "prefix L L'" "k \<le> length L" "w = take m (drop k L)"
  shows "take (length w) (drop k L') = w" "drop (k + length w) L' = drop (length w) (drop k L')"
proof -
  from assms(1) obtain t where "L' = L @ t" by (auto simp: prefix_def)
  with assms(2,3) show "take (length w) (drop k L') = w" by (simp add: min_def)
  show "drop (k + length w) L' = drop (length w) (drop k L')" by (simp add: add.commute)
qed

lemma after_rounds_ok: "service_ok d \<Longrightarrow> service_ok (after_rounds rounds d)"
  by (induction rounds arbitrary: d) (auto simp: Let_def svc.run_inv split: option.split)

lemma after_rounds_log:
  "service_ok d \<Longrightarrow> prefix (log_events d sid) (log_events (after_rounds rounds d) sid)"
proof (induction rounds arbitrary: d)
  case (Cons round rounds)
  obtain ops fin where r: "round = (ops, fin)" by (cases round)
  let ?d = "run_ops service_step ops d"
  have ok: "service_ok ?d" using Cons.prems by (rule svc.run_inv)
  have "prefix (log_events ?d sid) (log_events (after_rounds (round # rounds) d) sid)"
    using Cons.IH[OF ok] log_events_run[OF ok] by (cases "fin") (simp_all add: r Let_def)
  with log_events_run[OF Cons.prems] show ?case by (rule prefix_order.trans)
qed simp

lemma stream_events_log:
  assumes "service_ok d" "k \<le> length (log_events d sid)"
  shows "\<exists>m. stream_events sid (int k) rounds d
      = (take m (drop k (log_events (after_rounds rounds d) sid)), None)
    \<and> (harness_done rounds \<longrightarrow> length (log_events (after_rounds rounds d) sid) \<le> k + 1000 \<longrightarrow>
        length (log_events (after_rounds rounds d) sid) \<le> k + m)"
  using assms
proof (induction rounds arbitrary: d k)
  case Nil
  show ?case by (intro exI[of _ 0]) simp
next
  case (Cons round rounds)
  obtain ops fin where r: "round = (ops, fin)" by (cases round)
  define d1 where "d1 = run_ops service_step ops d"
  define w where "w = take 1000 (drop k (log_events d1 sid))"
  define dn where "dn = after_rounds (round # rounds) d"
  have ok: "service_ok d1" unfolding d1_def using Cons.prems(1) by (rule svc.run_inv)
  have "length (log_events d sid) \<le> length (log_events d1 sid)"
    unfolding d1_def using log_events_run[OF Cons.prems(1)] by (rule prefix_length_le)
  then have k: "k \<le> length (log_events d1 sid)" using Cons.prems(2) by simp
  have read: "read_from sid (int k) d1 = Inr w" by (simp add: read_from_log[OF ok] w_def)
  have last: "last_of (int k) w = int (k + length w)"
    unfolding w_def by (rule last_of_window[OF ok k])
  have k1: "k + length w \<le> length (log_events d1 sid)" using k by (simp add: w_def)
  have p: "prefix (log_events d1 sid) (log_events dn sid)"
    using after_rounds_log[OF ok, of sid rounds] log_events_run[OF ok, of sid]
    by (cases "fin") (simp_all add: dn_def r Let_def flip: d1_def)
  note win = window_prefix[OF p k w_def]
  show ?case
  proof (cases "fin")
    case None
    from Cons.IH[OF ok k1] obtain m where m: "stream_events sid (int (k + length w)) rounds d1
        = (take m (drop (k + length w) (log_events dn sid)), None)"
      and c: "harness_done rounds \<longrightarrow> length (log_events dn sid) \<le> k + length w + 1000 \<longrightarrow>
        length (log_events dn sid) \<le> k + length w + m"
      by (auto simp: dn_def r None Let_def simp flip: d1_def)
    have "stream_events sid (int k) (round # rounds) d
        = (take (length w + m) (drop k (log_events dn sid)), None)"
      using read last m win
      by (simp add: r None Let_def take_add flip: d1_def)
    moreover have "harness_done (round # rounds) = harness_done rounds" by (simp add: r None)
    ultimately show ?thesis using c unfolding dn_def[symmetric]
      by (intro exI[of _ "length w + m"]) (auto simp del: stream_events.simps harness_done.simps)
  next
    case (Some ops')
    then have dn: "dn = run_ops service_step ops' d1" by (simp add: dn_def r Let_def d1_def)
    have "service_ok dn" unfolding dn using ok by (rule svc.run_inv)
    then have "read_from sid (int (k + length w)) dn
        = Inr (take 1000 (drop (k + length w) (log_events dn sid)))"
      by (rule read_from_log)
    then have "stream_events sid (int k) (round # rounds) d
        = (take (length w + 1000) (drop k (log_events dn sid)), None)"
      using read last win
      by (simp add: r Some Let_def take_add dn flip: d1_def)
    then show ?thesis unfolding dn_def[symmetric] by (intro exI[of _ "length w + 1000"]) (simp del: stream_events.simps)
  qed
qed

text \<open>Exactly once and in order: whatever commits while the caller polls, the stream never raises and
  yields consecutive events of the log from the position it starts at, none twice; and when
  the harness is done and no more than 1,000 events were written since the start, it yields
  all of them.\<close>

theorem stream_exactly_once:
  assumes "service_ok d" "k \<le> length (log_events d sid)"
  shows "\<exists>m. stream_events sid (int k) rounds d
      = (take m (drop k (log_events (after_rounds rounds d) sid)), None)
    \<and> (harness_done rounds \<and> length (log_events (after_rounds rounds d) sid) \<le> k + 1000 \<longrightarrow>
        fst (stream_events sid (int k) rounds d) = drop k (log_events (after_rounds rounds d) sid))"
proof -
  obtain m where "stream_events sid (int k) rounds d
      = (take m (drop k (log_events (after_rounds rounds d) sid)), None)"
    "harness_done rounds \<longrightarrow> length (log_events (after_rounds rounds d) sid) \<le> k + 1000 \<longrightarrow>
        length (log_events (after_rounds rounds d) sid) \<le> k + m"
    using stream_events_log[OF assms] by blast
  then show ?thesis by (intro exI[of _ m]) auto
qed

lemma default_read_log:
  "service_ok d \<Longrightarrow> get_events_default sid d = Inr (take 1000 (log_events d sid))"
  using rows_window[of d 1000 0 sid] by (simp add: get_events_default_log)

lemma last_seen:
  "service_ok d \<Longrightarrow> last_of 0 (take 1000 (log_events d sid)) = int (min 1000 (length (log_events d sid)))"
  using last_of_window[of d 0 sid 1000] by (simp add: min.commute)

lemma emit_event_ok:
  assumes "service_ok d" "emit_event now sid eid t p d = Inr (e, d')"
  shows "service_ok d'" "prefix (log_events d sid) (log_events d' sid)"
proof -
  have step: "service_step (EmitEvent now sid eid t p) d = Inr d'" using assms(2) by simp
  show ok: "service_ok d'" by (rule service_step_ok[OF assms(1) step])
  show "prefix (log_events d sid) (log_events d' sid)"
    by (rule log_events_prefix[OF assms(1) ok service_step_log[OF step]])
qed

text \<open>C12. \<open>send\<close> on a session of \<open>n\<close> events streams from event \<open>min n 1000\<close> on. With fewer than 1,000
  events that is everything that was committed since, the user's own message included, in order,
  and without loss when the run is done and at most 1,000 events were written. Beyond 1,000 events the
  default read stops early and old events, which the caller has seen, come again before the
  new message.\<close>

theorem send_streams_from:
  assumes "service_ok d"
    and "emit_event now sid new_id USER_MESSAGE [(''content'', JStr said)] (run_ops service_step ops d)
      = Inr (e, d1)"
  shows "\<exists>m. send sid said new_id now ops rounds raised d =
      (take m (drop (min 1000 (length (log_events d sid))) (log_events (after_rounds rounds d1) sid)), raised)
    \<and> (harness_done rounds
        \<and> length (log_events (after_rounds rounds d1) sid) \<le> min 1000 (length (log_events d sid)) + 1000
        \<longrightarrow> fst (send sid said new_id now ops rounds raised d) =
            drop (min 1000 (length (log_events d sid))) (log_events (after_rounds rounds d1) sid))"
proof -
  let ?k = "min 1000 (length (log_events d sid))"
  have ok: "service_ok (run_ops service_step ops d)" using assms(1) by (rule svc.run_inv)
  note d1 = emit_event_ok[OF ok assms(2)]
  have "length (log_events d sid) \<le> length (log_events d1 sid)"
    using prefix_length_le[OF log_events_run[OF assms(1), of sid ops]] prefix_length_le[OF d1(2)] by simp
  then have "?k \<le> length (log_events d1 sid)" by simp
  from stream_events_log[OF d1(1) this, of rounds] obtain m
    where m: "stream_events sid (int ?k) rounds d1
      = (take m (drop ?k (log_events (after_rounds rounds d1) sid)), None)"
    and c: "harness_done rounds \<longrightarrow> length (log_events (after_rounds rounds d1) sid) \<le> ?k + 1000 \<longrightarrow>
        length (log_events (after_rounds rounds d1) sid) \<le> ?k + m" by blast
  have "send sid said new_id now ops rounds raised d
      = (take m (drop ?k (log_events (after_rounds rounds d1) sid)), raised)"
    using m assms(2)
    by (cases raised) (simp_all add: send_def default_read_log[OF assms(1)] last_seen[OF assms(1)])
  with c show ?thesis by (intro exI[of _ m]) auto
qed

text \<open>A run closes its session, so a handle serves one message: on a closed session \<open>send\<close> raises
  before the harness starts and writes nothing, unless the random id repeats one of the log.\<close>

theorem send_after_completion:
  assumes "service_ok d" "session_closed d sid"
    and "encode_payload_length [(''content'', JStr said)] \<le> MAX_PAYLOAD_BYTES"
    and "\<forall>r \<in> set (session_log d sid). e_id r \<noteq> new_id"
  shows "\<exists>st. send sid said new_id now ops rounds raised d
    = ([], Some (session_exn sid (FailedPreconditionError st)))"
proof -
  let ?d = "run_ops service_step ops d"
  have closed: "session_closed ?d sid" and log: "session_log ?d sid = session_log d sid"
    using svc.run_closed[OF assms(1,2)] by simp_all
  from closed obtain r st where r: "session_row_of ?d sid = Some r" "session_status_of (s_status r) = Some st"
    "st \<in> TERMINAL_STATUSES"
    by (auto simp: session_closed_def split: option.splits)
  have "find_event_by_id sid new_id ?d = Inr None"
    using assms(4) log by (simp add: find_event_None)
  moreover have "load_session_for_emit sid ?d = Inr (s_last_sequence r, st)"
    using r by (simp add: load_session_for_emit_def)
  ultimately have "emit_event now sid new_id USER_MESSAGE [(''content'', JStr said)] ?d
      = Inl (FailedPreconditionError st)"
    using assms(3) r(3) by (simp add: emit_event_def)
  then show ?thesis by (intro exI[of _ st]) (simp add: send_def default_read_log[OF assms(1)])
qed

end
