(* ===== verification/Web_Search.thy ===== *)
theory Web_Search
  imports Proxy Json_Text Doubles
begin

text \<open>
  \<open>proxy/tools/web_search.py\<close>: the built-in proxy tool. \<open>http_post\<close> is the client's request to an
  endpoint; a network failure is the text of the exception. \<open>response.json()\<close> is \<open>json.loads\<close> of
  the text.
\<close>

definition DEFAULT_ENDPOINT :: string where
  "DEFAULT_ENDPOINT = ''https://api.tavily.com/search''"

definition ENDPOINT_ENV :: string where
  "ENDPOINT_ENV = ''TENAME_WEB_SEARCH_URL''"

definition WEB_SEARCH_SCHEMA :: dict where
  "WEB_SEARCH_SCHEMA =
     [(''type'', JStr ''object''),
      (''properties'', JObj
        [(''query'', JObj
           [(''type'', JStr ''string''), (''description'', JStr ''Search query string.'')]),
         (''max_results'', JObj
           [(''type'', JStr ''integer''),
            (''description'', JStr ''Maximum results to return (default 5, max 20).''),
            (''minimum'', JInt 1), (''maximum'', JInt 20)])]),
      (''required'', JList [JStr ''query''])]"

record response =
  rs_status_code :: int
  rs_text :: string

type_synonym 'w http_post = "string \<Rightarrow> dict \<Rightarrow> 'w \<Rightarrow> (string + response) \<times> 'w"

section \<open>\<open>int(value)\<close>\<close>

fun decimal_us :: "bool \<Rightarrow> string \<Rightarrow> string option" where
  "decimal_us prev [] = (if prev then Some [] else None)"
| "decimal_us prev (c # s) =
     (if c = CHR ''_'' then (if prev then decimal_us False s else None)
      else if is_digit c then map_option (Cons c) (decimal_us True s) else None)"

definition int_of_str :: "string \<Rightarrow> int option" where
  "int_of_str s =
     (let t = strip s;
          (sg, u) = lex_sign {CHR ''+'', CHR ''-''} t
      in case decimal_us False u of
           None \<Rightarrow> None
         | Some ds \<Rightarrow>
             if MAX_INT_DIGITS < int (length ds) then None
             else Some (if sg = ''-'' then - int (digits_value ds) else int (digits_value ds)))"

text \<open>The size of the decimal value of a literal, with its sign; \<open>None\<close> for \<open>nan\<close> and the
  infinities.\<close>

definition exponent_of :: "string \<Rightarrow> int" where
  "exponent_of e =
     (case e of [] \<Rightarrow> 0
      | _ # t \<Rightarrow> (case lex_sign {CHR ''+'', CHR ''-''} t of (sg, u) \<Rightarrow>
          if sg = ''-'' then - int (digits_value u) else int (digits_value u)))"

definition literal_value :: "string \<Rightarrow> (bool \<times> rat) option" where
  "literal_value r =
     (case lex_sign {CHR ''-''} r of (sg, t) \<Rightarrow>
        case lex_int t of
          None \<Rightarrow> None
        | Some (i, t1) \<Rightarrow>
            (case lex_frac t1 of (f, t2) \<Rightarrow>
             case lex_exp t2 of (e, _) \<Rightarrow>
               let shift = exponent_of e - int (length (tl f));
                   n = of_nat (digits_value (i @ tl f))
               in Some (sg \<noteq> [],
                    if 0 \<le> shift then n * 10 ^ nat shift else n / 10 ^ nat (- shift))))"

text \<open>\<open>TypeError\<close> and \<open>ValueError\<close> are the caught classes; an infinity, also the one a literal of
  \<open>2 ^ 1024\<close> or more denotes, raises \<open>OverflowError\<close>. A float is the double nearest to its
  literal, cut towards zero.\<close>

definition no_infinity :: exn where
  "no_infinity = Exn ''OverflowError'' ''cannot convert float infinity to integer''"

definition py_int :: "json \<Rightarrow> exn + int" where
  "py_int v =
     (case v of
        JInt n \<Rightarrow> Inr n
      | JBool b \<Rightarrow> Inr (if b then 1 else 0)
      | JFloat r \<Rightarrow>
          if r = ''inf'' \<or> r = ''-inf'' then Inl no_infinity
          else (case literal_value r of
                  None \<Rightarrow> Inl (Exn ''ValueError'' [])
                | Some (negative, x) \<Rightarrow>
                    let d = to_double x
                    in if 2 ^ 1024 \<le> d then Inl no_infinity
                       else Inr (if negative then - \<lfloor>d\<rfloor> else \<lfloor>d\<rfloor>))
      | JStr s \<Rightarrow> (case int_of_str s of None \<Rightarrow> Inl (Exn ''ValueError'' []) | Some n \<Rightarrow> Inr n)
      | _ \<Rightarrow> Inl (Exn ''TypeError'' []))"

section \<open>The tool\<close>

definition refuse :: "string \<Rightarrow> raw_result" where
  "refuse t = RawDict [(''is_error'', JBool True), (''content'', JStr t)]"

definition or_else :: "json \<Rightarrow> json \<Rightarrow> json" where
  "or_else v w = (if truthy v then v else w)"

definition summarize :: "json \<Rightarrow> json list" where
  "summarize data =
     (let results = (case data of JObj d \<Rightarrow> dget d ''results'' | _ \<Rightarrow> JNull)
      in List.map_filter (\<lambda>item. case item of
           JObj d \<Rightarrow> Some (JObj [(''title'', dget d ''title''), (''url'', dget d ''url''),
             (''content'', or_else (dget d ''content'') (dget d ''snippet''))])
         | _ \<Rightarrow> None) (case results of JList xs \<Rightarrow> xs | _ \<Rightarrow> []))"

definition read_response :: "string + response \<Rightarrow> raw_result" where
  "read_response out =
     (case out of
        Inl exc \<Rightarrow> refuse (''web_search network error: '' @ exc)
      | Inr r \<Rightarrow>
          if 400 \<le> rs_status_code r
          then refuse (''web_search HTTP '' @ int_str (rs_status_code r) @ '': '' @ take 500 (rs_text r))
          else (case json_loads (rs_text r) of
                  Inl _ \<Rightarrow> refuse (''web_search non-JSON response: '' @ take 500 (rs_text r))
                | Inr data \<Rightarrow>
                    RawDict [(''is_error'', JBool False),
                      (''content'', JStr (json_dumps True (JList (summarize data))))]))"

definition search_body :: "string \<Rightarrow> string \<Rightarrow> int \<Rightarrow> dict" where
  "search_body query api_key n =
     [(''query'', JStr query), (''api_key'', JStr api_key),
      (''max_results'', JInt (max 1 (min 20 n)))]"

definition search_url :: "(string \<times> string) list \<Rightarrow> string" where
  "search_url E = (case map_of E ENDPOINT_ENV of Some u \<Rightarrow> u | None \<Rightarrow> DEFAULT_ENDPOINT)"

definition web_search ::
  "'w http_post \<Rightarrow> (string \<times> string) list \<Rightarrow> dict \<Rightarrow> (string \<times> string) list \<Rightarrow> ('w, raw_result) prog"
where
  "web_search post E inp credentials =
     (case dget inp ''query'' of
        JStr query \<Rightarrow>
          if strip query = [] then returnM (refuse ''web_search requires a non-empty 'query' string'')
          else (case py_int (or_else (dget inp ''max_results'') (JInt 5)) of
            Inl e \<Rightarrow>
              if exn_class e \<in> {''TypeError'', ''ValueError''}
              then returnM (refuse ''web_search 'max_results' must be an integer'')
              else raiseM e
          | Inr n \<Rightarrow>
              (case map_of credentials ''web_search_api_key'' of
                 Some key \<Rightarrow>
                   if key = []
                   then returnM (refuse
                     (''web_search credential 'web_search_api_key' is missing. ''
                      @ ''Store one with `tename vault set web_search_api_key`.''))
                   else (\<lambda>w. case post (search_url E) (search_body query key n) w of
                           (out, w) \<Rightarrow> (Inr (read_response out), w))
               | None \<Rightarrow> returnM (refuse
                     (''web_search credential 'web_search_api_key' is missing. ''
                      @ ''Store one with `tename vault set web_search_api_key`.''))))
      | _ \<Rightarrow> returnM (refuse ''web_search requires a non-empty 'query' string''))"

text \<open>The record the decorator registers at import; the proxy calls its function directly.\<close>

definition web_search_tool ::
  "nat \<Rightarrow> 'w http_post \<Rightarrow> (string \<times> string) list
    \<Rightarrow> (dict \<Rightarrow> (string \<times> string) list \<Rightarrow> ('w, raw_result) prog) proxy_tool" where
  "web_search_tool ref post E =
     \<lparr>pt_ref = ref, pt_name = ''web_search'', pt_credential_names = [''web_search_api_key''],
      pt_description = ''Search the web. Returns a JSON string of result objects, each with ''
        @ ''`title`, `url`, and `content` fields. Use when the agent needs ''
        @ ''up-to-date information from the public internet.'',
      pt_input_schema = WEB_SEARCH_SCHEMA, pt_fn = web_search post E\<rparr>"

section \<open>What leaves the process, and what comes back\<close>

lemma py_int_raises:
  "py_int v = Inl e \<Longrightarrow> e = no_infinity \<or> exn_class e \<in> {''TypeError'', ''ValueError''}"
proof (cases v)
  case (JFloat r)
  then show "py_int v = Inl e \<Longrightarrow> ?thesis"
    by (cases "literal_value r") (auto simp: py_int_def Let_def split: if_splits prod.splits)
next
  case (JStr s)
  then show "py_int v = Inl e \<Longrightarrow> ?thesis"
    by (cases "int_of_str s") (auto simp: py_int_def)
qed (auto simp: py_int_def)

text \<open>A search either refuses its input and sends nothing, or sends one request whose body has
  the query, the stored key and between 1 and 20 results asked for, and answers what the
  response reads as. The one exception is the integer conversion of an infinity.\<close>

theorem web_search_sends_at_most_one:
  "(\<exists>t. web_search post E inp creds w = (Inr (refuse t), w))
   \<or> web_search post E inp creds w = (Inl no_infinity, w)
   \<or> (\<exists>url q key n out w'. dget inp ''query'' = JStr q \<and> strip q \<noteq> []
        \<and> map_of creds ''web_search_api_key'' = Some key \<and> key \<noteq> [] \<and> 1 \<le> n \<and> n \<le> 20
        \<and> post url [(''query'', JStr q), (''api_key'', JStr key), (''max_results'', JInt n)] w
            = (out, w')
        \<and> web_search post E inp creds w = (Inr (read_response out), w'))"
proof (cases "dget inp ''query''")
  case (JStr q)
  let ?n = "py_int (or_else (dget inp ''max_results'') (JInt 5))"
  consider (blank) "strip q = []"
    | (caught) e where "strip q \<noteq> []" "?n = Inl e" "exn_class e \<in> {''TypeError'', ''ValueError''}"
    | (raised) e where "strip q \<noteq> []" "?n = Inl e" "exn_class e \<notin> {''TypeError'', ''ValueError''}"
    | (no_key) n where "strip q \<noteq> []" "?n = Inr n"
        "map_of creds ''web_search_api_key'' \<in> {None, Some []}"
    | (sent) n key where "strip q \<noteq> []" "?n = Inr n"
        "map_of creds ''web_search_api_key'' = Some key" "key \<noteq> []"
    by (cases ?n; cases "map_of creds ''web_search_api_key''") auto
  then show ?thesis
  proof cases
    case blank
    then show ?thesis by (auto simp: web_search_def JStr)
  next
    case caught
    then have "web_search post E inp creds w
        = (Inr (refuse ''web_search 'max_results' must be an integer''), w)"
      by (simp add: web_search_def JStr)
    then show ?thesis by blast
  next
    case raised
    then have "e = no_infinity" by (auto dest: py_int_raises)
    with raised have "web_search post E inp creds w = (Inl no_infinity, w)"
      by (simp add: web_search_def JStr)
    then show ?thesis by blast
  next
    case no_key
    then show ?thesis by (auto simp: web_search_def JStr)
  next
    case sent
    obtain out w' where p: "post (search_url E) (search_body q key n) w = (out, w')"
      by (cases "post (search_url E) (search_body q key n) w")
    then have "web_search post E inp creds w = (Inr (read_response out), w')"
      using sent by (simp add: web_search_def JStr)
    moreover have "1 \<le> max 1 (min 20 n)" "max 1 (min 20 n) \<le> 20" by auto
    ultimately show ?thesis using sent JStr p unfolding search_body_def by blast
  qed
qed (auto simp: web_search_def)

text \<open>C38. The key reaches the endpoint and nothing else. Through the proxy, with two vaults that hold
  different keys, an endpoint that answers both requests alike gives the model the same
  result, errors included, and leaves the same world.\<close>

theorem web_search_hides_key:
  assumes "get_proxy_tool name reg = Some (web_search_tool ref post E)"
    and "fst (vault_retrieve C ''web_search_api_key'' v1) = Inr k1" and "k1 \<noteq> []"
    and "fst (vault_retrieve C ''web_search_api_key'' v2) = Inr k2" and "k2 \<noteq> []"
    and "\<forall>q n. post (search_url E) (search_body q k1 n) w = post (search_url E) (search_body q k2 n) w"
  shows "proxy_execute C (Some v1) reg (\<lambda>f. f) name inp w
    = proxy_execute C (Some v2) reg (\<lambda>f. f) name inp w"
proof -
  have creds: "resolve_credentials C (Some v) (web_search_tool ref post E)
      = Inr [(''web_search_api_key'', k)]"
    if "fst (vault_retrieve C ''web_search_api_key'' v) = Inr k" for v k
    using that by (simp add: resolve_credentials_def web_search_tool_def)
  have "web_search post E inp [(''web_search_api_key'', k1)] w
      = web_search post E inp [(''web_search_api_key'', k2)] w"
    using assms(3,5,6)
    by (simp add: web_search_def split: json.split sum.split)
  then have "tryM (bindM (web_search post E inp [(''web_search_api_key'', k1)]) m) h w
      = tryM (bindM (web_search post E inp [(''web_search_api_key'', k2)]) m) h w" for m h
    by (simp add: tryM_def bindM_def)
  then show ?thesis
    using creds[OF assms(2)] creds[OF assms(4)] assms(1)
    by (simp add: proxy_execute_def) (simp add: web_search_tool_def)
qed

end
