(* ===== verification/Cli.thy ===== *)
theory Cli
  imports Vault_Facts Proxy Sdk_Agents
begin

text \<open>
  The command line (\<open>cli/vault_commands.py\<close>, \<open>cli/migrate_commands.py\<close>, \<open>cli/main.py\<close>): commands on
  parsed arguments. The console holds the environment, the files by resolved path, what a write
  to a path would fail with, both output streams and the database that alembic migrates. A
  prompt answers a line or is interrupted. argparse, alembic and \<open>expanduser\<close> are parameters.
\<close>

section \<open>The console\<close>

datatype reply = Typed string | Interrupted

record 'd console =
  con_env :: environ
  con_files :: "string \<Rightarrow> vault_file option"
  con_failures :: "string \<Rightarrow> write_failure option"
  con_draws :: nat
  con_out :: string
  con_err :: string
  con_db :: 'd

definition newline :: char where
  "newline = CHR 0x0A"

definition out :: "string \<Rightarrow> ('d console, unit) prog" where
  "out text = modifyM (con_out_update (\<lambda>s. s @ text))"

definition err :: "string \<Rightarrow> ('d console, unit) prog" where
  "err text = modifyM (con_err_update (\<lambda>s. s @ text))"

definition println :: "string \<Rightarrow> ('d console, unit) prog" where
  "println text = out (text @ [newline])"

definition eprintln :: "string \<Rightarrow> ('d console, unit) prog" where
  "eprintln text = err (text @ [newline])"

section \<open>Vault commands\<close>

definition DEFAULT_VAULT_PATH :: string where
  "DEFAULT_VAULT_PATH = ''~/.tename/vault.json.enc''"

text \<open>Each command makes its own handle: the path expanded, the passphrase from the environment.\<close>

definition resolved_path :: "(string \<Rightarrow> string) \<Rightarrow> string option \<Rightarrow> string" where
  "resolved_path expanduser path =
     expanduser (case path of Some p \<Rightarrow> if p \<noteq> [] then p else DEFAULT_VAULT_PATH
                 | None \<Rightarrow> DEFAULT_VAULT_PATH)"

definition make_vault :: "(string \<Rightarrow> string) \<Rightarrow> string option \<Rightarrow> 'd console \<Rightarrow> vault" where
  "make_vault expanduser path c =
     (let p = resolved_path expanduser path in
      \<lparr>v_path = p, v_passphrase = map_of (con_env c) VAULT_PASSPHRASE_ENV,
       v_file = con_files c p, v_write_error = con_failures c p, v_draws = con_draws c\<rparr>)"

definition put_vault :: "vault \<Rightarrow> 'd console \<Rightarrow> 'd console" where
  "put_vault v c = c\<lparr>con_files := (con_files c)(v_path v := v_file v), con_draws := v_draws v\<rparr>"

text \<open>A vault operation inside \<open>try: ... except VaultError\<close>: a caught exception is a value.\<close>

definition attempt ::
  "(string \<Rightarrow> string) \<Rightarrow> string option \<Rightarrow> (vault, 'a) prog \<Rightarrow> ('d console, exn + 'a) prog" where
  "attempt expanduser path m c =
     (case zoom (make_vault expanduser path) put_vault m c of
        (Inl e, c') \<Rightarrow> (if exn_class e \<in> vault_classes then Inr (Inl e) else Inl e, c')
      | (Inr x, c') \<Rightarrow> (Inr (Inr x), c'))"

definition print_error :: "exn \<Rightarrow> ('d console, int) prog" where
  "print_error e = bindM (eprintln (''error: '' @ exn_text e)) (\<lambda>_. returnM 1)"

definition value_label :: "string \<Rightarrow> string" where
  "value_label name = ''value for '' @ name @ '': ''"

definition delete_label :: "string \<Rightarrow> string" where
  "delete_label name = ''delete credential '' @ repr_str name @ ''? [y/N] ''"

definition cmd_set ::
  "crypto \<Rightarrow> (string \<Rightarrow> string) \<Rightarrow> (string \<Rightarrow> reply) \<Rightarrow> string option \<Rightarrow> string
    \<Rightarrow> ('d console, int) prog" where
  "cmd_set C expanduser prompt path name =
     (case prompt (value_label name) of
        Interrupted \<Rightarrow> bindM (out [newline]) (\<lambda>_. returnM 130)
      | Typed value \<Rightarrow>
          if value = []
          then bindM (eprintln (''no value supplied for '' @ repr_str name @ ''; nothing stored''))
                 (\<lambda>_. returnM 2)
          else bindM (attempt expanduser path (vault_store C name value)) (\<lambda>r.
            case r of
              Inl e \<Rightarrow> print_error e
            | Inr _ \<Rightarrow> bindM (println (''stored credential '' @ repr_str name)) (\<lambda>_. returnM 0)))"

definition cmd_list ::
  "(string \<Rightarrow> string) \<Rightarrow> string option \<Rightarrow> ('d console, int) prog" where
  "cmd_list expanduser path =
     bindM (attempt expanduser path vault_list) (\<lambda>r.
     case r of
       Inl e \<Rightarrow> print_error e
     | Inr names \<Rightarrow>
         if names = [] then bindM (println ''(no credentials stored)'') (\<lambda>_. returnM 0)
         else bindM (forM println names) (\<lambda>_. returnM 0))"

definition cmd_remove ::
  "(string \<Rightarrow> string) \<Rightarrow> (string \<Rightarrow> reply) \<Rightarrow> string option \<Rightarrow> string \<Rightarrow> bool
    \<Rightarrow> ('d console, int) prog" where
  "cmd_remove expanduser confirm path name yes =
     (let remove =
        bindM (attempt expanduser path (vault_revoke name)) (\<lambda>r.
        case r of
          Inl e \<Rightarrow> print_error e
        | Inr existed \<Rightarrow>
            if \<not> existed
            then bindM (eprintln (''credential '' @ repr_str name @ '' was not stored''))
                   (\<lambda>_. returnM 1)
            else bindM (println (''removed credential '' @ repr_str name)) (\<lambda>_. returnM 0))
      in if yes then remove
         else case confirm (delete_label name) of
           Interrupted \<Rightarrow> bindM (out [newline]) (\<lambda>_. returnM 130)
         | Typed reply \<Rightarrow>
             if lower (strip reply) \<notin> {''y'', ''yes''}
             then bindM (println ''cancelled'') (\<lambda>_. returnM 0)
             else remove)"

definition cmd_get ::
  "crypto \<Rightarrow> (string \<Rightarrow> string) \<Rightarrow> string option \<Rightarrow> string \<Rightarrow> ('d console, int) prog" where
  "cmd_get C expanduser path name =
     bindM (attempt expanduser path (vault_retrieve C name)) (\<lambda>r.
     case r of
       Inl e \<Rightarrow>
         if exn_class e = ''VaultCredentialNotFoundError''
         then bindM (eprintln (''no credential named '' @ repr_str name)) (\<lambda>_. returnM 1)
         else print_error e
     | Inr value \<Rightarrow> bindM (println value) (\<lambda>_. returnM 0))"

section \<open>Migration\<close>

text \<open>What alembic is asked: a configuration built by setting options, and an upgrade under it. The
  package's own migrations directory is \<open>bundled\<close>, if it is there.\<close>

record ('g, 'd) alembic =
  new_config :: 'g
  set_main_option :: "'g \<Rightarrow> string \<Rightarrow> string \<Rightarrow> exn + 'g"
  upgrade :: "'g \<Rightarrow> string \<Rightarrow> ('d, unit) prog"

definition bundled_migrations_path :: "string \<Rightarrow> bool \<Rightarrow> exn + string" where
  "bundled_migrations_path path is_dir =
     (if \<not> is_dir then Inl (Exn ''RuntimeError'' (''bundled migrations not found at PosixPath(''
        @ repr_str path @ ''); reinstall tename ''
        @ ''(if you're running from a zipped import you'll need to ''
        @ ''clone the repo and use `make migrate` instead)''))
      else Inr path)"

definition build_alembic_config ::
  "('g, 'd) alembic \<Rightarrow> string \<Rightarrow> bool \<Rightarrow> string \<Rightarrow> exn + 'g" where
  "build_alembic_config A path is_dir database_url =
     bindE (bundled_migrations_path path is_dir) (\<lambda>p.
     bindE (set_main_option A (new_config A) ''script_location'' p) (\<lambda>cfg.
     set_main_option A cfg ''sqlalchemy.url'' database_url))"

definition cmd_migrate ::
  "('g, 'd) alembic \<Rightarrow> string \<Rightarrow> bool \<Rightarrow> string option \<Rightarrow> string option \<Rightarrow> ('d console, int) prog"
where
  "cmd_migrate A path is_dir database_url revision =
     bindM getM (\<lambda>c.
     let url = (case or_env database_url (con_env c) DATABASE_URL_ENV of None \<Rightarrow> [] | Some u \<Rightarrow> u) in
     if url = []
     then bindM (eprintln (''error: database URL is required (pass --database-url or set ''
            @ DATABASE_URL_ENV @ '')'')) (\<lambda>_. returnM 2)
     else
       let rev = (case revision of Some r \<Rightarrow> if r \<noteq> [] then r else ''head'' | None \<Rightarrow> ''head'') in
       bindM (liftE (build_alembic_config A path is_dir url)) (\<lambda>cfg.
       bindM (zoom con_db (\<lambda>d. con_db_update (\<lambda>_. d)) (upgrade A cfg rev)) (\<lambda>_.
       bindM (println (''migrations applied: -> '' @ rev)) (\<lambda>_. returnM 0))))"

section \<open>Dispatch\<close>

text \<open>The function a subparser sets, with its own arguments.\<close>

datatype command =
    Set "string option" string
  | List_Names "string option"
  | Remove "string option" string bool
  | Get "string option" string
  | Migrate "string option" "string option"

record arguments =
  a_version :: bool
  a_func :: "command option"

text \<open>What the process gets from outside: the cryptography, the home directory, the two prompts,
  alembic, the bundled directory, the installed version if the package has metadata, and the
  help text.\<close>

record ('g, 'd) platform =
  pf_crypto :: crypto
  pf_expanduser :: "string \<Rightarrow> string"
  pf_getpass :: "string \<Rightarrow> reply"
  pf_input :: "string \<Rightarrow> reply"
  pf_alembic :: "('g, 'd) alembic"
  pf_migrations :: "string \<times> bool"
  pf_version :: "string option"
  pf_help :: string

definition resolve_version :: "('g, 'd) platform \<Rightarrow> string" where
  "resolve_version P = (case pf_version P of Some v \<Rightarrow> v | None \<Rightarrow> ''unknown'')"

fun run_command :: "('g, 'd) platform \<Rightarrow> command \<Rightarrow> ('d console, int) prog" where
  "run_command P (Set path name) =
     cmd_set (pf_crypto P) (pf_expanduser P) (pf_getpass P) path name"
| "run_command P (List_Names path) = cmd_list (pf_expanduser P) path"
| "run_command P (Remove path name yes) =
     cmd_remove (pf_expanduser P) (pf_input P) path name yes"
| "run_command P (Get path name) = cmd_get (pf_crypto P) (pf_expanduser P) path name"
| "run_command P (Migrate url revision) =
     cmd_migrate (pf_alembic P) (fst (pf_migrations P)) (snd (pf_migrations P)) url revision"

definition main :: "('g, 'd) platform \<Rightarrow> arguments \<Rightarrow> ('d console, int) prog" where
  "main P args =
     (if a_version args
      then bindM (println (''tename '' @ resolve_version P)) (\<lambda>_. returnM 0)
      else case a_func args of
        None \<Rightarrow> bindM (err (pf_help P)) (\<lambda>_. returnM 2)
      | Some command \<Rightarrow> run_command P command)"

end
