(* ===== verification/Cli_Facts.thy ===== *)
theory Cli_Facts
  imports Cli
begin

text \<open>
  What the commands promise a script: the exit code and the streams agree, a command that fails
  changes nothing, a secret is never printed by storing it, and a stored credential can be read
  until it is removed.
\<close>

section \<open>Vault operations in the console\<close>

text \<open>An operation that fails leaves the file; the handle's settings never change.\<close>

definition careful :: "(vault, 'a) prog \<Rightarrow> bool" where
  "careful m \<longleftrightarrow> (\<forall>v e v'. m v = (Inl e, v') \<longrightarrow> v_file v' = v_file v)"

definition reads_only :: "(vault, 'a) prog \<Rightarrow> bool" where
  "reads_only m \<longleftrightarrow> (\<forall>v. v_file (snd (m v)) = v_file v)"

definition settings :: "vault \<Rightarrow> string \<times> string option \<times> write_failure option" where
  "settings v = (v_path v, v_passphrase v, v_write_error v)"

definition steady :: "(vault, 'a) prog \<Rightarrow> bool" where
  "steady m \<longleftrightarrow> (\<forall>v. settings (snd (m v)) = settings v)"

lemma reads_only_bind [intro]:
  "reads_only m \<Longrightarrow> (\<And>x. reads_only (f x)) \<Longrightarrow> reads_only (bindM m f)"
  by (simp add: reads_only_def bindM_def split: prod.split sum.split) (metis snd_conv)

lemma careful_bind [intro]:
  "reads_only m \<Longrightarrow> (\<And>x. careful (f x)) \<Longrightarrow> careful (bindM m f)"
  by (simp add: reads_only_def careful_def bindM_def split: prod.split sum.split) (metis snd_conv)

lemma steady_bind [intro]: "steady m \<Longrightarrow> (\<And>x. steady (f x)) \<Longrightarrow> steady (bindM m f)"
  by (simp add: steady_def bindM_def split: prod.split sum.split) (metis snd_conv)

lemma careful_return: "careful m \<Longrightarrow> careful (bindM m (\<lambda>_. returnM x))"
  by (auto simp: careful_def bindM_def split: prod.splits sum.splits)

lemma reads_careful: "reads_only m \<Longrightarrow> careful m"
  by (simp add: reads_only_def careful_def) (metis snd_conv)

lemma steps_read [intro, simp]:
  "reads_only (returnM x)" "reads_only (raiseM e)" "reads_only getM" "reads_only (liftE r)"
  "reads_only load_state" "reads_only load_state_required" "reads_only (vault_key C params)"
  "reads_only (generate_salt C)" "reads_only (encrypt_value C key value)"
  "reads_only (load_or_init_state C)"
  by (auto simp: reads_only_def liftE_eq load_simps load_state_required_def bindM_def vault_key_eq
      generate_salt_def encrypt_value_def load_or_init_state_def split: sum.split option.split)

lemma write_careful [intro, simp]: "careful (write_state st params)"
  by (auto simp: careful_def write_state_def Let_def bindM_def split: option.splits)

lemma careful_steps [intro, simp]:
  "careful (returnM x)" "careful (raiseM e)" "careful (liftE r)"
  "careful (bindM (write_state st params) (\<lambda>_. returnM y))"
  by (simp_all add: reads_careful careful_return)

lemma steps_steady [intro, simp]:
  "steady (returnM x)" "steady (raiseM e)" "steady getM" "steady (liftE r)"
  "steady load_state" "steady load_state_required" "steady (vault_key C params)"
  "steady (generate_salt C)" "steady (encrypt_value C key value)"
  "steady (load_or_init_state C)" "steady (write_state st params)"
  by (auto simp: steady_def settings_def liftE_eq load_simps load_state_required_def bindM_def
      vault_key_eq generate_salt_def encrypt_value_def load_or_init_state_def write_state_def Let_def
      split: sum.split option.split)

lemma operations_steady [intro, simp]:
  "steady (vault_store C name value)" "steady (vault_retrieve C name)" "steady (vault_revoke name)"
  "steady vault_list"
  unfolding vault_store_def vault_retrieve_def vault_revoke_def vault_list_def Let_def
  by (auto intro!: steady_bind split: prod.split option.split)

lemma operations_careful [intro, simp]:
  "careful (vault_store C name value)" "careful (vault_retrieve C name)" "careful (vault_revoke name)"
  "careful vault_list" "reads_only (vault_retrieve C name)" "reads_only vault_list"
  unfolding vault_store_def vault_retrieve_def vault_revoke_def vault_list_def Let_def
  by (auto intro!: reads_only_bind careful_bind split: prod.split option.split)


section \<open>Trying an operation\<close>

lemma make_put [simp]:
  assumes "settings v = settings (make_vault x path c)"
  shows "make_vault x path (put_vault v c) = v"
  using assms by (cases v) (simp add: make_vault_def put_vault_def settings_def Let_def)

lemma attempt_cases:
  assumes "steady m" and "careful m"
  obtains (escapes) e d where "attempt x path m c = (Inl e, c\<lparr>con_draws := d\<rparr>)"
      "exn_class e \<notin> vault_classes"
  | (caught) e d where "attempt x path m c = (Inr (Inl e), c\<lparr>con_draws := d\<rparr>)"
  | (finished) y v where "attempt x path m c = (Inr (Inr y), put_vault v c)"
      "m (make_vault x path c) = (Inr y, v)"
proof -
  obtain r v where m: "m (make_vault x path c) = (r, v)" by fastforce
  have "settings v = settings (make_vault x path c)"
    using assms(1) m by (metis steady_def snd_conv)
  then have p: "v_path v = resolved_path x path"
    by (simp add: settings_def make_vault_def Let_def)
  show ?thesis
  proof (cases r)
    case (Inl e)
    then have "v_file v = con_files c (resolved_path x path)"
      using assms(2) m by (simp add: careful_def make_vault_def Let_def)
    then have "put_vault v c = c\<lparr>con_draws := v_draws v\<rparr>"
      by (simp add: put_vault_def p)
    then show ?thesis
      using that(1,2) m Inl by (cases "exn_class e \<in> vault_classes") (simp_all add: attempt_def zoom_def)
  next
    case (Inr y)
    then show ?thesis using that(3) m by (simp add: attempt_def zoom_def)
  qed
qed

lemma attempt_reads:
  assumes "steady m" and "reads_only m" and "attempt x path m c = (r, c')"
  shows "\<exists>d. c' = c\<lparr>con_draws := d\<rparr>"
proof -
  obtain r0 v where m: "m (make_vault x path c) = (r0, v)" by fastforce
  have "settings v = settings (make_vault x path c)" "v_file v = v_file (make_vault x path c)"
    using assms(1,2) m by (metis steady_def snd_conv, metis reads_only_def snd_conv)
  then have "put_vault v c = c\<lparr>con_draws := v_draws v\<rparr>"
    by (simp add: put_vault_def settings_def make_vault_def Let_def)
  moreover have "c' = put_vault v c"
    using assms(3) m by (simp add: attempt_def zoom_def split: sum.splits)
  ultimately show ?thesis by (metis)
qed

lemma print_simps [simp]:
  "out t c = (Inr (), c\<lparr>con_out := con_out c @ t\<rparr>)"
  "err t c = (Inr (), c\<lparr>con_err := con_err c @ t\<rparr>)"
  "println t c = (Inr (), c\<lparr>con_out := con_out c @ t @ [newline]\<rparr>)"
  "eprintln t c = (Inr (), c\<lparr>con_err := con_err c @ t @ [newline]\<rparr>)"
  "print_error e c = (Inr 1, c\<lparr>con_err := con_err c @ ''error: '' @ exn_text e @ [newline]\<rparr>)"
  by (simp_all add: out_def err_def println_def eprintln_def print_error_def bindM_def)

lemma forM_println [simp]:
  "forM println names c
    = (Inr (), c\<lparr>con_out := con_out c @ concat (map (\<lambda>n. n @ [newline]) names)\<rparr>)"
  by (induction names arbitrary: c) (simp_all add: bindM_def)

section \<open>Exit codes\<close>

definition honest :: "'d console \<Rightarrow> (exn + int) \<times> 'd console \<Rightarrow> bool" where
  "honest c outcome =
     (case outcome of
        (Inr code, c') \<Rightarrow>
          (code = 0 \<and> con_err c' = con_err c
           \<or> code = 130 \<and> con_err c' = con_err c \<and> con_out c' = con_out c @ [newline]
           \<or> code \<in> {1, 2} \<and> con_out c' = con_out c \<and> (\<exists>t. t \<noteq> [] \<and> con_err c' = con_err c @ t))
          \<and> (code \<noteq> 0 \<longrightarrow> con_files c' = con_files c)
          \<and> con_env c' = con_env c \<and> con_db c' = con_db c
      | (Inl e, c') \<Rightarrow>
          exn_class e \<notin> vault_classes \<and> con_out c' = con_out c \<and> con_err c' = con_err c
          \<and> con_files c' = con_files c \<and> con_env c' = con_env c \<and> con_db c' = con_db c)"

lemma honest_steps:
  "honest c (Inr 0, c\<lparr>con_out := t, con_files := f, con_draws := d\<rparr>)"
  "honest c (Inr 130, c\<lparr>con_out := con_out c @ [newline]\<rparr>)"
  "t \<noteq> [] \<Longrightarrow> honest c (Inr 1, c\<lparr>con_err := con_err c @ t, con_draws := d\<rparr>)"
  "t \<noteq> [] \<Longrightarrow> honest c (Inr 2, c\<lparr>con_err := con_err c @ t, con_draws := d\<rparr>)"
  "exn_class e \<notin> vault_classes \<Longrightarrow> honest c (Inl e, c\<lparr>con_draws := d\<rparr>)"
  by (auto simp: honest_def)

lemma honest_set: "honest c (cmd_set C x prompt path name c)"
proof (cases "prompt (value_label name)")
  case Interrupted
  then show ?thesis by (simp add: cmd_set_def honest_def)
next
  case (Typed secret)
  show ?thesis
  proof (cases "secret = []")
    case True
    then show ?thesis by (simp add: cmd_set_def Typed honest_def)
  next
    case False
    have "steady (vault_store C name secret)" "careful (vault_store C name secret)" by simp_all
    then show ?thesis
    proof (cases rule: attempt_cases[where x = x and path = path and c = c])
      case (finished y v)
      then show ?thesis by (simp add: cmd_set_def Typed False honest_def put_vault_def)
    qed (simp_all add: cmd_set_def Typed False honest_def)
  qed
qed

lemma honest_list: "honest c (cmd_list x path c)"
proof -
  have "steady vault_list" "careful vault_list" by simp_all
  then show ?thesis
  proof (cases rule: attempt_cases[where x = x and path = path and c = c])
    case (finished y v)
    then show ?thesis by (simp add: cmd_list_def honest_def put_vault_def)
  qed (simp_all add: cmd_list_def honest_def)
qed

lemma honest_get: "honest c (cmd_get C x path name c)"
proof -
  have "steady (vault_retrieve C name)" "careful (vault_retrieve C name)" by simp_all
  then show ?thesis
  proof (cases rule: attempt_cases[where x = x and path = path and c = c])
    case (caught e d)
    then show ?thesis by (cases "exn_class e = ''VaultCredentialNotFoundError''")
      (simp_all add: cmd_get_def honest_def)
  next
    case (finished y v)
    then show ?thesis by (simp add: cmd_get_def honest_def put_vault_def)
  qed (simp_all add: cmd_get_def honest_def)
qed

lemma revoke_missed: "vault_revoke name v = (Inr False, v') \<Longrightarrow> v_file v' = v_file v"
  by (cases "validate_name name"; cases "load_state_or_none v")
    (auto simp: vault_revoke_def bindM_def liftE_eq load_simps
      split: option.splits if_splits prod.splits sum.splits)

lemma honest_removal: "honest c (cmd_remove x confirm path name True c)"
proof -
  have "steady (vault_revoke name)" "careful (vault_revoke name)" by simp_all
  then show ?thesis
  proof (cases rule: attempt_cases[where x = x and path = path and c = c])
    case (finished existed v)
    show ?thesis
    proof (cases existed)
      case True
      with finished show ?thesis by (simp add: cmd_remove_def honest_def put_vault_def)
    next
      case False
      have "settings v = settings (make_vault x path c)"
        using finished(2) operations_steady(3)[of name] by (metis steady_def snd_conv)
      moreover have "v_file v = v_file (make_vault x path c)"
        using finished(2) False by (simp add: revoke_missed)
      ultimately have "put_vault v c = c\<lparr>con_draws := v_draws v\<rparr>"
        by (simp add: put_vault_def settings_def make_vault_def Let_def)
      with finished(1) False show ?thesis by (simp add: cmd_remove_def honest_def)
    qed
  qed (simp_all add: cmd_remove_def honest_def)
qed

lemma honest_remove: "honest c (cmd_remove x confirm path name yes c)"
proof (cases "yes \<or> (\<exists>r. confirm (delete_label name) = Typed r \<and> lower (strip r) \<in> {''y'', ''yes''})")
  case True
  then have "cmd_remove x confirm path name yes = cmd_remove x confirm path name True"
    by (auto simp: cmd_remove_def Let_def)
  then show ?thesis using honest_removal by metis
next
  case False
  then have "cmd_remove x confirm path name yes c
      = (case confirm (delete_label name) of
           Interrupted \<Rightarrow> (Inr 130, c\<lparr>con_out := con_out c @ [newline]\<rparr>)
         | Typed r \<Rightarrow> (Inr 0, c\<lparr>con_out := con_out c @ ''cancelled'' @ [newline]\<rparr>))"
    by (auto simp: cmd_remove_def Let_def split: reply.split)
  then show ?thesis by (simp add: honest_def split: reply.split)
qed


section \<open>Secrets\<close>

lemma store_outcome:
  "fst (vault_store C name v1 v) = fst (vault_store C name v2 v)"
  by (simp add: vault_store_def bindM_def liftE_eq encrypt_value_def write_state_def Let_def
      vault_key_eq split: sum.split prod.split option.split)

lemma attempt_fst:
  "fst (attempt x path m c) = (case fst (m (make_vault x path c)) of
     Inl e \<Rightarrow> if exn_class e \<in> vault_classes then Inr (Inl e) else Inl e | Inr y \<Rightarrow> Inr (Inr y))"
  by (simp add: attempt_def zoom_def split: prod.split sum.split)

lemma attempt_streams:
  "con_out (snd (attempt x path m c)) = con_out c"
  "con_err (snd (attempt x path m c)) = con_err c"
  by (simp_all add: attempt_def zoom_def put_vault_def split: prod.split sum.split)

text \<open>C40. Storing a credential never shows it: two secrets typed at the prompt give the same exit
  code and the same text on both streams, on every path.\<close>

theorem set_hides_secret:
  assumes "s1 \<noteq> []" and "s2 \<noteq> []"
    and "cmd_set C x (\<lambda>_. Typed s1) path name c = (r1, c1)"
    and "cmd_set C x (\<lambda>_. Typed s2) path name c = (r2, c2)"
  shows "r1 = r2 \<and> con_out c1 = con_out c2 \<and> con_err c1 = con_err c2"
proof -
  obtain a1 d1 where a1: "attempt x path (vault_store C name s1) c = (a1, d1)" by fastforce
  obtain a2 d2 where a2: "attempt x path (vault_store C name s2) c = (a2, d2)" by fastforce
  have "a1 = a2"
    using attempt_fst[of x path "vault_store C name s1" c] attempt_fst[of x path "vault_store C name s2" c]
      store_outcome[of C name s1 _ s2] a1 a2 by simp
  moreover have "con_out d1 = con_out c" "con_err d1 = con_err c" "con_out d2 = con_out c"
    "con_err d2 = con_err c"
    using attempt_streams[of x path _ c] a1 a2 by (metis snd_conv)+
  ultimately show ?thesis
    using assms a1 a2 by (cases a1) (auto simp: cmd_set_def bindM_def split: sum.splits)
qed

lemma store_writable: "vault_store C name s v = (Inr (), v') \<Longrightarrow> v_write_error v = None"
proof (rule ccontr)
  assume s: "vault_store C name s v = (Inr (), v')" and "v_write_error v \<noteq> None"
  then obtain f where "v_write_error v = Some f" by blast
  then have "\<not> is_return (fst (vault_store C name s v))"
    by (auto simp: vault_store_def bindM_def liftE_eq encrypt_value_def write_state_def Let_def
        load_or_init_state_def load_simps generate_salt_def vault_key_eq is_return_iff
        split: sum.split prod.split option.split)
  with s show False by simp
qed

lemma retrieve_state [simp]: "snd (vault_retrieve C name v) = v"
  by (simp add: vault_retrieve_def load_state_required_def load_simps bindM_def liftE_eq
      vault_key_eq Let_def split: sum.split prod.split option.split)

lemma put_make [simp]: "put_vault (make_vault x path c) c = c"
  by (simp add: put_vault_def make_vault_def Let_def)

lemma get_prints:
  assumes "fst (vault_retrieve C name (make_vault x path c)) = Inr s"
  shows "cmd_get C x path name c = (Inr 0, c\<lparr>con_out := con_out c @ s @ [newline]\<rparr>)"
  using assms by (simp add: cmd_get_def bindM_def attempt_def zoom_def prod.case_eq_if)

lemma get_missing:
  assumes "fst (vault_retrieve C name (make_vault x path c)) = Inl (not_found_error t)"
  shows "cmd_get C x path name c = (Inr 1,
    c\<lparr>con_err := con_err c @ ''no credential named '' @ repr_str name @ [newline]\<rparr>)"
  using assms
  by (simp add: cmd_get_def bindM_def attempt_def zoom_def prod.case_eq_if not_found_error_def
      vault_classes_def)

text \<open>A session at the command line: a credential that \<open>set\<close> stored is what \<open>get\<close> prints, \<open>remove\<close>
  succeeds, and then \<open>get\<close> fails with exit code 1. \<open>set\<close> itself printed only the name.\<close>

theorem credential_lifecycle:
  assumes "fernet_ok C" and "vault_ok (make_vault x path c)" and "prompt (value_label name) = Typed s"
    and "cmd_set C x prompt path name c = (Inr 0, c1)"
  shows "con_out c1 = con_out c @ ''stored credential '' @ repr_str name @ [newline]
    \<and> (\<exists>c2 c3 c4. cmd_get C x path name c1 = (Inr 0, c2)
        \<and> con_out c2 = con_out c1 @ s @ [newline]
        \<and> cmd_remove x confirm path name True c2 = (Inr 0, c3)
        \<and> cmd_get C x path name c3 = (Inr 1, c4)
        \<and> con_err c4 = con_err c3 @ ''no credential named '' @ repr_str name @ [newline])"
proof -
  have s: "s \<noteq> []" using assms(3,4) by (auto simp: cmd_set_def bindM_def)
  let ?v = "make_vault x path c"
  have "steady (vault_store C name s)" "careful (vault_store C name s)" by simp_all
  then obtain v where v: "attempt x path (vault_store C name s) c = (Inr (Inr ()), put_vault v c)"
    "vault_store C name s ?v = (Inr (), v)"
    using assms(3,4) s
    by (cases rule: attempt_cases[where x = x and path = path and c = c])
      (auto simp: cmd_set_def bindM_def)
  have c1: "c1 = (put_vault v c)\<lparr>con_out := con_out c @ ''stored credential '' @ repr_str name @ [newline]\<rparr>"
    using assms(3,4) s v(1) by (simp add: cmd_set_def put_vault_def)
  have same: "settings v = settings ?v"
    using v(2) operations_steady(1)[of C name s] by (metis steady_def snd_conv)
  have c1_vault: "make_vault x path c1 = v"
    using make_put[OF same] by (simp add: c1 make_vault_def Let_def)
  have read: "fst (vault_retrieve C name v) = Inr s"
    using store_read[OF assms(1,2) v(2), of name] by simp
  obtain v' where v': "vault_revoke name v = (Inr True, v')"
    "fst (vault_retrieve C name v')
      = Inl (not_found_error (''no credential named '' @ repr_str name))"
    using revoke_read[OF vault_ok_stored[OF v(2) assms(2)] _ read] store_writable[OF v(2)] same
    by (auto simp: settings_def)
  let ?c2 = "c1\<lparr>con_out := con_out c1 @ s @ [newline]\<rparr>"
  let ?c3 = "(put_vault v' ?c2)\<lparr>con_out := con_out ?c2 @ ''removed credential '' @ repr_str name @ [newline]\<rparr>"
  have get: "cmd_get C x path name c1 = (Inr 0, ?c2)"
    using read by (intro get_prints) (simp add: c1_vault)
  have c2_vault: "make_vault x path ?c2 = v"
    using c1_vault by (simp add: make_vault_def Let_def)
  with v'(1) have remove: "cmd_remove x confirm path name True ?c2 = (Inr 0, ?c3)"
    by (simp add: cmd_remove_def bindM_def attempt_def zoom_def put_vault_def)
  have "settings v' = settings (make_vault x path ?c2)"
    using v'(1) operations_steady(3)[of name] c2_vault by (metis steady_def snd_conv)
  from make_put[OF this] have "make_vault x path ?c3 = v'"
    by (simp add: make_vault_def Let_def)
  with v'(2) have missing: "cmd_get C x path name ?c3 = (Inr 1,
      ?c3\<lparr>con_err := con_err ?c3 @ ''no credential named '' @ repr_str name @ [newline]\<rparr>)"
    by (intro get_missing) simp
  have "con_out c1 = con_out c @ ''stored credential '' @ repr_str name @ [newline]"
    by (simp add: c1)
  moreover have "con_out ?c2 = con_out c1 @ s @ [newline]" by simp
  moreover have "con_err (?c3\<lparr>con_err := t\<rparr>) = t" for t by simp
  ultimately show ?thesis using get remove missing by metis
qed

end
