(* ===== verification/Examples_Sdk.thy ===== *)
theory Examples_Sdk
  imports Examples_Sessions Examples_Vault Sdk_Sessions Web_Search Cli_Facts
begin

text \<open>The properties of the SDK, of the web search tool and of the command line applied to concrete
  databases, vaults and commands.\<close>

section \<open>SDK\<close>

definition new_agent :: create_agent_input where
  "new_agent = \<lparr>ca_name = ''helper'', ca_model = ''m'', ca_system_prompt = None,
     ca_tools = [''bash'', ''python''], ca_framework = ''vanilla'', ca_sandbox_recipe = None\<rparr>"

theorem agent_created_read_deleted_witness:
  "\<exists>a d'. create_agent 2 5 new_agent sample_db = Inr (a, d')
    \<and> fetch_agent 2 d' = Inr (agent_of_spec 2 5 new_agent) \<and> delete_agent 2 d' = Inr sample_db"
proof -
  have "is_return (create_agent 2 5 new_agent sample_db)" by code_simp
  then obtain a d' where c: "create_agent 2 5 new_agent sample_db = Inr (a, d')"
    by (auto simp: is_return_iff)
  have "case_option True recipe_ok (ca_sandbox_recipe new_agent)" by (simp add: new_agent_def)
  from agent_created_read_deleted[OF c sample_db_ok this] c show ?thesis by blast
qed

theorem agent_operations_keep_service_ok_witness:
  "\<exists>a d'. create_agent 2 5 new_agent sample_db = Inr (a, d') \<and> service_ok d'"
proof -
  have "is_return (create_agent 2 5 new_agent sample_db)" by code_simp
  then obtain a d' where c: "create_agent 2 5 new_agent sample_db = Inr (a, d')"
    by (auto simp: is_return_iff)
  with agent_operations_keep_service_ok[OF sample_db_ok, of 2 5 new_agent a d'] show ?thesis by blast
qed

text \<open>The harness answers and closes the session before the last read.\<close>

definition answer_rounds :: "round list" where
  "answer_rounds =
     [([], None),
      ([EmitEvent 6 7 31 ASSISTANT_MESSAGE [(''content'', JStr ''yes'')]], Some [MarkComplete 7 7])]"

theorem send_streams_from_witness:
  "\<exists>e d1. emit_event 5 7 30 USER_MESSAGE [(''content'', JStr ''more'')] sample_db = Inr (e, d1)
    \<and> fst (send 7 ''more'' 30 5 [] answer_rounds None sample_db)
      = drop 2 (log_events (after_rounds answer_rounds d1) 7)"
proof -
  have "is_return (emit_event 5 7 30 USER_MESSAGE [(''content'', JStr ''more'')] sample_db)" by code_simp
  then obtain e d1 where
    e: "emit_event 5 7 30 USER_MESSAGE [(''content'', JStr ''more'')] sample_db = Inr (e, d1)"
    by (auto simp: is_return_iff)
  then have d1: "d1 = snd (case emit_event 5 7 30 USER_MESSAGE [(''content'', JStr ''more'')] sample_db of
      Inr p \<Rightarrow> p)" by simp
  have "harness_done answer_rounds" by (simp add: answer_rounds_def)
  moreover have two: "length (log_events sample_db 7) = 2" by code_simp
  moreover have "length (log_events (after_rounds answer_rounds d1) 7) \<le> 1000"
    unfolding d1 by code_simp
  moreover have "emit_event 5 7 30 USER_MESSAGE [(''content'', JStr ''more'')]
      (run_ops service_step [] sample_db) = Inr (e, d1)"
    using e by simp
  from send_streams_from[OF sample_db_ok this, of answer_rounds None]
  have "harness_done answer_rounds
      \<and> length (log_events (after_rounds answer_rounds d1) 7)
        \<le> min 1000 (length (log_events sample_db 7)) + 1000
      \<longrightarrow> fst (send 7 ''more'' 30 5 [] answer_rounds None sample_db)
        = drop (min 1000 (length (log_events sample_db 7))) (log_events (after_rounds answer_rounds d1) 7)"
    by blast
  ultimately show ?thesis using e by (simp add: two)
qed

definition closed_db :: db where
  "closed_db = run_ops service_step [MarkComplete 6 7] sample_db"

theorem send_after_completion_witness:
  "\<exists>st. send 7 ''again'' 30 8 [] [] None closed_db
    = ([], Some (session_exn 7 (FailedPreconditionError st)))"
proof (rule send_after_completion)
  show "service_ok closed_db" unfolding closed_db_def by code_simp
  show "session_closed closed_db 7" unfolding closed_db_def by code_simp
  have "\<not> MAX_PAYLOAD_BYTES < encode_payload_length [(''content'', JStr ''again'')]" by code_simp
  then show "encode_payload_length [(''content'', JStr ''again'')] \<le> MAX_PAYLOAD_BYTES" by simp
  show "\<forall>r \<in> set (session_log closed_db 7). e_id r \<noteq> 30" unfolding closed_db_def by code_simp
qed

section \<open>Command line\<close>

definition sample_console :: "unit console" where
  "sample_console =
     \<lparr>con_env = [(VAULT_PASSPHRASE_ENV, ''pw'')], con_files = (\<lambda>_. None), con_failures = (\<lambda>_. None),
      con_draws = 0, con_out = [], con_err = [], con_db = ()\<rparr>"

lemma console_vault: "make_vault (\<lambda>p. p) (Some ''vault.json'') sample_console = new_vault"
  by (simp add: make_vault_def resolved_path_def sample_console_def new_vault_def Let_def)

definition after_set :: "unit console" where
  "after_set = snd (cmd_set toy_crypto (\<lambda>p. p) (\<lambda>_. Typed ''secret'') (Some ''vault.json'') ''key''
     sample_console)"

lemma set_stored: "cmd_set toy_crypto (\<lambda>p. p) (\<lambda>_. Typed ''secret'') (Some ''vault.json'') ''key''
    sample_console = (Inr 0, after_set)"
proof -
  have "fst (cmd_set toy_crypto (\<lambda>p. p) (\<lambda>_. Typed ''secret'') (Some ''vault.json'') ''key''
      sample_console) = Inr 0"
    by (simp add: cmd_set_def bindM_def attempt_def zoom_def console_vault used_vault_stored)
  then show ?thesis by (simp add: after_set_def prod_eq_iff)
qed

theorem credential_lifecycle_witness:
  "\<exists>c2. cmd_get toy_crypto (\<lambda>p. p) (Some ''vault.json'') ''key'' after_set = (Inr 0, c2)
    \<and> con_out c2 = con_out after_set @ ''secret'' @ [newline]"
proof -
  have "vault_ok (make_vault (\<lambda>p. p) (Some ''vault.json'') sample_console)"
    unfolding console_vault by (rule new_vault_ok)
  from credential_lifecycle[OF toy_fernet(1) this refl set_stored] show ?thesis by blast
qed

theorem set_hides_secret_witness:
  "\<exists>c2. cmd_set toy_crypto (\<lambda>p. p) (\<lambda>_. Typed ''other'') (Some ''vault.json'') ''key'' sample_console
      = (Inr 0, c2) \<and> con_out c2 = con_out after_set"
proof -
  obtain r2 c2 where o: "cmd_set toy_crypto (\<lambda>p. p) (\<lambda>_. Typed ''other'') (Some ''vault.json'') ''key''
      sample_console = (r2, c2)" by fastforce
  have "''secret'' \<noteq> []" "''other'' \<noteq> []" by simp_all
  from set_hides_secret[OF this set_stored o] o show ?thesis by auto
qed

definition sample_platform :: "(unit, unit) platform" where
  "sample_platform =
     \<lparr>pf_crypto = toy_crypto, pf_expanduser = (\<lambda>p. p), pf_getpass = (\<lambda>_. Interrupted),
      pf_input = (\<lambda>_. Interrupted),
      pf_alembic = \<lparr>new_config = (), set_main_option = (\<lambda>_ _ _. Inr ()),
        upgrade = (\<lambda>_ _. returnM ())\<rparr>,
      pf_migrations = (''migrations'', True), pf_version = None, pf_help = ''usage''\<rparr>"


section \<open>Web search\<close>

text \<open>An endpoint that counts its requests and answers all of them alike.\<close>

definition counting_post :: "nat http_post" where
  "counting_post = (\<lambda>url body n. (Inr \<lparr>rs_status_code = 500, rs_text = ''down''\<rparr>, Suc n))"

definition search_vault :: "string \<Rightarrow> vault" where
  "search_vault s = snd (vault_store toy_crypto ''web_search_api_key'' s new_vault)"

lemma search_vault_key: 
  "fst (vault_retrieve toy_crypto ''web_search_api_key'' (search_vault ''k1'')) = Inr ''k1''"
  "fst (vault_retrieve toy_crypto ''web_search_api_key'' (search_vault ''k2'')) = Inr ''k2''"
  by code_simp+

theorem web_search_hides_key_witness:
  "proxy_execute toy_crypto (Some (search_vault ''k1''))
      [(''web_search'', web_search_tool 1 counting_post [])] (\<lambda>f. f) ''web_search''
      [(''query'', JStr ''isabelle'')] 0
    = proxy_execute toy_crypto (Some (search_vault ''k2''))
      [(''web_search'', web_search_tool 1 counting_post [])] (\<lambda>f. f) ''web_search''
      [(''query'', JStr ''isabelle'')] 0"
  by (rule web_search_hides_key[OF _ search_vault_key(1) _ search_vault_key(2), where ref = 1
        and post = counting_post and E = "[]"])
    (simp_all add: get_proxy_tool_def counting_post_def)

end
