(* ===== verification/Log_Types.thy ===== *)
theory Log_Types
  imports Harness_Outcomes Model_Router
begin

text \<open>
  The payloads of the log are untyped dictionaries. This theory states what each type of event
  carries, and shows two things: the harness, over the router and its provider, writes only such
  events (preservation), and a log of such events can always be compacted and folded into
  messages, whatever part of it is read (progress).
\<close>

section \<open>What an event carries\<close>

definition is_bool :: "json \<Rightarrow> bool" where
  "is_bool v \<longleftrightarrow> v = JBool True \<or> v = JBool False"

definition is_ints :: "json \<Rightarrow> bool" where
  "is_ints v = (case v of JList xs \<Rightarrow> list_all (\<lambda>x. as_int x \<noteq> None) xs | _ \<Rightarrow> False)"

definition is_text :: "dict \<Rightarrow> string \<Rightarrow> bool" where
  "is_text p k \<longleftrightarrow> as_str (dget p k) \<noteq> None"

fun event_typed :: "event_type \<Rightarrow> dict \<Rightarrow> bool" where
  "event_typed USER_MESSAGE p = is_text p ''content''"
| "event_typed ASSISTANT_MESSAGE p = (is_text p ''content'' \<and> is_bool (dget p ''is_complete''))"
| "event_typed TOOL_CALL p =
     (is_text p ''tool_id'' \<and> is_text p ''tool_name'' \<and> as_obj (dget p ''input'') \<noteq> None)"
| "event_typed TOOL_RESULT p =
     (is_text p ''tool_name'' \<and> is_text p ''content'' \<and> is_bool (dget p ''is_error'')
      \<and> referenced_call p \<noteq> None)"
| "event_typed HARNESS_EVENT p =
     (is_text p ''type''
      \<and> (dget p ''type'' = JStr ''compaction'' \<longrightarrow>
           is_ints (dget p ''dropped_sequences'') \<and> is_ints (dget p ''kept_sequences'')))"
| "event_typed SYSTEM_EVENT p =
     (is_text p ''type''
      \<and> (dget p ''type'' = JStr ''system_prompt'' \<longrightarrow> is_text p ''content'')
      \<and> (dget p ''type'' = JStr ''sandbox_provisioned'' \<longrightarrow> is_text p ''sandbox_id''))"
| "event_typed ERROR_EVENT p = (is_text p ''message'' \<and> is_bool (dget p ''retryable''))"

definition row_typed :: "event_row \<Rightarrow> bool" where
  "row_typed r = (case event_type_of (e_type r) of None \<Rightarrow> False | Some t \<Rightarrow> event_typed t (e_payload r))"

definition typed_db :: "db \<Rightarrow> bool" where
  "typed_db d = list_all row_typed (events d)"

lemma typed_append: "event_typed t p \<Longrightarrow> typed_db d \<Longrightarrow> typed_db (appended now sid eid t p n d)"
  by (simp add: typed_db_def appended_def update_session_row_def row_typed_def)

lemma typed_emit:
  "emit_event now sid eid t p d = Inr (e, d') \<Longrightarrow> event_typed t p \<Longrightarrow> typed_db d \<Longrightarrow> typed_db d'"
  by (auto simp: emit_event_Inr typed_append)

lemma typed_mark: "mark_complete now sid d = Inr (st, d') \<Longrightarrow> typed_db d \<Longrightarrow> typed_db d'"
  by (auto simp: mark_complete_Inr typed_db_def update_session_row_def split: if_splits)

section \<open>Results as well as states\<close>

text \<open>\<open>yields P m Q\<close>: from \<open>P\<close>, \<open>m\<close> ends in \<open>P\<close>, and what it returns has \<open>Q\<close>.\<close>

definition yields :: "('s \<Rightarrow> bool) \<Rightarrow> ('s, 'a) prog \<Rightarrow> ('a \<Rightarrow> bool) \<Rightarrow> bool" where
  "yields P m Q \<longleftrightarrow> (\<forall>s r s'. P s \<longrightarrow> m s = (r, s') \<longrightarrow> P s' \<and> (\<forall>x. r = Inr x \<longrightarrow> Q x))"

lemma yieldsI:
  "(\<And>s r s'. P s \<Longrightarrow> m s = (r, s') \<Longrightarrow> P s' \<and> (\<forall>x. r = Inr x \<longrightarrow> Q x)) \<Longrightarrow> yields P m Q"
  by (auto simp: yields_def)

lemma yieldsD:
  "yields P m Q \<Longrightarrow> P s \<Longrightarrow> m s = (r, s') \<Longrightarrow> P s' \<and> (\<forall>x. r = Inr x \<longrightarrow> Q x)"
  by (simp add: yields_def)

lemma yields_return: "Q x \<Longrightarrow> yields P (returnM x) Q"
  by (simp add: yields_def)

lemma yields_raise: "yields P (raiseM e) Q"
  by (simp add: yields_def)

lemma yields_bind:
  assumes "yields P m Q" and "\<And>x. Q x \<Longrightarrow> yields P (f x) R"
  shows "yields P (bindM m f) R"
proof (rule yieldsI)
  fix s r s' assume s: "P s" "bindM m f s = (r, s')"
  show "P s' \<and> (\<forall>x. r = Inr x \<longrightarrow> R x)"
  proof (cases rule: bindM_cases[where m = m and s = s and f = f])
    case (1 e s1)
    with s yieldsD[OF assms(1) s(1)] show ?thesis by auto
  next
    case (2 x s1)
    with yieldsD[OF assms(1) s(1) 2(1)] have "P s1" "Q x" by auto
    with s(2) 2(2) yieldsD[OF assms(2)] show ?thesis by metis
  qed
qed

lemma yields_try:
  assumes "yields P m Q" and "\<And>e. yields P (h e) Q"
  shows "yields P (tryM m h) Q"
proof (rule yieldsI)
  fix s r s' assume s: "P s" "tryM m h s = (r, s')"
  obtain r1 s1 where m: "m s = (r1, s1)" by fastforce
  note y = yieldsD[OF assms(1) s(1) m]
  show "P s' \<and> (\<forall>x. r = Inr x \<longrightarrow> Q x)"
    using s(2) m y yieldsD[OF assms(2)] by (cases r1) auto
qed

lemma keeps_yields: "keeps P m \<Longrightarrow> yields P m (\<lambda>_. True)"
  by (auto simp: yields_def dest: keepsD)

lemma yields_keeps: "yields P m Q \<Longrightarrow> keeps P m"
  unfolding keeps_def by (metis prod.collapse yieldsD)

lemma yields_orRaise: "(\<And>x. r = Inr x \<Longrightarrow> Q x) \<Longrightarrow> yields P (orRaise f r) Q"
  by (cases r) (simp_all add: orRaise_def yields_return yields_raise)

abbreviation typed_run :: "('b, 'w) run_state \<Rightarrow> bool" where
  "typed_run s \<equiv> typed_db (rt_db s)"

lemma typed_elsewhere:
  "(\<And>s. rt_db (snd (m s)) = rt_db s) \<Longrightarrow> keeps typed_run m"
  by (simp add: keeps_def)

lemma typed_basic [intro, simp]:
  "keeps typed_run (worldM f)" "keeps typed_run (in_sandbox m)" "keeps typed_run (in_outside k)"
  "keeps typed_run (note_provisioned i)"
  by (auto intro!: typed_elsewhere simp: worldM_def zoom_def note_provisioned_def split: prod.split)

lemma emit_typed: "event_typed t p \<Longrightarrow> keeps typed_run (emit H sid eid t p)"
  unfolding emit_def
  by (intro keeps_bindM typed_basic)
    (auto simp: keeps_def write_db_eq split: sum.split prod.split intro: typed_emit)

lemma mark_typed: "keeps typed_run (write_db sid (mark_complete now sid))"
  by (auto simp: keeps_def write_db_eq split: sum.split prod.split intro: typed_mark)

section \<open>What the harness writes\<close>

lemma seed_typed: "keeps typed_run (seed_system_prompt_if_needed H sid ag)"
  unfolding seed_system_prompt_if_needed_def
  by (intro keeps_rules emit_typed) (simp_all add: is_text_def)

lemma is_ints_map [simp]: "is_ints (JList (map JInt ns))"
  by (simp add: is_ints_def list_all_iff)

lemma compaction_typed: "keeps typed_run (emit_compaction H sid es p)"
  unfolding emit_compaction_def Let_def
  by (intro keeps_rules emit_typed) (simp_all add: is_text_def to_payload_def)

lemma prepare_typed: "keeps typed_run (prepare_events H sid p)"
  unfolding prepare_events_def by (intro keeps_rules compaction_typed)

lemma provision_typed: "keeps typed_run (provision_fresh H B sid ag)"
  unfolding provision_fresh_def
  by (intro keeps_rules emit_typed typed_basic) (simp_all add: is_text_def)

text \<open>A chunk that becomes a typed event, in either framework.\<close>

definition chunk_typed :: "model_chunk \<Rightarrow> bool" where
  "chunk_typed c \<longleftrightarrow> (\<forall>i pe. vanilla_chunk_to_event i c = Inr (Some pe) \<longrightarrow>
     event_typed (pe_type pe) (pe_payload pe))"

lemma protocol_typed: "protocol oc r cs \<Longrightarrow> list_all chunk_typed cs"
  by (induction rule: protocol.induct)
    (auto simp: chunk_typed_def vanilla_chunk_to_event_def is_text_def is_bool_def text_delta_def
      tool_call_start_def tool_call_delta_def tool_call_end_def usage_chunk_def done_chunk_def
      error_chunk_def)

lemma take_chunk_typed: "chunk_typed c \<Longrightarrow> keeps typed_run (take_chunk H fw sid tn c)"
  unfolding take_chunk_def Let_def framework_simps
  by (intro keeps_rules typed_basic yields_keeps[OF yields_bind[OF yields_orRaise[where
        Q = "\<lambda>x. \<forall>pe. x = Some pe \<longrightarrow> event_typed (pe_type pe) (pe_payload pe)"]]])
    (auto simp: chunk_typed_def intro!: keeps_yields keeps_rules emit_typed split: option.split)

lemma take_chunks_typed:
  "list_all chunk_typed cs \<Longrightarrow> keeps typed_run (take_chunks H fw sid tn cs ending)"
proof (induction cs arbitrary: tn)
  case Nil
  show ?case by (simp only: take_chunks.simps) (intro keeps_rules)
next
  case (Cons c cs)
  then show ?case unfolding take_chunks.simps by (intro keeps_rules take_chunk_typed) auto
qed

lemma closer_typed: "event_typed ASSISTANT_MESSAGE (closer_payload tn)"
  by (simp add: closer_payload_def is_text_def is_bool_def)

text \<open>The harness over a router whose streams follow the protocol.\<close>

definition routed :: "('b, 'w) harness \<Rightarrow> bool" where
  "routed H \<longleftrightarrow> follows_protocol (h_router H)"

lemma run_turn_typed: "routed H \<Longrightarrow> keeps typed_run (run_turn H sid p fw ms tools)"
proof -
  assume H: "routed H"
  have "list_all chunk_typed cs" if "h_router H rp ms t w = ((cs, x), w')" for rp t w cs x w'
    using H that protocol_typed unfolding routed_def follows_protocol_def by blast
  then have streams: "yields typed_run (worldM (h_router H rp ms t)) (\<lambda>(cs, ending). list_all chunk_typed cs)"
    for rp t
    by (auto intro!: yieldsI simp: worldM_def split: prod.splits)
  show ?thesis unfolding run_turn_def
    by (rule yields_keeps[OF yields_bind[OF streams keeps_yields]])
      (intro keeps_rules take_chunks_typed emit_typed typed_basic closer_typed; simp)
qed

lemma failed_typed [simp]:
  "event_typed TOOL_RESULT (failed_payload call n text)"
  "event_typed TOOL_RESULT (failed_payload call n text @ [(''sandbox_id'', JStr i)])"
  by (simp_all add: failed_payload_def is_text_def is_bool_def referenced_call_def)

lemma sandbox_tool_typed:
  "yields typed_run (run_sandbox_tool H B sid ag call n inp) (event_typed TOOL_RESULT)"
proof -
  have get: "keeps typed_run (get_or_provision_sandbox H B sid ag)"
    unfolding get_or_provision_sandbox_def by (intro keeps_rules provision_typed typed_basic)
  have ok: "event_typed TOOL_RESULT (sandbox_payload call n i r)" for i r
    by (simp add: sandbox_payload_def is_text_def is_bool_def referenced_call_def)
  show ?thesis unfolding run_sandbox_tool_def
    by (rule yields_bind[where Q = "\<lambda>g. case g of Inl p \<Rightarrow> event_typed TOOL_RESULT p | Inr i \<Rightarrow> True"],
        intro yields_try yields_bind[OF keeps_yields[OF get]] yields_return)
      (auto intro!: yields_return yields_try yields_bind[OF keeps_yields[OF typed_basic(2)]] ok
        split: sum.split simp del: event_typed.simps)
qed

lemma tool_payload_typed: "yields typed_run (tool_payload H sid ag call) (event_typed TOOL_RESULT)"
proof -
  have "yields typed_run (run_proxy_tool p sid call n inp) (event_typed TOOL_RESULT)" for p n inp
    unfolding run_proxy_tool_def
    by (rule yields_bind[OF keeps_yields[OF typed_basic(3)]])
      (auto intro!: yields_return simp: is_text_def is_bool_def referenced_call_def)
  then show ?thesis unfolding tool_payload_def Let_def
    by (auto intro!: yields_return sandbox_tool_typed simp: stub_payload_def
        simp del: event_typed.simps split: option.split)
qed

lemma execute_typed: "keeps typed_run (execute_tool_calls H sid ag cs)"
proof -
  have "keeps typed_run (execute_tool_call H sid ag c)" for c
    unfolding execute_tool_call_def
    by (rule yields_keeps[OF yields_bind[OF tool_payload_typed keeps_yields]])
      (intro keeps_rules emit_typed)
  then show ?thesis unfolding execute_tool_calls_def by (intro keeps_forM)
qed

lemma run_loop_typed: "routed H \<Longrightarrow> keeps typed_run (run_loop H sid ag p fw t n)"
proof (induction n)
  case 0
  show ?case by (simp only: run_loop.simps keeps_basic)
next
  case (Suc n)
  show ?case unfolding run_loop.simps
    by (intro keeps_rules typed_basic prepare_typed run_turn_typed execute_typed Suc)
qed

lemma run_session_typed: "routed H \<Longrightarrow> keeps typed_run (run_session H sid)"
  unfolding run_session_def destroy_sandboxes_def
  by (intro keeps_rules keeps_read_db seed_typed typed_basic keeps_finallyM run_loop_typed mark_typed)
    (simp_all add: keeps_def)

section \<open>Reading a typed log\<close>

definition entry_typed :: "event \<Rightarrow> bool" where
  "entry_typed e = event_typed (ev_type e) (ev_payload e)"

lemma rows_entries:
  assumes "rows_to_events rs = Inr es" and "list_all row_typed rs"
  shows "list_all entry_typed es"
proof -
  have "row_to_event r = Inr e \<Longrightarrow> row_typed r \<Longrightarrow> entry_typed e" for r e
    by (auto simp: row_to_event_def row_typed_def entry_typed_def split: option.splits)
  with assms show ?thesis
    by (auto simp: rows_to_events_Inr list_all_iff list_all2_conv_all_nth all_set_conv_all_nth)
qed

lemma read_entries:
  "typed_db d \<Longrightarrow> get_events sid a b ts n d = Inr es \<Longrightarrow> list_all entry_typed es"
proof -
  assume d: "typed_db d" and r: "get_events sid a b ts n d = Inr es"
  then obtain m Q where "rows_to_events (take m (sort_key e_sequence (filter Q (events d)))) = Inr es"
    by (auto simp: get_events_def Let_def select_events_def split: if_splits)
  moreover have "list_all row_typed (take m (sort_key e_sequence (filter Q (events d))))"
    using d by (auto simp: typed_db_def list_all_iff dest: in_set_takeD)
  ultimately show ?thesis by (rule rows_entries)
qed

lemma latest_in: "latest_compaction x es = Some e \<Longrightarrow> x = Some e \<or> e \<in> set es \<and> is_compaction_event e"
  by (induction es arbitrary: x) (auto split: if_splits)

lemma view_returns:
  assumes "list_all entry_typed es"
  obtains active where "apply_compaction_view es = Inr active" "list_all entry_typed active"
proof (cases "latest_compaction None es")
  case None
  with assms that show ?thesis by (simp add: apply_compaction_view_def)
next
  case (Some e)
  with latest_in[OF this] assms have "entry_typed e" "is_compaction_event e"
    by (auto simp: list_all_iff)
  then have "is_ints (dget (ev_payload e) ''dropped_sequences'')"
    by (simp add: entry_typed_def is_compaction_event_def)
  then obtain xs where "dget (ev_payload e) ''dropped_sequences'' = JList xs"
    by (auto simp: is_ints_def split: json.splits)
  then have "dget_or (ev_payload e) ''dropped_sequences'' (JList []) = JList xs"
    by (auto simp: dget_def dget_or_def split: option.splits)
  with Some assms that show ?thesis
    by (simp add: apply_compaction_view_def list_all_iff)
qed

lemma typed_step: "event_typed t p \<Longrightarrow> \<exists>st'. context_step ids st (t, p) = Inr st'"
  by (cases t)
    (auto simp: context_step_def Let_def is_text_def tool_result_block_def split: json.splits option.splits)

lemma context_returns:
  "list_all entry_typed es \<Longrightarrow> \<exists>ms. vanilla_build_context es = Inr ms"
proof -
  have "list_all entry_typed es \<Longrightarrow>
      \<exists>st'. foldE (context_step ids) st (map (\<lambda>ev. (ev_type ev, ev_payload ev)) es) = Inr st'" for ids st
  proof (induction es arbitrary: st)
    case (Cons e es)
    then obtain st1 where "context_step ids st (ev_type e, ev_payload e) = Inr st1"
      using typed_step by (fastforce simp: entry_typed_def)
    with Cons show ?case by simp
  qed simp
  then show "list_all entry_typed es \<Longrightarrow> ?thesis"
    unfolding vanilla_build_context_def by (metis bindE_simps(2))
qed

text \<open>C5. Type soundness of the log, for the harness over the router with its provider and whatever
  the model's API delivers. From a log whose events carry what their type says, a run leaves
  such a log, however it ends; and any part of it the service returns can be compacted and
  folded into messages by either framework without an error.\<close>

theorem run_session_type_sound:
  assumes "typed_db (rt_db s)"
    and "h_router H = router_complete (R\<lparr>mr_providers := default_providers A None\<rparr>)"
  shows "typed_db (rt_db (snd (run_session H sid s)))
    \<and> (\<forall>k a b ts n es. get_events k a b ts n (rt_db (snd (run_session H sid s))) = Inr es \<longrightarrow>
        (\<exists>active ms. apply_compaction_view es = Inr active \<and> build_context fw active = Inr ms))"
proof (intro conjI allI impI)
  have "routed H" using default_router_follows by (simp add: routed_def assms(2))
  from keepsD[OF run_session_typed[OF this] assms(1)]
  show t: "typed_db (rt_db (snd (run_session H sid s)))" .
  fix k a b ts n es
  assume "get_events k a b ts n (rt_db (snd (run_session H sid s))) = Inr es"
  from read_entries[OF t this] obtain active where
    "apply_compaction_view es = Inr active" "list_all entry_typed active" by (rule view_returns)
  with context_returns show "\<exists>active ms. apply_compaction_view es = Inr active \<and> build_context fw active = Inr ms"
    by simp
qed

end
