(* ===== verification/Sdk_Client.thy ===== *)
theory Sdk_Client
  imports Sdk_Sessions Log_Types Proxy
begin

text \<open>
  \<open>sdk/client.py\<close> and \<open>sdk/runtime.py\<close>: how the client wires the router, the sandbox, the vault, the
  tool proxy and the profiles into a harness, the sub-clients, and the synchronous client over
  its background loop. Everything the wiring takes from outside the repository, and the
  registries filled at import, are the record \<open>services\<close>. A database engine may be refused for
  its URL.
\<close>

section \<open>Wiring\<close>

record ('h, 'x, 'f, 'w) services =
  sv_engine :: "string \<Rightarrow> exn + unit"
  sv_anthropic :: "'w anthropic_api"
  sv_raw_pricing :: "exn + (string \<times> (string \<times> json) list option) list"
  sv_validate_pricing :: "json \<Rightarrow> exn + pricing"
  sv_validate_usage :: "dict \<Rightarrow> exn + usage"
  sv_float_text :: "rat \<Rightarrow> string"
  sv_docker :: "('h, 'x) docker_api"
  sv_race :: "'x race"
  sv_validate_recipe :: "dict \<Rightarrow> exn + recipe"
  sv_profile_dir :: "string \<Rightarrow> yaml_source"
  sv_bundled :: yaml_source
  sv_profile_fields :: "dict \<Rightarrow> profile option"
  sv_profile_exn :: "profile_error \<Rightarrow> exn"
  sv_crypto :: crypto
  sv_vault_file :: "'w \<Rightarrow> vault_file option"
  sv_vault_path :: "string option \<Rightarrow> string"
  sv_registry :: "'f proxy_registry"
  sv_call :: "('f, 'w) tool_call"
  sv_adapters :: "(string \<times> framework) list"
  sv_now :: "'w \<Rightarrow> int \<times> 'w"
  sv_monotonic :: "'w \<Rightarrow> rat \<times> 'w"
  sv_uuid4 :: "'w \<Rightarrow> uuid \<times> 'w"
  sv_uuid5 :: "string \<Rightarrow> uuid"

text \<open>The router a client makes, the vault it reads when a tool runs, and its profile loader.\<close>

definition client_router :: "('h, 'x, 'f, 'w) services \<Rightarrow> 'w model_router" where
  "client_router S =
     \<lparr>mr_providers = default_providers (sv_anthropic S) None, mr_raw_pricing = sv_raw_pricing S,
      mr_validate_pricing = sv_validate_pricing S, mr_validate_usage = sv_validate_usage S,
      mr_float_text = sv_float_text S\<rparr>"

definition client_vault ::
  "('h, 'x, 'f, 'w) services \<Rightarrow> environ \<Rightarrow> resolved_config \<Rightarrow> 'w \<Rightarrow> vault" where
  "client_vault S E c w =
     \<lparr>v_path = sv_vault_path S (rc_vault_path c),
      v_passphrase = (case rc_vault_passphrase c of Some p \<Rightarrow> Some p
                      | None \<Rightarrow> map_of E VAULT_PASSPHRASE_ENV),
      v_file = sv_vault_file S w, v_write_error = None, v_draws = 0\<rparr>"

definition search_paths :: "('h, 'x, 'f, 'w) services \<Rightarrow> resolved_config \<Rightarrow> yaml_source list" where
  "search_paths S c =
     (case rc_profiles_dir c of
        None \<Rightarrow> []
      | Some dir \<Rightarrow> if dir = [] then [] else [sv_profile_dir S dir])"

definition client_harness ::
  "('h, 'x, 'f, 'w) services \<Rightarrow> environ \<Rightarrow> resolved_config \<Rightarrow> bool
    \<Rightarrow> 'w provider \<Rightarrow> (('h, 'x) docker, 'w) harness" where
  "client_harness S E c enable_sandbox router =
     \<lparr>h_router = router,
      h_backend = (if enable_sandbox then Some (docker_backend (sv_docker S) (sv_race S)) else None),
      h_proxy = Some (\<lambda>name inp sid w.
        proxy_execute (sv_crypto S) (Some (client_vault S E c w)) (sv_registry S) (sv_call S) name inp w),
      h_proxy_schemas = proxy_tool_schemas (sv_registry S),
      h_load_profile = (\<lambda>name. map_sum (sv_profile_exn S) id
        (load_profile (sv_profile_fields S) (search_paths S c) (sv_bundled S) name)),
      h_adapters = sv_adapters S, h_validate_recipe = sv_validate_recipe S,
      h_validate_usage = sv_validate_usage S, h_now = sv_now S, h_monotonic = sv_monotonic S,
      h_uuid4 = sv_uuid4 S, h_uuid5 = sv_uuid5 S\<rparr>"

record ('h, 'x, 'w) client =
  cl_config :: resolved_config
  cl_sandboxed :: bool
  cl_router :: "'w provider"
  cl_harness :: "(('h, 'x) docker, 'w) harness"

text \<open>\<open>AsyncTename(...)\<close>: the client, and the environment with the key exported. The SDK and the
  Session Service make an engine each, for the same URL.\<close>

definition async_tename ::
  "('h, 'x, 'f, 'w) services \<Rightarrow> environ \<Rightarrow> string option \<Rightarrow> string option \<Rightarrow> string option
    \<Rightarrow> string option \<Rightarrow> string option \<Rightarrow> bool
    \<Rightarrow> (sdk_error + exn) + ('h, 'x, 'w) client \<times> environ" where
  "async_tename S E database_url api_key profiles_dir vault_path vault_passphrase enable_sandbox =
     (case resolve_config E database_url api_key profiles_dir vault_path vault_passphrase of
        Inl e \<Rightarrow> Inl (Inl e)
      | Inr c \<Rightarrow>
          (case sv_engine S (rc_database_url c) of
             Inl e \<Rightarrow> Inl (Inr e)
           | Inr _ \<Rightarrow>
               let E = export_key c E;
                   router = router_complete (client_router S)
               in Inr (\<lparr>cl_config = c, cl_sandboxed = enable_sandbox, cl_router = router,
                        cl_harness = client_harness S E c enable_sandbox router\<rparr>, E)))"

text \<open>The vault and the sandbox are those of the construction; only the router is new.\<close>

definition install_test_model_router ::
  "'w provider \<Rightarrow> ('h, 'x, 'w) client \<Rightarrow> ('h, 'x, 'w) client" where
  "install_test_model_router router cl =
     cl\<lparr>cl_router := router, cl_harness := (cl_harness cl)\<lparr>h_router := router\<rparr>\<rparr>"

section \<open>Sub-clients\<close>

definition client_create_agent ::
  "uuid \<Rightarrow> int \<Rightarrow> string \<Rightarrow> string \<Rightarrow> string option \<Rightarrow> string list option \<Rightarrow> string
    \<Rightarrow> recipe option \<Rightarrow> db \<Rightarrow> sdk_error + agent \<times> db" where
  "client_create_agent new_id now name model system_prompt tools framework recipe d =
     create_agent new_id now
       \<lparr>ca_name = name, ca_model = model, ca_system_prompt = system_prompt,
        ca_tools = (case tools of None \<Rightarrow> [] | Some ts \<Rightarrow> ts), ca_framework = framework,
        ca_sandbox_recipe = recipe\<rparr> d"

text \<open>The calls of the agent and session sub-clients. The ids and times an insert takes from the
  database are \<open>new_id\<close> and \<open>now\<close>; a handle is the session it was made for.\<close>

datatype client_call =
    Agents_Create string string "string option" "string list option" string "recipe option"
  | Agents_Get uuid
  | Agents_List
  | Agents_Delete uuid
  | Sessions_Create uuid "dict option"
  | Sessions_Get uuid

datatype client_answer = Agent_Answer agent | Agents_Answer "agent list" | Handle session | Nothing

definition sdk_exn :: "uuid \<Rightarrow> sdk_error \<Rightarrow> exn" where
  "sdk_exn i e =
     (case e of
        ConfigurationError t \<Rightarrow> Exn ''ConfigurationError'' t
      | SdkNotFoundError t \<Rightarrow> Exn ''NotFoundError'' t
      | SdkValidationError t \<Rightarrow> Exn ''ValidationError'' t
      | DriverError x \<Rightarrow> session_exn i x)"

definition answerM :: "('e \<Rightarrow> exn) \<Rightarrow> (db \<Rightarrow> 'e + client_answer \<times> db) \<Rightarrow> (db, client_answer) prog" where
  "answerM f g d = (case g d of Inl e \<Rightarrow> (Inl (f e), d) | Inr (x, d') \<Rightarrow> (Inr x, d'))"

fun async_call :: "uuid \<Rightarrow> int \<Rightarrow> client_call \<Rightarrow> (db, client_answer) prog" where
  "async_call new_id now (Agents_Create name model prompt tools framework recipe) =
     answerM (sdk_exn new_id) (\<lambda>d. map_sum id (map_prod Agent_Answer id)
       (client_create_agent new_id now name model prompt tools framework recipe d))"
| "async_call new_id now (Agents_Get i) =
     answerM (sdk_exn i) (\<lambda>d. map_sum id (\<lambda>a. (Agent_Answer a, d)) (fetch_agent i d))"
| "async_call new_id now Agents_List =
     answerM (sdk_exn 0) (\<lambda>d. Inr (Agents_Answer (list_agents d), d))"
| "async_call new_id now (Agents_Delete i) =
     answerM (sdk_exn i) (\<lambda>d. map_sum id (\<lambda>d'. (Nothing, d')) (delete_agent i d))"
| "async_call new_id now (Sessions_Create aid meta) =
     answerM (session_exn new_id) (\<lambda>d. map_sum id (map_prod Handle id)
       (client_create_session new_id now aid meta d))"
| "async_call new_id now (Sessions_Get sid) =
     answerM (session_exn sid) (\<lambda>d. map_sum id (\<lambda>x. (Handle x, d)) (client_get_session sid d))"

text \<open>The vault sub-client, the same for both clients.\<close>

datatype vault_call = Vault_Set string string | Vault_Get string | Vault_Remove string | Vault_List

datatype vault_answer = Stored | Secret string | Removed bool | Names "string list"

fun vault_client :: "crypto \<Rightarrow> vault_call \<Rightarrow> (vault, vault_answer) prog" where
  "vault_client C (Vault_Set name secret) = bindM (vault_store C name secret) (\<lambda>_. returnM Stored)"
| "vault_client C (Vault_Get name) = bindM (vault_retrieve C name) (\<lambda>v. returnM (Secret v))"
| "vault_client C (Vault_Remove name) = bindM (vault_revoke name) (\<lambda>b. returnM (Removed b))"
| "vault_client C Vault_List = bindM vault_list (\<lambda>ns. returnM (Names ns))"

section \<open>The synchronous client\<close>

text \<open>The background loop has both its thread and its loop, or neither.\<close>

datatype loop_state = Stopped | Running

definition loop_start :: "loop_state \<Rightarrow> loop_state" where
  "loop_start L = Running"

definition loop_stop :: "loop_state \<Rightarrow> loop_state" where
  "loop_stop L = Stopped"

definition loop_run :: "loop_state \<Rightarrow> ('s, 'a) prog \<Rightarrow> ('s, 'a) prog" where
  "loop_run L m =
     (case L of
        Stopped \<Rightarrow> raiseM (Exn ''RuntimeError'' ''BackgroundLoop has not been started'')
      | Running \<Rightarrow> m)"

definition sync_call :: "loop_state \<Rightarrow> uuid \<Rightarrow> int \<Rightarrow> client_call \<Rightarrow> (db, client_answer) prog" where
  "sync_call L new_id now c = loop_run L (async_call new_id now c)"

text \<open>\<open>Tename(...)\<close>: what is left of the loop when construction fails depends on the failure.\<close>

definition tename ::
  "('h, 'x, 'f, 'w) services \<Rightarrow> environ \<Rightarrow> string option \<Rightarrow> string option \<Rightarrow> string option
    \<Rightarrow> string option \<Rightarrow> string option \<Rightarrow> bool
    \<Rightarrow> ((sdk_error + exn) + ('h, 'x, 'w) client \<times> environ) \<times> loop_state" where
  "tename S E database_url api_key profiles_dir vault_path vault_passphrase enable_sandbox =
     (let L = loop_start Stopped in
      case async_tename S E database_url api_key profiles_dir vault_path vault_passphrase enable_sandbox of
        Inl (Inl (ConfigurationError t)) \<Rightarrow> (Inl (Inl (ConfigurationError t)), loop_stop L)
      | Inl e \<Rightarrow> (Inl e, L)
      | Inr r \<Rightarrow> (Inr r, L))"

definition tename_close :: "loop_state \<Rightarrow> ('s, unit) prog \<Rightarrow> 's \<Rightarrow> ((exn + unit) \<times> 's) \<times> loop_state" where
  "tename_close L close s = (loop_run L close s, loop_stop L)"

section \<open>What a run leaves behind\<close>

text \<open>\<open>live\<close> counts the open connections to the model's API. Only the API opens and closes them;
  clocks, ids and tools do neither.\<close>

definition counts_live :: "('h, 'x, 'f, 'w) services \<Rightarrow> ('w \<Rightarrow> int) \<Rightarrow> bool" where
  "counts_live S live \<longleftrightarrow> counts_connections (sv_anthropic S) live
     \<and> (\<forall>w. live (snd (sv_now S w)) = live w) \<and> (\<forall>w. live (snd (sv_monotonic S w)) = live w)
     \<and> (\<forall>w. live (snd (sv_uuid4 S w)) = live w)
     \<and> (\<forall>f inp creds w. live (snd (sv_call S f inp creds w)) = live w)"

abbreviation live_is :: "('w \<Rightarrow> int) \<Rightarrow> int \<Rightarrow> ('b, 'w) run_state \<Rightarrow> bool" where
  "live_is live n s \<equiv> live (rt_world s) = n"

lemma proxy_execute_live:
  assumes "\<And>f inp creds w. live (snd (call f inp creds w)) = live w"
  shows "live (snd (proxy_execute C v reg call name inp w)) = live w"
  using assms
  by (simp add: proxy_execute_def tryM_def bindM_def
      split: option.split sum.split lookup_error.split prod.split) (metis snd_conv)

lemma router_live:
  assumes "counts_connections (sv_anthropic S) live"
  shows "live (snd (router_complete (client_router S) p ms tools w)) = live w"
  using complete_closes[OF assms, of True p ms tools w]
  by (auto simp: router_complete_def client_router_def default_providers_def split: option.split prod.split)

lemma world_live: "(\<And>w. live (snd (f w)) = live w) \<Longrightarrow> keeps (live_is live n) (worldM f)"
  by (auto simp: keeps_def worldM_def split: prod.split) (metis snd_conv)

lemma elsewhere_live: "(\<And>s. rt_world (snd (m s)) = rt_world s) \<Longrightarrow> keeps (live_is live n) m"
  by (simp add: keeps_def)

lemma basic_live [intro, simp]:
  "keeps (live_is live n) (in_sandbox m)" "keeps (live_is live n) (note_provisioned i)"
  "keeps (live_is live n) (write_db sid g)"
  "keeps (live_is live n) (modifyM (rt_provisioned_update h))"
  by (auto intro!: elsewhere_live simp: zoom_def note_provisioned_def write_db_eq
      split: prod.split sum.split)

lemma emit_live: "(\<And>w. live (snd (h_now H w)) = live w) \<Longrightarrow> keeps (live_is live n) (emit H sid eid t p)"
  unfolding emit_def by (intro keeps_bindM world_live basic_live)

lemma client_loop_live:
  assumes "counts_live S live"
  shows "loop_invariant (client_harness S E c sandboxed (router_complete (client_router S))) (live_is live n)"
    (is "loop_invariant ?H _")
proof -
  have clocks: "live (snd (h_now ?H w)) = live w" "live (snd (h_monotonic ?H w)) = live w"
    "live (snd (h_uuid4 ?H w)) = live w" for w
    using assms by (simp_all add: counts_live_def client_harness_def)
  have proxy: "live (snd (prox name inp sid w)) = live w" if "h_proxy ?H = Some prox" for prox name inp sid w
    using that assms by (auto simp: client_harness_def counts_live_def intro!: proxy_execute_live)
  have router: "live (snd (h_router ?H rp ms tools w)) = live w" for rp ms tools w
    using assms by (simp add: client_harness_def counts_live_def router_live)
  show ?thesis
  proof
    show "keeps (live_is live n) (provision_fresh ?H B sid ag)" for B sid ag
      unfolding provision_fresh_def by (intro keeps_rules emit_live clocks basic_live)
    show "keeps (live_is live n) (in_outside (prox name inp sid))" if "h_proxy ?H = Some prox" for prox name inp sid
      using proxy[OF that] by (auto simp: keeps_def zoom_def split: prod.split) (metis snd_conv)
  qed (intro emit_live world_live clocks router basic_live)+
qed

lemma client_run_live:
  assumes "counts_live S live"
  shows "keeps (live_is live n)
    (run_session (client_harness S E c sandboxed (router_complete (client_router S))) sid)"
    (is "keeps _ (run_session ?H sid)")
proof -
  note inv = client_loop_live[OF assms, where E = E and c = c and sandboxed = sandboxed and n = n]
  note turn = loop_invariant.axioms(1)[OF inv]
  have clocks: "live (snd (h_now ?H w)) = live w" "live (snd (h_monotonic ?H w)) = live w" for w
    using assms by (simp_all add: counts_live_def client_harness_def)
  have destroy: "keeps (live_is live n) (destroy_sandboxes ?H)"
    unfolding destroy_sandboxes_def by (intro keeps_rules basic_live)
  show ?thesis unfolding run_session_def
    by (intro keeps_rules keeps_read_db turn_invariant.seed_keeps[OF turn] world_live clocks
        basic_live keeps_finallyM loop_invariant.run_loop_keeps[OF inv] destroy)
qed

text \<open>Without a sandbox the run does not touch any.\<close>

abbreviation sandbox_is :: "'b sandbox \<Rightarrow> ('b, 'w) run_state \<Rightarrow> bool" where
  "sandbox_is x s \<equiv> rt_sandbox s = x"

lemma sandbox_elsewhere [intro, simp]:
  "keeps (sandbox_is x) (worldM f)" "keeps (sandbox_is x) (in_outside m)"
  "keeps (sandbox_is x) (note_provisioned i)" "keeps (sandbox_is x) (write_db sid g)"
  "keeps (sandbox_is x) (modifyM (rt_provisioned_update h))"
  by (auto simp: keeps_def worldM_def zoom_def note_provisioned_def write_db_eq
      split: prod.split sum.split)

lemma unsandboxed_loop: "h_backend H = None \<Longrightarrow> loop_invariant H (sandbox_is x)"
  by unfold_locales (auto simp: emit_def intro: keeps_bindM)

lemma unsandboxed_run:
  assumes "h_backend H = None"
  shows "keeps (sandbox_is x) (run_session H sid)"
proof -
  note inv = unsandboxed_loop[OF assms, of x]
  have destroy: "keeps (sandbox_is x) (destroy_sandboxes H)"
    by (simp add: destroy_sandboxes_def assms)
  show ?thesis unfolding run_session_def
    by (intro keeps_rules keeps_read_db sandbox_elsewhere keeps_finallyM destroy
        turn_invariant.seed_keeps[OF loop_invariant.axioms(1)[OF inv]]
        loop_invariant.run_loop_keeps[OF inv])
qed


text \<open>A construction that fails stops the background loop when the configuration is at fault, and
  leaves its thread running when the database engine refuses the URL.\<close>

theorem failed_client_keeps_loop:
  assumes "resolve_config E url key dir path pass = Inr c" and "sv_engine S (rc_database_url c) = Inl e"
  shows "tename S E url key dir path pass sandboxed = (Inl (Inr e), Running)"
  using assms by (simp add: tename_def async_tename_def loop_start_def Let_def)

lemma created_known:
  assumes "create_session i now aid m rid d = Inr (s, d')"
  shows "session_row_of d' (se_id s) \<noteq> None"
proof (cases "\<exists>merged. insert_session i now aid merged d = Inr (s, d')")
  case True
  then show ?thesis by (auto simp: insert_session_Inr session_row_of_def find_append split: option.split)
next
  case False
  with create_session_db[OF assms] have "d' = d" by blast
  moreover from assms False obtain r where "find_session_by_request_id r DEFAULT_TENANT_ID d = Inr (Some s)"
    by (auto simp: create_session_def create_session_racing_def returns_iff Let_def
        split: option.splits sum.splits session_error.splits)
  from find_by_request_id_Some[OF this] have "\<exists>r \<in> set (sessions d). s_id r = se_id s" by auto
  then have "session_row_of d (se_id s) \<noteq> None" unfolding session_row_of_def find_None_iff by blast
  ultimately show ?thesis by simp
qed

lemma woken_known:
  assumes "wake sid d = Inr x"
  shows "session_row_of d (se_id x) \<noteq> None"
proof -
  from assms obtain r where r: "session_row_of d sid = Some r" and x: "row_to_session r = Inr x"
    by (auto simp: wake_def store_get_session_def returns_iff split: option.splits if_splits)
  have "se_id x = s_id r" using x by (auto simp: row_to_session_def split: option.splits)
  with r show ?thesis using session_row_of_SomeD[OF r] by simp
qed

lemma map_sum_Inr [returns_iff]: "map_sum f g r = Inr y \<longleftrightarrow> (\<exists>x. r = Inr x \<and> y = g x)"
  by (cases r) auto

text \<open>What a call that returns has done.\<close>

lemma answerM_outcome:
  assumes "\<And>x d'. g d = Inr (x, d') \<Longrightarrow> P x d'"
  shows "(\<exists>e. answerM f g d = (Inl e, d)) \<or> (\<exists>x d'. answerM f g d = (Inr x, d') \<and> P x d')"
  using assms by (auto simp: answerM_def split: sum.split)

lemma async_call_outcome:
  assumes "service_ok d"
  shows "(\<exists>e. async_call new_id now c d = (Inl e, d))
    \<or> (\<exists>x d'. async_call new_id now c d = (Inr x, d') \<and> service_ok d'
        \<and> (\<forall>h. x = Handle h \<longrightarrow> session_row_of d' (se_id h) \<noteq> None))"
proof -
  have create: "service_ok d'" if "create_agent i t spec d = Inr (a, d')" for i t spec a d'
    using that agent_operations_keep_service_ok[OF assms] by blast
  have delete: "service_ok d'" if "delete_agent i d = Inr d'" for i d'
    using that agent_operations_keep_service_ok[OF assms] by blast
  have insert: "service_ok d'" if "create_session i t aid m rid d = Inr (s, d')" for i t aid m rid s d'
    using create_session_db[OF that] service_ok_insert[OF assms] assms by blast
  note known = created_known woken_known
  show ?thesis
    by (cases c; simp only: async_call.simps; rule answerM_outcome)
      (auto simp: map_sum_Inr client_create_agent_def client_create_session_def client_get_session_def
        assms simp del: not_None_eq dest: create delete insert known)
qed


end
