(* ===== verification/Examples_Client.thy ===== *)
theory Examples_Client
  imports Examples_Harness Examples_Provider Examples_Vault Sdk_Client
begin

text \<open>A client over an API that says hello, a container platform and an empty tool registry. The
  world is the number of open connections and of ids drawn.\<close>

type_synonym little_world = "int \<times> nat"

definition hello_api :: "little_world anthropic_api" where
  "hello_api =
     \<lparr>ap_enter = (\<lambda>rq w. (Inr ([Content_Block_Delta 0 (Text_Part ''hello'')], None), (fst w + 1, snd w))),
      ap_exit = (\<lambda>w. (fst w - 1, snd w)), ap_sleep = (\<lambda>t w. w), ap_close = (\<lambda>w. w)\<rparr>"

definition sample_services :: "(string, tree, unit, little_world) services" where
  "sample_services =
     \<lparr>sv_engine = (\<lambda>_. Inr ()), sv_anthropic = hello_api, sv_raw_pricing = Inr [],
      sv_validate_pricing = (\<lambda>_. Inr sample_pricing), sv_validate_usage = (\<lambda>_. Inr sample_usage),
      sv_float_text = (\<lambda>_. ''0.0''), sv_docker = toy_docker, sv_race = in_time,
      sv_validate_recipe = (\<lambda>_. Inr default_recipe), sv_profile_dir = (\<lambda>_ _. None),
      sv_bundled = (\<lambda>_. Some (Some (JObj []))), sv_profile_fields = (\<lambda>_. Some scripted_profile),
      sv_profile_exn = (\<lambda>_. Exn ''ProfileError'' []), sv_crypto = toy_crypto,
      sv_vault_file = (\<lambda>_. None), sv_vault_path = (\<lambda>_. ''vault.json''), sv_registry = [],
      sv_call = (\<lambda>_ _ _. returnM (RawStr [])), sv_adapters = [(''vanilla'', Vanilla)],
      sv_now = (\<lambda>w. (9, w)), sv_monotonic = (\<lambda>w. (0, w)),
      sv_uuid4 = (\<lambda>w. (of_nat (1000 + snd w), (fst w, Suc (snd w)))),
      sv_uuid5 = (\<lambda>_. 501)\<rparr>"

definition sample_client :: "(string, tree, little_world) client" where
  "sample_client =
     \<lparr>cl_config = \<lparr>rc_database_url = ''postgresql://db'', rc_anthropic_api_key = None,
        rc_profiles_dir = None, rc_vault_path = None, rc_vault_passphrase = None\<rparr>,
      cl_sandboxed = True, cl_router = router_complete (client_router sample_services),
      cl_harness = client_harness sample_services []
        \<lparr>rc_database_url = ''postgresql://db'', rc_anthropic_api_key = None,
         rc_profiles_dir = None, rc_vault_path = None, rc_vault_passphrase = None\<rparr> True
        (router_complete (client_router sample_services))\<rparr>"

lemma sample_client_made:
  "async_tename sample_services [] (Some ''postgresql://db'') None None None None True
    = Inr (sample_client, [])"
proof -
  have "sv_engine sample_services u = Inr ()" for u by (simp add: sample_services_def)
  then show ?thesis
    by (simp add: async_tename_def resolve_config_def or_env_def export_key_def Let_def
        sample_client_def)
qed

definition client_start :: "((string, tree) docker, little_world) run_state" where
  "client_start = \<lparr>rt_db = sample_db, rt_sandbox = toy_sandbox, rt_world = (0, 0), rt_provisioned = []\<rparr>"


theorem run_session_type_sound_witness:
  "typed_db (rt_db (snd (run_session (cl_harness sample_client) 7 client_start)))"
proof -
  have "typed_db (rt_db client_start)" by code_simp
  moreover have "client_router sample_services
      = (client_router sample_services)\<lparr>mr_providers := default_providers (sv_anthropic sample_services) None\<rparr>"
    by (simp add: client_router_def)
  then have "h_router (cl_harness sample_client)
      = router_complete ((client_router sample_services)
          \<lparr>mr_providers := default_providers (sv_anthropic sample_services) None\<rparr>)"
    by (simp add: sample_client_def client_harness_def)
  ultimately show ?thesis by (rule run_session_type_sound[THEN conjunct1])
qed

text \<open>The run answers and closes the session.\<close>

lemma client_answers: "fst (run_session (cl_harness sample_client) 7 client_start) = Inr No_Tool_Calls"
  by code_simp


end
