(* ===== verification/Benchmark.thy ===== *)
theory Benchmark
  imports Sdk_Client Web_Search
begin

text \<open>
  The benchmark runner (\<open>benchmarks/run.py\<close>): a task is read from YAML, run against the Session
  Service and the harness with a user message per prompt, and its log counted and written to a
  result file. A YAML document is a JSON value; the console, the result files and the state of
  the runs make up the state. Clocks and the spelling of times and durations are parameters.
\<close>

section \<open>Tasks\<close>

record task =
  tk_id :: string
  tk_name :: string
  tk_description :: string
  tk_system_prompt :: string
  tk_framework :: string
  tk_tools :: "json list"
  tk_sandbox_recipe :: "dict option"
  tk_prompts :: "json list"
  tk_max_turns :: int
  tk_pass_criteria :: "json list"
  tk_notes :: json

text \<open>\<open>list(v)\<close>, and \<open>v.get\<close> on what must be a mapping.\<close>

fun py_list :: "json \<Rightarrow> exn + json list" where
  "py_list (JList xs) = Inr xs"
| "py_list (JStr s) = Inr (map (\<lambda>c. JStr [c]) s)"
| "py_list (JObj d) = Inr (map (\<lambda>p. JStr (fst p)) d)"
| "py_list _ = Inl (py_exn TypeError)"

fun py_mapping :: "json \<Rightarrow> exn + dict" where
  "py_mapping (JObj d) = Inr d"
| "py_mapping _ = Inl (py_exn AttributeError)"

definition read_prompts :: "dict \<Rightarrow> exn + json list" where
  "read_prompts raw =
     (case dget_or raw ''prompts'' (JList []) of
        JStr s \<Rightarrow> Inr [JStr s]
      | v \<Rightarrow> py_list v)"

definition read_recipe :: "string \<Rightarrow> dict \<Rightarrow> exn + dict option" where
  "read_recipe task_id raw =
     (case dget raw ''sandbox'' of
        JNull \<Rightarrow> Inr None
      | JObj d \<Rightarrow> Inr (Some d)
      | _ \<Rightarrow> Inl (Exn ''ValueError'' (task_id @ '': sandbox must be a mapping'')))"

definition path_join :: "string \<Rightarrow> string \<Rightarrow> string" where
  "path_join dir name = (if take 1 name = ''/'' then name else dir @ ''/'' @ name)"

text \<open>\<open>docs\<close> gives the parsed document of a task file, if there is one.\<close>

definition load_task :: "(string \<Rightarrow> (exn + json) option) \<Rightarrow> string \<Rightarrow> string \<Rightarrow> exn + task" where
  "load_task docs tasks_dir task_id =
     (let path = path_join tasks_dir (task_id @ ''.yaml'') in
      case docs path of
        None \<Rightarrow> Inl (Exn ''FileNotFoundError'' (''task file not found: '' @ path))
      | Some doc \<Rightarrow>
          bindE doc (\<lambda>v.
          bindE (py_mapping v) (\<lambda>raw.
          bindE (read_prompts raw) (\<lambda>prompts.
          if prompts = []
          then Inl (Exn ''ValueError'' (task_id @ '': prompts must be a non-empty list''))
          else bindE (read_recipe task_id raw) (\<lambda>recipe.
          case map_of raw ''id'' of
            None \<Rightarrow> Inl (py_exn (KeyError ''id''))
          | Some i \<Rightarrow>
              bindE (py_mapping (dget_or raw ''agent'' (JObj []))) (\<lambda>ag.
              bindE (py_list (dget_or ag ''tools'' (JList []))) (\<lambda>tools.
              bindE (py_int (dget_or raw ''max_turns'' (JInt 10))) (\<lambda>turns.
              bindE (py_list (dget_or raw ''pass_criteria'' (JList []))) (\<lambda>criteria.
              Inr \<lparr>tk_id = py_str i, tk_name = py_str (dget_or raw ''name'' i),
                   tk_description = py_str (dget_or raw ''description'' (JStr [])),
                   tk_system_prompt = py_str (dget_or ag ''system_prompt'' (JStr [])),
                   tk_framework = py_str (dget_or ag ''framework'' (JStr ''vanilla'')),
                   tk_tools = tools, tk_sandbox_recipe = recipe, tk_prompts = prompts,
                   tk_max_turns = turns, tk_pass_criteria = criteria,
                   tk_notes = dget raw ''notes''\<rparr>)))))))))"

definition list_tasks :: "string list \<Rightarrow> string list" where
  "list_tasks stems = sort stems"

text \<open>Looking up an unhashable value in a set raises.\<close>

fun any_sandbox_tool :: "json list \<Rightarrow> exn + bool" where
  "any_sandbox_tool [] = Inr False"
| "any_sandbox_tool (JList xs # vs) = Inl (py_exn TypeError)"
| "any_sandbox_tool (JObj d # vs) = Inl (py_exn TypeError)"
| "any_sandbox_tool (v # vs) =
     (if list_ex (\<lambda>n. v = JStr n) [''bash'', ''python'', ''file_read'', ''file_write'', ''file_edit'', ''file_list'']
      then Inr True else any_sandbox_tool vs)"

definition task_needs_sandbox :: "task \<Rightarrow> exn + bool" where
  "task_needs_sandbox t =
     (if (case tk_sandbox_recipe t of None \<Rightarrow> False | Some d \<Rightarrow> d \<noteq> []) then Inr True
      else any_sandbox_tool (tk_tools t))"

section \<open>Running the prompts\<close>

text \<open>The row of \<open>_insert_agent\<close>. A table row is an agent with a list of strings for its tools; a task
  with other tools is refused here, and by the code when the harness reads the agent.\<close>

definition task_agent :: "uuid \<Rightarrow> int \<Rightarrow> task \<Rightarrow> string \<Rightarrow> sdk_error + agent" where
  "task_agent i now t profile =
     bindE (text_param (''bench-'' @ tk_id t)) (\<lambda>name.
     bindE (text_param profile) (\<lambda>model.
     bindE (text_param (tk_framework t)) (\<lambda>framework.
     bindE (optE text_param (if tk_system_prompt t = [] then None else Some (tk_system_prompt t)))
       (\<lambda>prompt.
     bindE (jsonb (json_dumps True (JList (tk_tools t)))) (\<lambda>tools.
     bindE (optE (\<lambda>d. jsonb (json_dumps True (JObj d))) (tk_sandbox_recipe t)) (\<lambda>recipe.
     row_to_agent
       \<lparr>ar_id = i, ar_name = name, ar_model = model, ar_framework = framework,
        ar_system_prompt = prompt, ar_tools = tools, ar_sandbox_recipe = recipe,
        ar_created_at = now\<rparr>))))))"

definition insert_agent :: "('b, 'w) harness \<Rightarrow> task \<Rightarrow> string \<Rightarrow> ('b, 'w, uuid) run" where
  "insert_agent H t profile =
     bindM (worldM (h_uuid4 H)) (\<lambda>i.
     bindM (worldM (h_now H)) (\<lambda>now.
     bindM getM (\<lambda>s.
     bindM (orRaise (sdk_exn i)
              (if has_agent (rt_db s) i then Inl (DriverError IntegrityError)
               else task_agent i now t profile)) (\<lambda>a.
     bindM (modifyM (rt_db_update (\<lambda>d. d\<lparr>agents := agents d @ [a]\<rparr>))) (\<lambda>_.
     returnM i)))))"

text \<open>\<open>create_session(agent_id)\<close>; the database draws the id of the session.\<close>

definition open_session :: "('b, 'w) harness \<Rightarrow> uuid \<Rightarrow> ('b, 'w, uuid) run" where
  "open_session H aid =
     bindM (worldM (h_uuid4 H)) (\<lambda>i.
     bindM (worldM (h_now H)) (\<lambda>now.
     bindM (write_db i (create_session i now aid None None)) (\<lambda>session.
     returnM (se_id session))))"

definition reactivate_session :: "uuid \<Rightarrow> ('b, 'w, unit) run" where
  "reactivate_session sid = modifyM (rt_db_update (update_session_status sid ACTIVE))"

definition run_prompt :: "('b, 'w) harness \<Rightarrow> uuid \<Rightarrow> json \<Rightarrow> bool \<Rightarrow> ('b, 'w, unit) run" where
  "run_prompt H sid prompt again =
     bindM (worldM (h_uuid4 H)) (\<lambda>eid.
     bindM (emit H sid eid USER_MESSAGE [(''content'', prompt)]) (\<lambda>_.
     bindM (run_session H sid) (\<lambda>_.
     if again then reactivate_session sid else returnM ())))"

fun run_prompts :: "('b, 'w) harness \<Rightarrow> uuid \<Rightarrow> json list \<Rightarrow> ('b, 'w, unit) run" where
  "run_prompts H sid [] = returnM ()"
| "run_prompts H sid (p # ps) =
     bindM (run_prompt H sid p (ps \<noteq> [])) (\<lambda>_. run_prompts H sid ps)"

definition count_turns :: "event list \<Rightarrow> nat \<times> nat \<times> nat" where
  "count_turns es =
     (length (filter (\<lambda>e. ev_type e = USER_MESSAGE) es),
      length (filter (\<lambda>e. ev_type e = ASSISTANT_MESSAGE
        \<and> truthy (dget (ev_payload e) ''is_complete'')) es),
      length (filter (\<lambda>e. ev_type e = TOOL_CALL) es))"

definition run_body :: "('b, 'w) harness \<Rightarrow> task \<Rightarrow> string \<Rightarrow> ('b, 'w, uuid \<times> uuid \<times> event list) run" where
  "run_body H t profile =
     bindM (insert_agent H t profile) (\<lambda>aid.
     bindM (open_session H aid) (\<lambda>sid.
     bindM (run_prompts H sid (tk_prompts t)) (\<lambda>_.
     bindM (read_db sid (get_events sid None None None 10000)) (\<lambda>es.
     returnM (sid, aid, es)))))"

section \<open>What the user said\<close>

text \<open>The random ids of the prompts are new in the log of the session, at each prompt.\<close>

fun fresh_prompts :: "('b, 'w) harness \<Rightarrow> uuid \<Rightarrow> json list \<Rightarrow> ('b, 'w) run_state \<Rightarrow> bool" where
  "fresh_prompts H sid [] s \<longleftrightarrow> True"
| "fresh_prompts H sid (p # ps) s \<longleftrightarrow>
     fst (h_uuid4 H (rt_world s)) \<notin> set (map e_id (session_log (rt_db s) sid))
     \<and> fresh_prompts H sid ps (snd (run_prompt H sid p (ps \<noteq> []) s))"

definition said :: "db \<Rightarrow> uuid \<Rightarrow> dict list" where
  "said d sid = map e_payload (user_rows d sid)"

lemma emit_said:
  assumes "emit H sid eid USER_MESSAGE p s = (Inr e, s')" "service_ok (rt_db s)"
    "eid \<notin> set (map e_id (session_log (rt_db s) sid))"
  shows "service_ok (rt_db s') \<and> said (rt_db s') sid = said (rt_db s) sid @ [p]
    \<and> session_row_of (rt_db s') sid \<noteq> None"
proof -
  obtain now w where "h_now H (rt_world s) = (now, w)" by (cases "h_now H (rt_world s)")
  with assms(1) obtain d where e: "emit_event now sid eid USER_MESSAGE p (rt_db s) = Inr (e, d)"
    and s': "rt_db s' = d"
    by (auto simp: emit_def worldM_def bindM_def write_db_eq split: prod.splits sum.splits)
  have "find_event_by_id sid eid (rt_db s) = Inr None" using assms(3) by (auto simp: find_event_None)
  with e obtain n where d: "d = appended now sid eid USER_MESSAGE p n (rt_db s)"
    and row: "session_row_of (rt_db s) sid \<noteq> None"
    by (auto simp: emit_event_Inr)
  have "service_step (EmitEvent now sid eid USER_MESSAGE p) (rt_db s) = Inr d" by (simp add: e)
  from service_step_ok[OF assms(2) this] d row show ?thesis by (simp add: s' said_def user_rows_def)
qed

lemma reactivate_ok: "service_ok d \<Longrightarrow> service_ok (update_session_status sid ACTIVE d)"
  unfolding update_session_status_def
  by (rule service_ok_status_update) (simp_all del: status_value.simps)

lemma reactivate_said: "said (update_session_status sid ACTIVE d) k = said d k"
  by (simp add: said_def user_rows_def update_session_status_def)

lemma run_keeps:
  assumes "run_session H sid s = (r, s')" "service_ok (rt_db s)"
  shows "service_ok (rt_db s') \<and> said (rt_db s') sid = said (rt_db s) sid"
proof -
  have "grows (rt_db s) s'"
    using keepsD[OF grows_run_session[where d = "rt_db s" and H = H and sid = sid], of s] assms(1) by (simp add: grows_refl)
  moreover have "user_rows (rt_db s') sid = user_rows (rt_db s) sid"
    using keepsD[OF heard_run[where k = sid and H = H and sid = sid and us = "user_rows (rt_db s) sid"], of s]
      assms(1) by simp
  ultimately show ?thesis using grows_ok[OF assms(2)] by (simp add: said_def)
qed

lemma run_prompt_said:
  assumes "run_prompt H sid p again s = (Inr (), s')" "service_ok (rt_db s)"
    "fst (h_uuid4 H (rt_world s)) \<notin> set (map e_id (session_log (rt_db s) sid))"
  shows "service_ok (rt_db s') \<and> said (rt_db s') sid = said (rt_db s) sid @ [[(''content'', p)]]"
proof -
  obtain eid w where id: "h_uuid4 H (rt_world s) = (eid, w)" by (cases "h_uuid4 H (rt_world s)")
  let ?s = "s\<lparr>rt_world := w\<rparr>"
  from assms(1) id obtain e s1 r s2 where
    emit: "emit H sid eid USER_MESSAGE [(''content'', p)] ?s = (Inr e, s1)"
    and run: "run_session H sid s1 = (Inr r, s2)"
    and rest: "(if again then reactivate_session sid else returnM ()) s2 = (Inr (), s')"
    by (auto simp: run_prompt_def returns_iff worldM_def)
  have s1: "service_ok (rt_db s1)" "said (rt_db s1) sid = said (rt_db s) sid @ [[(''content'', p)]]"
    using emit_said[OF emit] assms(2,3) id by simp_all
  have "service_ok (rt_db s2)" "said (rt_db s2) sid = said (rt_db s1) sid"
    using run_keeps[OF run s1(1)] by simp_all
  with rest s1(2) show ?thesis
    by (cases again) (auto simp: reactivate_session_def reactivate_ok reactivate_said)
qed

lemma run_prompts_said:
  assumes "run_prompts H sid ps s = (Inr (), s')" "service_ok (rt_db s)" "fresh_prompts H sid ps s"
  shows "service_ok (rt_db s') \<and> said (rt_db s') sid = said (rt_db s) sid @ map (\<lambda>p. [(''content'', p)]) ps"
  using assms
proof (induction ps arbitrary: s)
  case (Cons p ps)
  then obtain s1 where one: "run_prompt H sid p (ps \<noteq> []) s = (Inr (), s1)"
    and rest: "run_prompts H sid ps s1 = (Inr (), s')"
    by (auto simp: returns_iff)
  have "service_ok (rt_db s1) \<and> said (rt_db s1) sid = said (rt_db s) sid @ [[(''content'', p)]]"
    using run_prompt_said[OF one] Cons.prems by simp
  with Cons.IH[OF rest] Cons.prems(3) one show ?case by simp
qed simp

lemma insert_agent_ok:
  assumes "insert_agent H t profile s = (Inr aid, s1)" "service_ok (rt_db s)"
  shows "service_ok (rt_db s1)"
proof -
  from assms(1) obtain a where s1: "rt_db s1 = rt_db s\<lparr>agents := agents (rt_db s) @ [a]\<rparr>"
    by (auto simp: insert_agent_def returns_iff worldM_def orRaise_def split: prod.splits sum.splits if_splits)
  have "\<forall>r \<in> set (sessions (rt_db s)). has_agent (rt_db s) (s_agent_id r)"
    using assms(2) by (simp add: service_ok_def)
  then show ?thesis unfolding s1 using service_ok_agents[OF assms(2)] by (auto simp: has_agent_def)
qed

lemma open_session_ok:
  assumes "open_session H aid s = (Inr sid, s1)" "service_ok (rt_db s)"
  shows "service_ok (rt_db s1) \<and> said (rt_db s1) sid = []"
proof -
  from assms(1) obtain i now session d where
    c: "create_session i now aid None None (rt_db s) = Inr (session, d)"
    and s1: "rt_db s1 = d" and sid: "sid = se_id session"
    by (auto simp: open_session_def returns_iff worldM_def write_db_eq split: prod.splits sum.splits)
  have ins: "insert_session i now aid [] (rt_db s) = Inr (session, d)"
    using c by (auto simp: create_session_def create_session_racing_def merge_metadata_def Let_def
        returns_iff split: sum.splits session_error.splits)
  then have "sid = i" "session_row_of (rt_db s) i = None" "session_log d i = session_log (rt_db s) i"
    by (auto simp: insert_session_Inr sid)
  with log_empty_if_absent[OF assms(2)] service_ok_insert[OF assms(2) ins]
  show ?thesis by (simp add: s1 said_def user_rows_def)
qed

lemma read_all:
  assumes "service_ok d" "length (session_log d sid) \<le> 10000" "get_events sid None None None 10000 d = Inr es"
  shows "es = log_events d sid"
proof -
  have "get_events sid None None None 10000 d = get_events sid (Some 1) None None 10000 d"
    by (simp add: get_events_def)
  then have "rows_to_events (session_log d sid) = Inr es"
    using assms get_events_from[OF assms(1), of 1 10000 sid] by simp
  then show ?thesis by (simp add: log_events_def)
qed

lemma user_events:
  assumes "service_ok d"
  shows "map ev_payload (filter (\<lambda>e. ev_type e = USER_MESSAGE) (log_events d sid)) = said d sid"
proof -
  have "list_all2 (\<lambda>r e. row_to_event r = Inr e) rs es \<Longrightarrow>
      map ev_payload (filter (\<lambda>e. ev_type e = USER_MESSAGE) es)
      = map e_payload (filter (\<lambda>r. e_type r = event_type_value USER_MESSAGE) rs)" for rs es
    by (induction rule: list_all2_induct)
      (auto dest!: row_to_event_fields simp del: event_type_value.simps)
  from this[OF log_events(2)[OF assms]] show ?thesis by (simp add: said_def user_rows_def)
qed

text \<open>C26. What a benchmark reports was asked: when a task has run to its end and its log fits the
  10,000 events that one read returns, the events reported are the whole log of the new
  session, its user messages are the prompts of the task in their order and nothing else, and
  the reported number of user turns is the number of prompts, whatever the model and the
  tools did between them.\<close>

theorem benchmark_asks_every_prompt:
  assumes "run_body H t profile s = (Inr (sid, aid, es), s')" and "service_ok (rt_db s)"
    and "fresh_prompts H sid (tk_prompts t) (snd (open_session H aid (snd (insert_agent H t profile s))))"
    and "length (session_log (rt_db s') sid) \<le> 10000"
  shows "es = log_events (rt_db s') sid
    \<and> map ev_payload (filter (\<lambda>e. ev_type e = USER_MESSAGE) es) = map (\<lambda>p. [(''content'', p)]) (tk_prompts t)
    \<and> fst (count_turns es) = length (tk_prompts t)"
proof -
  from assms(1) obtain s1 s2 where s1: "insert_agent H t profile s = (Inr aid, s1)"
    and s2: "open_session H aid s1 = (Inr sid, s2)"
    and run: "run_prompts H sid (tk_prompts t) s2 = (Inr (), s')"
    and read: "get_events sid None None None 10000 (rt_db s') = Inr es"
    by (auto simp: run_body_def returns_iff read_db_eq split: sum.splits)
  have ok: "service_ok (rt_db s2) \<and> said (rt_db s2) sid = []"
    by (rule open_session_ok[OF s2 insert_agent_ok[OF s1 assms(2)]])
  with run_prompts_said[OF run] assms(3) have said: "service_ok (rt_db s')"
    "said (rt_db s') sid = map (\<lambda>p. [(''content'', p)]) (tk_prompts t)"
    by (simp_all add: s1 s2)
  have es: "es = log_events (rt_db s') sid" by (rule read_all[OF said(1) assms(4) read])
  moreover have heard: "map ev_payload (filter (\<lambda>e. ev_type e = USER_MESSAGE) es)
      = map (\<lambda>p. [(''content'', p)]) (tk_prompts t)"
    unfolding es user_events[OF said(1)] by (rule said(2))
  moreover have "fst (count_turns es) = length (tk_prompts t)"
    using arg_cong[OF heard, of length] by (simp only: count_turns_def fst_conv length_map)
  ultimately show ?thesis by blast
qed

section \<open>Results\<close>

record task_result =
  rs_task_id :: string
  rs_task_name :: string
  rs_profile :: string
  rs_started_at :: string
  rs_duration_seconds :: json
  rs_session_id :: string
  rs_agent_id :: string
  rs_num_user_turns :: nat
  rs_num_assistant_turns :: nat
  rs_num_tool_calls :: nat
  rs_events :: "json list"
  rs_pass_criteria :: "json list"

text \<open>What the runner takes from outside: the spelling of times, dates and durations, whether a file
  can be written, \<open>repr\<close> of an exception, and the task files.\<close>

record outside =
  os_isoformat :: "int \<Rightarrow> string"
  os_date :: "int \<Rightarrow> string"
  os_rounded :: "rat \<Rightarrow> string"
  os_tenths :: "json \<Rightarrow> string"
  os_write_error :: "string \<Rightarrow> exn option"
  os_repr :: "exn \<Rightarrow> string"
  os_docs :: "string \<Rightarrow> (exn + json) option"
  os_tasks_dir :: string
  os_stems :: "string list"

record ('h, 'x, 'w) bench =
  bn_run :: "(('h, 'x) docker, 'w) run_state"
  bn_files :: "(string \<times> json) list"
  bn_out :: "string list"
  bn_err :: "string list"

definition summarize_event :: "outside \<Rightarrow> event \<Rightarrow> json" where
  "summarize_event Os e =
     JObj [(''sequence'', JInt (ev_sequence e)), (''id'', JStr (uuid_str (ev_id e))),
           (''type'', JStr (event_type_value (ev_type e))), (''payload'', JObj (ev_payload e)),
           (''created_at'', JStr (os_isoformat Os (ev_created_at e)))]"

definition ungraded :: "json \<Rightarrow> json" where
  "ungraded c = JObj [(''criterion'', c), (''pass'', JNull), (''notes'', JStr [])]"

definition make_result ::
  "outside \<Rightarrow> task \<Rightarrow> string \<Rightarrow> int \<Rightarrow> rat \<Rightarrow> uuid \<Rightarrow> uuid \<Rightarrow> event list \<Rightarrow> task_result" where
  "make_result Os t profile started duration sid aid es =
     (case count_turns es of (user, assistant, calls) \<Rightarrow>
        \<lparr>rs_task_id = tk_id t, rs_task_name = tk_name t, rs_profile = profile,
         rs_started_at = os_isoformat Os started,
         rs_duration_seconds = JFloat (os_rounded Os duration),
         rs_session_id = uuid_str sid, rs_agent_id = uuid_str aid, rs_num_user_turns = user,
         rs_num_assistant_turns = assistant, rs_num_tool_calls = calls,
         rs_events = map (summarize_event Os) es,
         rs_pass_criteria = map ungraded (tk_pass_criteria t)\<rparr>)"

definition result_path :: "outside \<Rightarrow> string \<Rightarrow> string \<Rightarrow> int \<Rightarrow> task_result \<Rightarrow> string" where
  "result_path Os dir profile started r =
     path_join dir (profile @ ''-'' @ os_date Os started @ ''-'' @ rs_task_id r @ ''.json'')"

definition report_payload :: "task_result \<Rightarrow> json" where
  "report_payload r =
     JObj [(''task_id'', JStr (rs_task_id r)), (''task_name'', JStr (rs_task_name r)),
       (''profile'', JStr (rs_profile r)), (''started_at'', JStr (rs_started_at r)),
       (''duration_seconds'', rs_duration_seconds r), (''session_id'', JStr (rs_session_id r)),
       (''agent_id'', JStr (rs_agent_id r)),
       (''counts'', JObj [(''user_turns'', JInt (int (rs_num_user_turns r))),
          (''assistant_turns'', JInt (int (rs_num_assistant_turns r))),
          (''tool_calls'', JInt (int (rs_num_tool_calls r)))]),
       (''pass_criteria'', JList (rs_pass_criteria r)),
       (''overall'', JObj [(''pass'', JNull), (''notes'', JStr [])]),
       (''graded_by'', JStr []), (''graded_at'', JStr []), (''events'', JList (rs_events r))]"

definition write_result ::
  "outside \<Rightarrow> string \<Rightarrow> string \<Rightarrow> int \<Rightarrow> task_result \<Rightarrow> (('h, 'x, 'w) bench, unit) prog" where
  "write_result Os dir profile started r =
     (let path = result_path Os dir profile started r in
      case os_write_error Os path of
        Some e \<Rightarrow> raiseM e
      | None \<Rightarrow> modifyM (bn_files_update (AList.update path (report_payload r))))"

abbreviation in_run :: "(('h, 'x) docker, 'w, 'a) run \<Rightarrow> (('h, 'x, 'w) bench, 'a) prog" where
  "in_run \<equiv> zoom bn_run (\<lambda>x. bn_run_update (\<lambda>_. x))"

text \<open>The runtime of a task: a harness over a new sandbox service and Docker backend, with the default
  router, vault, proxy and bundled profiles. What a new backend knows is empty; the Docker
  daemon and the database are those of the run before.\<close>

definition bench_harness ::
  "('h, 'x, 'f, 'w) services \<Rightarrow> environ \<Rightarrow> string \<Rightarrow> bool \<Rightarrow> (('h, 'x) docker, 'w) harness" where
  "bench_harness S E url enable_sandbox =
     client_harness S E
       \<lparr>rc_database_url = url, rc_anthropic_api_key = None, rc_profiles_dir = None,
        rc_vault_path = None, rc_vault_passphrase = None\<rparr>
       enable_sandbox (router_complete (client_router S))"

definition new_sandbox :: "(('h, 'x) docker, 'w) run_state \<Rightarrow> (('h, 'x) docker, 'w) run_state" where
  "new_sandbox s =
     s\<lparr>rt_sandbox := \<lparr>sb_status = Map.empty, sb_backend =
         \<lparr>dk_containers = Map.empty, dk_recipes = Map.empty,
          dk_world = dk_world (sb_backend (rt_sandbox s))\<rparr>\<rparr>, rt_provisioned := []\<rparr>"

text \<open>\<open>engine\<close> is what making a database engine for the URL gives; it comes before everything else.\<close>

definition run_task ::
  "outside \<Rightarrow> exn + unit \<Rightarrow> (('h, 'x) docker, 'w) harness \<Rightarrow> string \<Rightarrow> string \<Rightarrow> task
    \<Rightarrow> (('h, 'x, 'w) bench, task_result) prog" where
  "run_task Os engine H profile dir t =
     (case engine of
        Inl e \<Rightarrow> raiseM e
      | Inr _ \<Rightarrow>
     bindM (modifyM (bn_run_update new_sandbox)) (\<lambda>_.
     bindM (in_run (worldM (h_now H))) (\<lambda>started.
     bindM (in_run (worldM (h_monotonic H))) (\<lambda>t0.
     bindM (in_run (run_body H t profile)) (\<lambda>(sid, aid, es).
     bindM (in_run (worldM (h_monotonic H))) (\<lambda>t1.
     let r = make_result Os t profile started (t1 - t0) sid aid es in
     bindM (write_result Os dir profile started r) (\<lambda>_. returnM r)))))))"

section \<open>The command\<close>

definition say :: "string \<Rightarrow> (('h, 'x, 'w) bench, unit) prog" where
  "say line = modifyM (bn_out_update (\<lambda>ls. ls @ [line]))"

definition complain :: "string \<Rightarrow> (('h, 'x, 'w) bench, unit) prog" where
  "complain line = modifyM (bn_err_update (\<lambda>ls. ls @ [line]))"

definition print_result_summary :: "outside \<Rightarrow> task_result \<Rightarrow> (('h, 'x, 'w) bench, unit) prog" where
  "print_result_summary Os r =
     forM say
       ([[CHR 0x0A] @ ''=== '' @ rs_task_id r @ '': '' @ rs_task_name r @ '' ==='',
         ''  profile:           '' @ rs_profile r,
         ''  duration:          '' @ os_tenths Os (rs_duration_seconds r) @ ''s'',
         ''  user turns:        '' @ int_str (int (rs_num_user_turns r)),
         ''  assistant turns:   '' @ int_str (int (rs_num_assistant_turns r)),
         ''  tool calls:        '' @ int_str (int (rs_num_tool_calls r)),
         ''  pass criteria:'']
        @ map (\<lambda>c. case c of JObj d \<Rightarrow> ''    - [ ] '' @ py_str (dget d ''criterion'') | _ \<Rightarrow> [])
            (rs_pass_criteria r))"

record bench_args =
  ba_task :: "string option"
  ba_profile :: string
  ba_output_dir :: string
  ba_skip_sandbox :: bool

text \<open>One task: nothing when it is skipped or fails, its result when it has been written.\<close>

definition bench_task ::
  "outside \<Rightarrow> exn + unit \<Rightarrow> (('h, 'x) docker, 'w) harness \<Rightarrow> bench_args \<Rightarrow> string
    \<Rightarrow> (('h, 'x, 'w) bench, task_result option) prog" where
  "bench_task Os engine H args task_id =
     bindM (orRaise id (load_task (os_docs Os) (os_tasks_dir Os) task_id)) (\<lambda>t.
     bindM (if ba_skip_sandbox args then orRaise id (task_needs_sandbox t) else returnM False) (\<lambda>skip.
     if skip
     then bindM (say (''skipping '' @ task_id @ '': requires sandbox (rerun without --skip-sandbox)''))
            (\<lambda>_. returnM None)
     else
       bindM (say ([CHR 0x0A] @ ''--- Running '' @ task_id @ '' ('' @ tk_name t @ '') ---'')) (\<lambda>_.
       bindM (tryM (bindM (run_task Os engine H (ba_profile args) (ba_output_dir args) t)
                      (\<lambda>r. returnM (Some r)))
                (\<lambda>e. bindM (complain (''error running '' @ task_id @ '': '' @ os_repr Os e))
                        (\<lambda>_. returnM None))) (\<lambda>done.
       case done of
         None \<Rightarrow> returnM None
       | Some r \<Rightarrow> bindM (print_result_summary Os r) (\<lambda>_. returnM (Some r))))))"

fun bench_tasks ::
  "outside \<Rightarrow> exn + unit \<Rightarrow> (('h, 'x) docker, 'w) harness \<Rightarrow> bench_args \<Rightarrow> string list
    \<Rightarrow> (('h, 'x, 'w) bench, task_result list) prog" where
  "bench_tasks Os engine H args [] = returnM []"
| "bench_tasks Os engine H args (i # is) =
     bindM (bench_task Os engine H args i) (\<lambda>r.
     bindM (bench_tasks Os engine H args is) (\<lambda>rs.
     returnM (case r of None \<Rightarrow> rs | Some x \<Rightarrow> x # rs)))"

definition main_async ::
  "outside \<Rightarrow> ('h, 'x, 'f, 'w) services \<Rightarrow> environ \<Rightarrow> string \<Rightarrow> bench_args
    \<Rightarrow> (('h, 'x, 'w) bench, int) prog" where
  "main_async Os S E url args =
     (if map_of E ANTHROPIC_API_KEY_ENV \<in> {None, Some []}
      then bindM (complain ''error: ANTHROPIC_API_KEY must be set'') (\<lambda>_. returnM 2)
      else
        bindM (bench_tasks Os (sv_engine S url) (bench_harness S E url (\<not> ba_skip_sandbox args)) args
                 (case ba_task args of None \<Rightarrow> list_tasks (os_stems Os) | Some i \<Rightarrow> [i])) (\<lambda>rs.
        bindM (say ([CHR 0x0A] @ ''Wrote '' @ int_str (int (length rs)) @ '' result file(s) to ''
                 @ ba_output_dir args @ ''/'')) (\<lambda>_.
        returnM (if rs \<noteq> [] then 0 else 1))))"

section \<open>What the exit code says\<close>

lemma zoom_run_files: "in_run m s = (r, s') \<Longrightarrow> bn_files s' = bn_files s \<and> bn_out s' = bn_out s"
  by (auto simp: zoom_def split: prod.splits)

lemma write_result_files:
  "write_result Os dir profile started r s = (x, s') \<Longrightarrow>
     case x of Inl e \<Rightarrow> bn_files s' = bn_files s
     | Inr _ \<Rightarrow> bn_files s' = AList.update (result_path Os dir profile started r) (report_payload r) (bn_files s)"
  by (auto simp: write_result_def Let_def split: option.splits)

lemma run_task_files:
  assumes "run_task Os engine H profile dir t s = (x, s')"
  shows "case x of Inl e \<Rightarrow> bn_files s' = bn_files s
    | Inr r \<Rightarrow> \<exists>path. bn_files s' = AList.update path (report_payload r) (bn_files s)"
proof (cases engine)
  case (Inl e)
  with assms show ?thesis by (auto simp: run_task_def)
next
  case (Inr u)
  with assms show ?thesis
    by (auto simp: run_task_def bindM_def Let_def split: prod.splits sum.splits
        dest!: zoom_run_files write_result_files)
qed

lemma say_eq: "say l s = (Inr (), s\<lparr>bn_out := bn_out s @ [l]\<rparr>)"
  "complain l s = (Inr (), s\<lparr>bn_err := bn_err s @ [l]\<rparr>)"
  by (simp_all add: say_def complain_def)

lemma forM_say: "forM say ls s = (Inr (), s\<lparr>bn_out := bn_out s @ ls\<rparr>)"
  by (induction ls arbitrary: s) (simp_all add: say_eq)

text \<open>A task raises only when its file cannot be read as a task; and it writes a file exactly when it
  gives a result.\<close>

definition unreadable :: "outside \<Rightarrow> string \<Rightarrow> exn \<Rightarrow> bool" where
  "unreadable Os i e \<longleftrightarrow>
     load_task (os_docs Os) (os_tasks_dir Os) i = Inl e
     \<or> (\<exists>t. load_task (os_docs Os) (os_tasks_dir Os) i = Inr t \<and> task_needs_sandbox t = Inl e)"

lemma bench_task_outcome:
  assumes "bench_task Os engine H args i s = (x, s')"
  shows "case x of Inl e \<Rightarrow> unreadable Os i e
    | Inr None \<Rightarrow> bn_files s' = bn_files s
    | Inr (Some r) \<Rightarrow> \<exists>path. bn_files s' = AList.update path (report_payload r) (bn_files s)"
proof (cases "load_task (os_docs Os) (os_tasks_dir Os) i")
  case (Inl e)
  with assms show ?thesis by (auto simp: bench_task_def orRaise_def bindM_def unreadable_def)
next
  case (Inr t)
  show ?thesis
  proof (cases "run_task Os engine H (ba_profile args) (ba_output_dir args) t
      (s\<lparr>bn_out := bn_out s @ [[CHR 0x0A] @ ''--- Running '' @ i @ '' ('' @ tk_name t @ '') ---'']\<rparr>)")
    case (Pair y s1)
    note files = run_task_files[OF Pair]
    from assms Inr Pair files show ?thesis
      by (cases y)
        (auto simp: bench_task_def orRaise_def bindM_def tryM_def say_eq forM_say print_result_summary_def
          unreadable_def split: if_splits sum.splits)
  qed
qed

lemma bench_tasks_outcome:
  assumes "bench_tasks Os engine H args is s = (x, s')"
  shows "case x of Inl e \<Rightarrow> \<exists>i \<in> set is. unreadable Os i e
    | Inr rs \<Rightarrow> \<exists>paths. length paths = length rs \<and> bn_files s'
        = foldl (\<lambda>fs (p, r). AList.update p (report_payload r) fs) (bn_files s) (zip paths rs)"
  using assms
proof (induction "is" arbitrary: s x s')
  case Nil
  then show ?case by auto
next
  case (Cons i "is")
  obtain y s1 where one: "bench_task Os engine H args i s = (y, s1)" by (cases "bench_task Os engine H args i s")
  note head = bench_task_outcome[OF one]
  show ?case
  proof (cases y)
    case (Inl e)
    with Cons.prems one head show ?thesis by (auto simp: bindM_def)
  next
    case (Inr r)
    obtain z s2 where two: "bench_tasks Os engine H args is s1 = (z, s2)" by (cases "bench_tasks Os engine H args is s1")
    note tail = Cons.IH[OF two]
    show ?thesis
    proof (cases z)
      case (Inl e)
      with Cons.prems one Inr two tail show ?thesis by (auto simp: bindM_def)
    next
      case tl: (Inr rs)
      with tail obtain paths where ps: "length paths = length rs" "bn_files s2
          = foldl (\<lambda>fs (p, r). AList.update p (report_payload r) fs) (bn_files s1) (zip paths rs)"
        by auto
      from Cons.prems one Inr two tl
      have x: "x = Inr (case r of None \<Rightarrow> rs | Some a \<Rightarrow> a # rs)" "s' = s2" by (auto simp: bindM_def)
      show ?thesis
      proof (cases r)
        case None
        with head Inr ps x show ?thesis by auto
      next
        case (Some a)
        with head Inr obtain path where
          "bn_files s1 = AList.update path (report_payload a) (bn_files s)" by auto
        with ps x Some show ?thesis by (auto intro!: exI[of _ "path # paths"])
      qed
    qed
  qed
qed

text \<open>The exit code of the runner is honest. It is 2 exactly without an API key, and then nothing
  ran; otherwise it is 0 exactly when at least one result was written, the files that changed
  are those of the results, and the number of them is what the last line reports. A task that
  fails is reported and the others run on; only a task file that cannot be read ends the
  command with an exception.\<close>

theorem benchmark_exit_honest:
  assumes "main_async Os S E url args s = (x, s')"
  shows "case x of
      Inl e \<Rightarrow> \<exists>i. unreadable Os i e
    | Inr code \<Rightarrow>
        if map_of E ANTHROPIC_API_KEY_ENV \<in> {None, Some []} then code = 2 \<and> bn_run s' = bn_run s \<and> bn_files s' = bn_files s
        else \<exists>paths rs. length paths = length rs \<and> code = (if rs = [] then 1 else 0)
          \<and> bn_files s' = foldl (\<lambda>fs (p, r). AList.update p (report_payload r) fs) (bn_files s) (zip paths rs)
          \<and> last (bn_out s') = [CHR 0x0A] @ ''Wrote '' @ int_str (int (length rs))
              @ '' result file(s) to '' @ ba_output_dir args @ ''/''"
proof (cases "map_of E ANTHROPIC_API_KEY_ENV \<in> {None, Some []}")
  case True
  with assms show ?thesis by (auto simp: main_async_def say_eq)
next
  case False
  define ids where "ids = (case ba_task args of None \<Rightarrow> list_tasks (os_stems Os) | Some i \<Rightarrow> [i])"
  obtain y s1 where run: "bench_tasks Os (sv_engine S url) (bench_harness S E url (\<not> ba_skip_sandbox args)) args ids s = (y, s1)"
    by (cases "bench_tasks Os (sv_engine S url) (bench_harness S E url (\<not> ba_skip_sandbox args)) args ids s")
  note out = bench_tasks_outcome[OF run]
  show ?thesis
  proof (cases y)
    case (Inl e)
    have "x = Inl e" using assms False run Inl by (auto simp: main_async_def ids_def)
    with out Inl show ?thesis by auto
  next
    case (Inr rs)
    have "x = Inr (if rs \<noteq> [] then 0 else 1)" "bn_files s' = bn_files s1"
      "last (bn_out s') = [CHR 0x0A] @ ''Wrote '' @ int_str (int (length rs))
          @ '' result file(s) to '' @ ba_output_dir args @ ''/''"
      using assms False run Inr by (auto simp: main_async_def ids_def say_eq)
    with out Inr False show ?thesis by auto
  qed
qed

text \<open>The turn limit of a task is read and never used: the harness stops at that of the profile.\<close>

theorem task_turn_limit_ignored:
  "run_body H (t\<lparr>tk_max_turns := n\<rparr>) profile = run_body H t profile"
proof -
  have "task_agent i now (t\<lparr>tk_max_turns := n\<rparr>) profile = task_agent i now t profile" for i now
    by (simp add: task_agent_def)
  then show ?thesis by (simp add: run_body_def insert_agent_def cong: if_cong)
qed

end
