(* ===== verification/Db_Schema.thy ===== *)
theory Db_Schema
  imports Sdk_Agents
begin

text \<open>
  The database schema (\<open>db\<close>): the tables \<open>sessions/schema.py\<close> declares, the migrations under
  \<open>db/migrations/versions\<close> that build them, and what a catalogue of tables and indexes makes of
  a statement and of a row. The meaning of a statement and of a constraint is PostgreSQL's. The
  queries of \<open>Session_Store\<close> and \<open>Sdk_Agents\<close> write their constraints out by hand; here they are
  shown to be those of the migrated catalogue.
\<close>

section \<open>Tables as the source writes them\<close>

datatype sql_type = UUID | TEXT | INTEGER | JSONB | TIMESTAMPTZ

datatype on_delete = RESTRICT | CASCADE

datatype column_option =
    Primary_Key
  | Nullable bool
  | Server_Default string
  | Foreign_Key string on_delete

datatype table_item =
    Column string sql_type "column_option list"
  | PrimaryKeyConstraint "string list" string
  | UniqueConstraint "string list" string
  | Index string "string list"

definition quoted :: "string \<Rightarrow> string" where
  "quoted s = CHR 0x27 # s @ [CHR 0x27]"

section \<open>The declared metadata\<close>

text \<open>\<open>sessions/schema.py\<close>, with the types it has on PostgreSQL.\<close>

definition SCHEMA_TENANT_ID :: string where
  "SCHEMA_TENANT_ID = ''00000000-0000-0000-0000-000000000000''"

definition agents_table :: "table_item list" where
  "agents_table =
     [Column ''id'' UUID [Primary_Key, Server_Default ''gen_random_uuid()''],
      Column ''tenant_id'' UUID
        [Nullable False, Server_Default (quoted SCHEMA_TENANT_ID @ ''::uuid'')],
      Column ''name'' TEXT [Nullable False],
      Column ''model'' TEXT [Nullable False],
      Column ''framework'' TEXT [Nullable False, Server_Default (quoted ''vanilla'')],
      Column ''system_prompt'' TEXT [Nullable True],
      Column ''tools'' JSONB [Nullable False, Server_Default (quoted ''[]'' @ ''::jsonb'')],
      Column ''sandbox_recipe'' JSONB [Nullable True],
      Column ''created_at'' TIMESTAMPTZ [Nullable False, Server_Default ''NOW()'']]"

definition sessions_table :: "table_item list" where
  "sessions_table =
     [Column ''id'' UUID [Primary_Key, Server_Default ''gen_random_uuid()''],
      Column ''tenant_id'' UUID
        [Nullable False, Server_Default (quoted SCHEMA_TENANT_ID @ ''::uuid'')],
      Column ''agent_id'' UUID [Foreign_Key ''agents.id'' RESTRICT, Nullable False],
      Column ''status'' TEXT [Nullable False, Server_Default (quoted ''active'')],
      Column ''last_sequence'' INTEGER [Nullable False, Server_Default ''0''],
      Column ''metadata'' JSONB [Nullable False, Server_Default (quoted ''{}'' @ ''::jsonb'')],
      Column ''created_at'' TIMESTAMPTZ [Nullable False, Server_Default ''NOW()''],
      Column ''updated_at'' TIMESTAMPTZ [Nullable False, Server_Default ''NOW()'']]"

definition events_table :: "table_item list" where
  "events_table =
     [Column ''id'' UUID [Nullable False],
      Column ''session_id'' UUID [Foreign_Key ''sessions.id'' CASCADE, Nullable False],
      Column ''sequence'' INTEGER [Nullable False],
      Column ''type'' TEXT [Nullable False],
      Column ''payload'' JSONB [Nullable False],
      Column ''created_at'' TIMESTAMPTZ [Nullable False, Server_Default ''NOW()''],
      PrimaryKeyConstraint [''session_id'', ''id''] ''pk_events'',
      UniqueConstraint [''session_id'', ''sequence''] ''uq_events_session_sequence'',
      Index ''idx_events_session_seq'' [''session_id'', ''sequence''],
      Index ''idx_events_session_type_seq'' [''session_id'', ''type'', ''sequence''],
      Index ''idx_events_session_created'' [''session_id'', ''created_at'']]"

definition schema_metadata :: "(string \<times> table_item list) list" where
  "schema_metadata = [(''agents'', agents_table), (''sessions'', sessions_table), (''events'', events_table)]"

section \<open>The migrations\<close>

text \<open>An index key is a column or the text of a field of a JSON column; \<open>ix_where\<close> is the condition
  \<open>column ? key\<close> of a partial index.\<close>

datatype index_key = Whole string | Field_Text string string

record index_def =
  ix_name :: string
  ix_table :: string
  ix_unique :: bool
  ix_keys :: "index_key list"
  ix_where :: "(string \<times> string) option"

datatype statement =
    Create_Table string "table_item list"
  | Create_Index index_def
  | Drop_Index string bool
  | Drop_Table string

definition create_index :: "string \<Rightarrow> string \<Rightarrow> string list \<Rightarrow> statement" where
  "create_index name table columns =
     Create_Index \<lparr>ix_name = name, ix_table = table, ix_unique = False,
       ix_keys = map Whole columns, ix_where = None\<rparr>"

definition MIGRATION_TENANT :: string where
  "MIGRATION_TENANT = ''00000000-0000-0000-0000-000000000000''"

definition upgrade_0001 :: "statement list" where
  "upgrade_0001 =
     [Create_Table ''agents''
        [Column ''id'' UUID [Primary_Key, Server_Default ''gen_random_uuid()''],
         Column ''tenant_id'' UUID
           [Nullable False, Server_Default (quoted MIGRATION_TENANT @ ''::uuid'')],
         Column ''name'' TEXT [Nullable False],
         Column ''model'' TEXT [Nullable False],
         Column ''framework'' TEXT [Nullable False, Server_Default (quoted ''vanilla'')],
         Column ''system_prompt'' TEXT [Nullable True],
         Column ''tools'' JSONB [Nullable False, Server_Default (quoted ''[]'' @ ''::jsonb'')],
         Column ''sandbox_recipe'' JSONB [Nullable True],
         Column ''created_at'' TIMESTAMPTZ [Nullable False, Server_Default ''NOW()'']],
      Create_Table ''sessions''
        [Column ''id'' UUID [Primary_Key, Server_Default ''gen_random_uuid()''],
         Column ''tenant_id'' UUID
           [Nullable False, Server_Default (quoted MIGRATION_TENANT @ ''::uuid'')],
         Column ''agent_id'' UUID [Foreign_Key ''agents.id'' RESTRICT, Nullable False],
         Column ''status'' TEXT [Nullable False, Server_Default (quoted ''active'')],
         Column ''last_sequence'' INTEGER [Nullable False, Server_Default ''0''],
         Column ''metadata'' JSONB [Nullable False, Server_Default (quoted ''{}'' @ ''::jsonb'')],
         Column ''created_at'' TIMESTAMPTZ [Nullable False, Server_Default ''NOW()''],
         Column ''updated_at'' TIMESTAMPTZ [Nullable False, Server_Default ''NOW()'']],
      Create_Index \<lparr>ix_name = ''uq_sessions_request_id'', ix_table = ''sessions'', ix_unique = True,
         ix_keys = [Whole ''tenant_id'', Field_Text ''metadata'' ''request_id''],
         ix_where = Some (''metadata'', ''request_id'')\<rparr>,
      Create_Table ''events''
        [Column ''id'' UUID [Nullable False],
         Column ''session_id'' UUID [Foreign_Key ''sessions.id'' CASCADE, Nullable False],
         Column ''sequence'' INTEGER [Nullable False],
         Column ''type'' TEXT [Nullable False],
         Column ''payload'' JSONB [Nullable False],
         Column ''created_at'' TIMESTAMPTZ [Nullable False, Server_Default ''NOW()''],
         PrimaryKeyConstraint [''session_id'', ''id''] ''pk_events'',
         UniqueConstraint [''session_id'', ''sequence''] ''uq_events_session_sequence''],
      create_index ''idx_events_session_seq'' ''events'' [''session_id'', ''sequence''],
      create_index ''idx_events_session_type_seq'' ''events'' [''session_id'', ''type'', ''sequence''],
      create_index ''idx_events_session_created'' ''events'' [''session_id'', ''created_at'']]"

definition downgrade_0001 :: "statement list" where
  "downgrade_0001 =
     [Drop_Index ''idx_events_session_created'' False,
      Drop_Index ''idx_events_session_type_seq'' False,
      Drop_Index ''idx_events_session_seq'' False,
      Drop_Table ''events'',
      Drop_Index ''uq_sessions_request_id'' True,
      Drop_Table ''sessions'',
      Drop_Table ''agents'']"

record revision =
  rv_revision :: string
  rv_down_revision :: "string option"
  rv_upgrade :: "statement list"
  rv_downgrade :: "statement list"

definition baseline :: revision where
  "baseline = \<lparr>rv_revision = ''0000_baseline'', rv_down_revision = None, rv_upgrade = [],
     rv_downgrade = []\<rparr>"

definition initial_schema :: revision where
  "initial_schema = \<lparr>rv_revision = ''0001_initial_schema'', rv_down_revision = Some ''0000_baseline'',
     rv_upgrade = upgrade_0001, rv_downgrade = downgrade_0001\<rparr>"


text \<open>\<open>make_engine\<close>, and the URL the migration environment runs on: one that is already configured
  wins over the environment variable.\<close>

definition make_engine :: "(string \<Rightarrow> exn + 'e) \<Rightarrow> string \<Rightarrow> exn + 'e" where
  "make_engine create_engine database_url =
     (if database_url = []
      then Inl (Exn ''ValueError'' ''database_url must be a non-empty SQLAlchemy URL'')
      else create_engine database_url)"

definition migration_url :: "string \<Rightarrow> environ \<Rightarrow> string" where
  "migration_url configured E =
     (if configured \<noteq> [] then configured
      else case map_of E DATABASE_URL_ENV of None \<Rightarrow> [] | Some u \<Rightarrow> u)"

section \<open>Catalogues\<close>

record column =
  co_name :: string
  co_type :: sql_type
  co_nullable :: bool
  co_default :: "string option"
  co_references :: "(string \<times> string \<times> on_delete) option"

record table =
  tb_name :: string
  tb_columns :: "column list"
  tb_primary_key :: "string list"
  tb_unique :: "string list list"
  tb_constraints :: "string list"

record catalogue =
  cat_tables :: "table list"
  cat_indexes :: "index_def list"

definition column_of :: "string \<Rightarrow> sql_type \<Rightarrow> column_option list \<Rightarrow> column" where
  "column_of name type opts =
     \<lparr>co_name = name, co_type = type,
      co_nullable = (case [b. Nullable b \<leftarrow> opts] of b # _ \<Rightarrow> b | [] \<Rightarrow> Primary_Key \<notin> set opts),
      co_default = (case [d. Server_Default d \<leftarrow> opts] of d # _ \<Rightarrow> Some d | [] \<Rightarrow> None),
      co_references =
        (case [(takeWhile (\<lambda>c. c \<noteq> CHR ''.'') t, tl (dropWhile (\<lambda>c. c \<noteq> CHR ''.'') t), a).
               Foreign_Key t a \<leftarrow> opts] of r # _ \<Rightarrow> Some r | [] \<Rightarrow> None)\<rparr>"

definition table_of :: "string \<Rightarrow> table_item list \<Rightarrow> table" where
  "table_of name items =
     \<lparr>tb_name = name, tb_columns = [column_of n t opts. Column n t opts \<leftarrow> items],
      tb_primary_key = [n. Column n t opts \<leftarrow> items, Primary_Key \<in> set opts]
        @ concat [cs. PrimaryKeyConstraint cs n \<leftarrow> items],
      tb_unique = [cs. UniqueConstraint cs n \<leftarrow> items],
      tb_constraints = [n. PrimaryKeyConstraint cs n \<leftarrow> items] @ [n. UniqueConstraint cs n \<leftarrow> items]\<rparr>"

text \<open>Tables, indexes and the indexes behind named constraints share one name space.\<close>

definition table_names :: "table \<Rightarrow> string list" where
  "table_names T = tb_name T # tb_constraints T"

definition relation_names :: "catalogue \<Rightarrow> string list" where
  "relation_names cat = concat (map table_names (cat_tables cat)) @ map ix_name (cat_indexes cat)"

definition find_table :: "table list \<Rightarrow> string \<Rightarrow> table option" where
  "find_table ts name = find (\<lambda>T. tb_name T = name) ts"

text \<open>A foreign key refers to a column that is a key by itself.\<close>

definition key_column :: "table list \<Rightarrow> string \<Rightarrow> string \<Rightarrow> bool" where
  "key_column ts t c =
     (case find_table ts t of None \<Rightarrow> False | Some T \<Rightarrow> [c] \<in> set (tb_primary_key T # tb_unique T))"

definition references_ok :: "table list \<Rightarrow> table \<Rightarrow> bool" where
  "references_ok ts T = list_all (\<lambda>c. case co_references c of
     None \<Rightarrow> True | Some (t, k, _) \<Rightarrow> key_column ts t k) (tb_columns T)"

definition refers_to :: "string \<Rightarrow> table \<Rightarrow> bool" where
  "refers_to name T = list_ex (\<lambda>c. map_option fst (co_references c) = Some name) (tb_columns T)"

definition columns_exist :: "table \<Rightarrow> string list \<Rightarrow> bool" where
  "columns_exist T cs = list_all (\<lambda>c. c \<in> set (map co_name (tb_columns T))) cs"

fun key_source :: "index_key \<Rightarrow> string" where
  "key_source (Whole c) = c"
| "key_source (Field_Text c k) = c"

definition index_ok :: "table list \<Rightarrow> index_def \<Rightarrow> bool" where
  "index_ok ts i =
     (case find_table ts (ix_table i) of None \<Rightarrow> False
      | Some T \<Rightarrow> columns_exist T (map key_source (ix_keys i)
          @ (case ix_where i of None \<Rightarrow> [] | Some (c, _) \<Rightarrow> [c])))"

section \<open>Statements\<close>

datatype ddl_error =
    DuplicateRelation string
  | InvalidDefinition string
  | UndefinedRelation string
  | DependentObjectsStillExist string

text \<open>A new table may refer to itself.\<close>

fun run_statement :: "catalogue \<Rightarrow> statement \<Rightarrow> ddl_error + catalogue" where
  "run_statement cat (Create_Table name items) =
     (let T = table_of name items in
      if \<not> distinct (table_names T) \<or> list_ex (\<lambda>n. n \<in> set (relation_names cat)) (table_names T)
      then Inl (DuplicateRelation name)
      else if \<not> distinct (map co_name (tb_columns T))
           \<or> \<not> list_all (columns_exist T) (tb_primary_key T # tb_unique T)
           \<or> \<not> references_ok (cat_tables cat @ [T]) T
      then Inl (InvalidDefinition name)
      else Inr (cat\<lparr>cat_tables := cat_tables cat @ [T]\<rparr>))"
| "run_statement cat (Create_Index i) =
     (if ix_name i \<in> set (relation_names cat) then Inl (DuplicateRelation (ix_name i))
      else if \<not> index_ok (cat_tables cat) i then Inl (InvalidDefinition (ix_name i))
      else Inr (cat\<lparr>cat_indexes := cat_indexes cat @ [i]\<rparr>))"
| "run_statement cat (Drop_Index name if_exists) =
     (if name \<in> set (map ix_name (cat_indexes cat))
      then Inr (cat\<lparr>cat_indexes := filter (\<lambda>i. ix_name i \<noteq> name) (cat_indexes cat)\<rparr>)
      else if list_ex (\<lambda>T. name \<in> set (tb_constraints T)) (cat_tables cat)
      then Inl (DependentObjectsStillExist name)
      else if if_exists then Inr cat
      else Inl (UndefinedRelation name))"
| "run_statement cat (Drop_Table name) =
     (if find_table (cat_tables cat) name = None then Inl (UndefinedRelation name)
      else if list_ex (\<lambda>T. tb_name T \<noteq> name \<and> refers_to name T) (cat_tables cat)
      then Inl (DependentObjectsStillExist name)
      else Inr \<lparr>cat_tables = filter (\<lambda>T. tb_name T \<noteq> name) (cat_tables cat),
                cat_indexes = filter (\<lambda>i. ix_table i \<noteq> name) (cat_indexes cat)\<rparr>)"

text \<open>\<open>run_migrations\<close> runs in one transaction: the first statement that fails undoes all of it.\<close>

definition run_statements :: "statement list \<Rightarrow> catalogue \<Rightarrow> ddl_error + catalogue" where
  "run_statements ss cat = foldE run_statement cat ss"

definition empty_catalogue :: catalogue where
  "empty_catalogue = \<lparr>cat_tables = [], cat_indexes = []\<rparr>"

text \<open>The migrations in the order of their \<open>down_revision\<close> links, and the way back.\<close>

definition revisions :: "revision list" where
  "revisions = [baseline, initial_schema]"

definition upgrade_head :: "catalogue \<Rightarrow> ddl_error + catalogue" where
  "upgrade_head = run_statements (concat (map rv_upgrade revisions))"

definition downgrade_base :: "catalogue \<Rightarrow> ddl_error + catalogue" where
  "downgrade_base = run_statements (concat (map rv_downgrade (rev revisions)))"

text \<open>The metadata as statements, the way \<open>create_all\<close> issues them: each table with its indexes.\<close>

definition create_all :: "(string \<times> table_item list) list \<Rightarrow> statement list" where
  "create_all tables = concat (map (\<lambda>(t, items).
     Create_Table t items # [create_index n t cs. Index n cs \<leftarrow> items]) tables)"

lemma revision_chain:
  "map rv_down_revision revisions = None # map (Some \<circ> rv_revision) (butlast revisions)"
  by (simp add: revisions_def baseline_def initial_schema_def)


section \<open>Rows\<close>

datatype sql_value = NULL | Uuid uuid | Text string | Number int | Json json | Time int

type_synonym sql_row = "(string \<times> sql_value) list"

fun has_type :: "sql_type \<Rightarrow> sql_value \<Rightarrow> bool" where
  "has_type UUID (Uuid _) = True"
| "has_type TEXT (Text _) = True"
| "has_type INTEGER (Number n) = (- int4_max - 1 \<le> n \<and> n \<le> int4_max)"
| "has_type JSONB (Json _) = True"
| "has_type TIMESTAMPTZ (Time _) = True"
| "has_type _ _ = False"

definition cell :: "sql_row \<Rightarrow> string \<Rightarrow> sql_value" where
  "cell r c = (case map_of r c of None \<Rightarrow> NULL | Some v \<Rightarrow> v)"

fun key_value :: "sql_row \<Rightarrow> index_key \<Rightarrow> sql_value" where
  "key_value r (Whole c) = cell r c"
| "key_value r (Field_Text c k) =
     (case cell r c of
        Json (JObj d) \<Rightarrow> (case astext (dget d k) of None \<Rightarrow> NULL | Some t \<Rightarrow> Text t)
      | _ \<Rightarrow> NULL)"

text \<open>\<open>column ? key\<close>: a field of an object, an element of an array, or the string itself.\<close>

fun has_key :: "sql_value \<Rightarrow> string \<Rightarrow> bool" where
  "has_key (Json (JObj d)) k = (map_of d k \<noteq> None)"
| "has_key (Json (JList xs)) k = (JStr k \<in> set xs)"
| "has_key (Json (JStr s)) k = (s = k)"
| "has_key _ _ = False"

definition indexed :: "(string \<times> string) option \<Rightarrow> sql_row \<Rightarrow> bool" where
  "indexed cond r = (case cond of None \<Rightarrow> True | Some (c, k) \<Rightarrow> has_key (cell r c) k)"

text \<open>Two rows agree on a key when no part of it is \<open>NULL\<close> and all parts are equal.\<close>

definition agree :: "sql_row \<Rightarrow> sql_row \<Rightarrow> index_key list \<Rightarrow> bool" where
  "agree r r' ks = list_all (\<lambda>k. key_value r k \<noteq> NULL \<and> key_value r k = key_value r' k) ks"

definition unique_keys :: "catalogue \<Rightarrow> table \<Rightarrow> (index_key list \<times> (string \<times> string) option) list" where
  "unique_keys cat T =
     map (\<lambda>cs. (map Whole cs, None)) (tb_primary_key T # tb_unique T)
     @ [(ix_keys i, ix_where i). i \<leftarrow> cat_indexes cat, ix_unique i \<and> ix_table i = tb_name T]"

definition violates :: "index_key list \<times> (string \<times> string) option \<Rightarrow> sql_row \<Rightarrow> sql_row list \<Rightarrow> bool" where
  "violates u r rows =
     (indexed (snd u) r \<and> list_ex (\<lambda>r'. indexed (snd u) r' \<and> agree r r' (fst u)) rows)"

definition cell_ok :: "table \<Rightarrow> sql_row \<Rightarrow> column \<Rightarrow> bool" where
  "cell_ok T r c =
     (if cell r (co_name c) = NULL then co_nullable c \<and> co_name c \<notin> set (tb_primary_key T)
      else has_type (co_type c) (cell r (co_name c)))"

definition reference_held :: "(string \<Rightarrow> sql_row list) \<Rightarrow> sql_row \<Rightarrow> column \<Rightarrow> bool" where
  "reference_held rows r c =
     (case co_references c of
        None \<Rightarrow> True
      | Some (t, k, _) \<Rightarrow> cell r (co_name c) = NULL
          \<or> list_ex (\<lambda>r'. cell r' k = cell r (co_name c)) (rows t))"

text \<open>Whether an insert of a full row succeeds, and whether a delete is refused.\<close>

definition accepts :: "catalogue \<Rightarrow> (string \<Rightarrow> sql_row list) \<Rightarrow> string \<Rightarrow> sql_row \<Rightarrow> bool" where
  "accepts cat rows t r =
     (case find_table (cat_tables cat) t of
        None \<Rightarrow> False
      | Some T \<Rightarrow> map fst r = map co_name (tb_columns T)
          \<and> list_all (cell_ok T r) (tb_columns T)
          \<and> \<not> list_ex (\<lambda>u. violates u r (rows t)) (unique_keys cat T)
          \<and> list_all (reference_held rows r) (tb_columns T))"

definition restricted :: "catalogue \<Rightarrow> (string \<Rightarrow> sql_row list) \<Rightarrow> string \<Rightarrow> sql_row \<Rightarrow> bool" where
  "restricted cat rows t r =
     list_ex (\<lambda>T. list_ex (\<lambda>c. case co_references c of
         Some (t', k, RESTRICT) \<Rightarrow> t' = t \<and> cell r k \<noteq> NULL
           \<and> list_ex (\<lambda>r'. cell r' (co_name c) = cell r k) (rows (tb_name T))
       | _ \<Rightarrow> False) (tb_columns T)) (cat_tables cat)"

section \<open>The rows of the model's tables\<close>

definition agent_cells :: "agent \<Rightarrow> sql_row" where
  "agent_cells a =
     [(''id'', Uuid (ag_id a)), (''tenant_id'', Uuid (ag_tenant a)), (''name'', Text (ag_name a)),
      (''model'', Text (ag_model a)), (''framework'', Text (ag_framework a)),
      (''system_prompt'', case ag_system_prompt a of None \<Rightarrow> NULL | Some p \<Rightarrow> Text p),
      (''tools'', Json (JList (map JStr (ag_tools a)))),
      (''sandbox_recipe'', case ag_sandbox_recipe a of None \<Rightarrow> NULL | Some d \<Rightarrow> Json (JObj d)),
      (''created_at'', Time (ag_created_at a))]"

definition session_cells :: "session_row \<Rightarrow> sql_row" where
  "session_cells r =
     [(''id'', Uuid (s_id r)), (''tenant_id'', Uuid (s_tenant_id r)), (''agent_id'', Uuid (s_agent_id r)),
      (''status'', Text (s_status r)), (''last_sequence'', Number (s_last_sequence r)),
      (''metadata'', Json (JObj (s_metadata r))), (''created_at'', Time (s_created_at r)),
      (''updated_at'', Time (s_updated_at r))]"

definition event_cells :: "event_row \<Rightarrow> sql_row" where
  "event_cells r =
     [(''id'', Uuid (e_id r)), (''session_id'', Uuid (e_session_id r)),
      (''sequence'', Number (e_sequence r)), (''type'', Text (e_type r)),
      (''payload'', Json (JObj (e_payload r))), (''created_at'', Time (e_created_at r))]"

definition db_rows :: "db \<Rightarrow> string \<Rightarrow> sql_row list" where
  "db_rows d t =
     (if t = ''agents'' then map agent_cells (agents d)
      else if t = ''sessions'' then map session_cells (sessions d)
      else if t = ''events'' then map event_cells (events d)
      else [])"

section \<open>The migrated catalogue\<close>

definition migrated :: catalogue where
  "migrated =
     \<lparr>cat_tables = map (\<lambda>(t, items). table_of t items) schema_metadata,
      cat_indexes =
        \<lparr>ix_name = ''uq_sessions_request_id'', ix_table = ''sessions'', ix_unique = True,
         ix_keys = [Whole ''tenant_id'', Field_Text ''metadata'' ''request_id''],
         ix_where = Some (''metadata'', ''request_id'')\<rparr>
        # [i. (t, items) \<leftarrow> schema_metadata, Index n cs \<leftarrow> items,
            i \<leftarrow> [\<lparr>ix_name = n, ix_table = t, ix_unique = False, ix_keys = map Whole cs, ix_where = None\<rparr>]]\<rparr>"

lemma upgrade_migrated: "upgrade_head empty_catalogue = Inr migrated"
  by code_simp


section \<open>Going back\<close>

text \<open>A catalogue whose names are distinct and whose foreign keys and indexes lead somewhere.\<close>

definition catalogue_ok :: "catalogue \<Rightarrow> bool" where
  "catalogue_ok cat \<longleftrightarrow> distinct (relation_names cat)
     \<and> (\<forall>T \<in> set (cat_tables cat). references_ok (cat_tables cat) T)
     \<and> (\<forall>i \<in> set (cat_indexes cat). find_table (cat_tables cat) (ix_table i) \<noteq> None)"

fun undoes :: "statement \<Rightarrow> statement \<Rightarrow> bool" where
  "undoes (Drop_Table t) (Create_Table t' items) = (t = t')"
| "undoes (Drop_Index n if_exists) (Create_Index i) = (n = ix_name i)"
| "undoes _ _ = False"

lemma find_table_None: "find_table ts n = None \<longleftrightarrow> n \<notin> tb_name ` set ts"
  by (auto simp: find_table_def find_None_iff)

lemma find_table_append:
  "find_table (ts @ us) n = (case find_table ts n of None \<Rightarrow> find_table us n | Some T \<Rightarrow> Some T)"
  by (simp add: find_table_def find_append split: option.split)

lemma key_column_append: "key_column ts t c \<Longrightarrow> key_column (ts @ us) t c"
  by (auto simp: key_column_def find_table_append split: option.splits)

lemma references_append: "references_ok ts T \<Longrightarrow> references_ok (ts @ us) T"
  by (fastforce simp: references_ok_def list_all_iff key_column_append split: option.splits prod.splits)

lemma key_column_known: "key_column ts t c \<Longrightarrow> t \<in> tb_name ` set ts"
  using find_table_None[of ts t] by (auto simp: key_column_def split: option.splits)

lemma references_known:
  assumes "references_ok ts T" and "refers_to n T"
  shows "n \<in> tb_name ` set ts"
proof -
  obtain c k a where "c \<in> set (tb_columns T)" "co_references c = Some (n, k, a)"
    using assms(2) by (auto simp: refers_to_def list_ex_iff)
  with assms(1) show ?thesis using key_column_known by (fastforce simp: references_ok_def list_all_iff)
qed

lemma tables_named: "n \<in> tb_name ` set (cat_tables cat) \<Longrightarrow> n \<in> set (relation_names cat)"
  by (auto simp: relation_names_def table_names_def)

lemma indexes_named: "i \<in> set (cat_indexes cat) \<Longrightarrow> ix_name i \<in> set (relation_names cat)"
  by (auto simp: relation_names_def)

lemma create_table_Inr [returns_iff]:
  "run_statement cat (Create_Table n items) = Inr cat' \<longleftrightarrow>
     distinct (table_names (table_of n items))
     \<and> set (table_names (table_of n items)) \<inter> set (relation_names cat) = {}
     \<and> distinct (map co_name (tb_columns (table_of n items)))
     \<and> list_all (columns_exist (table_of n items))
         (tb_primary_key (table_of n items) # tb_unique (table_of n items))
     \<and> references_ok (cat_tables cat @ [table_of n items]) (table_of n items)
     \<and> cat' = cat\<lparr>cat_tables := cat_tables cat @ [table_of n items]\<rparr>"
  by (auto simp: Let_def list_ex_iff)

lemma create_index_Inr [returns_iff]:
  "run_statement cat (Create_Index i) = Inr cat' \<longleftrightarrow>
     ix_name i \<notin> set (relation_names cat) \<and> index_ok (cat_tables cat) i
     \<and> cat' = cat\<lparr>cat_indexes := cat_indexes cat @ [i]\<rparr>"
  by auto

lemma table_of_name [simp]: "tb_name (table_of n items) = n"
  by (simp add: table_of_def)

text \<open>Creating keeps a catalogue well formed, and dropping what was created gives it back.\<close>

lemma create_table_ok:
  assumes "catalogue_ok cat" and "run_statement cat (Create_Table n items) = Inr cat'"
  shows "catalogue_ok cat' \<and> run_statement cat' (Drop_Table n) = Inr cat"
proof
  let ?T = "table_of n items"
  from assms(2) have T: "distinct (table_names ?T)" "set (table_names ?T) \<inter> set (relation_names cat) = {}"
    "references_ok (cat_tables cat @ [?T]) ?T" and cat': "cat' = cat\<lparr>cat_tables := cat_tables cat @ [?T]\<rparr>"
    by (simp_all only: create_table_Inr)
  have n: "n \<notin> set (relation_names cat)" using T(2) by (auto simp: table_names_def)
  show "catalogue_ok cat'"
    using assms(1) T unfolding cat' catalogue_ok_def
    by (auto simp: relation_names_def find_table_append intro: references_append split: option.splits)
  have others: "\<not> refers_to n T" if "T \<in> set (cat_tables cat)" for T
    using that assms(1) n references_known tables_named by (fastforce simp: catalogue_ok_def)
  have here: "tb_name T \<noteq> n" if "T \<in> set (cat_tables cat)" for T
    using that n tables_named by blast
  have idx: "ix_table i \<noteq> n" if "i \<in> set (cat_indexes cat)" for i
    using that assms(1) n tables_named by (force simp: catalogue_ok_def find_table_None)
  have "filter (\<lambda>T. tb_name T \<noteq> n) (cat_tables cat) = cat_tables cat"
    "filter (\<lambda>i. ix_table i \<noteq> n) (cat_indexes cat) = cat_indexes cat"
    using here idx by (simp_all add: filter_id_conv)
  then show "run_statement cat' (Drop_Table n) = Inr cat"
    using others by (auto simp: cat' find_table_None list_ex_iff)
qed

lemma create_index_ok:
  assumes "catalogue_ok cat" and "run_statement cat (Create_Index i) = Inr cat'"
  shows "catalogue_ok cat' \<and> run_statement cat' (Drop_Index (ix_name i) b) = Inr cat"
proof
  from assms(2) have i: "ix_name i \<notin> set (relation_names cat)" "index_ok (cat_tables cat) i"
    and cat': "cat' = cat\<lparr>cat_indexes := cat_indexes cat @ [i]\<rparr>"
    unfolding create_index_Inr by blast+
  show "catalogue_ok cat'"
    using assms(1) i unfolding cat' catalogue_ok_def
    by (auto simp: relation_names_def index_ok_def split: option.splits)
  have "filter (\<lambda>j. ix_name j \<noteq> ix_name i) (cat_indexes cat) = cat_indexes cat"
    using i(1) indexes_named by (force simp: filter_id_conv)
  then show "run_statement cat' (Drop_Index (ix_name i) b) = Inr cat" by (simp add: cat')
qed

lemma run_undo:
  assumes "list_all2 undoes (rev downs) ups" and "catalogue_ok cat" and "run_statements ups cat = Inr cat'"
  shows "run_statements downs cat' = Inr cat"
  using assms
proof (induction ups arbitrary: downs cat rule: list.induct)
  case Nil
  then show ?case by (auto simp: run_statements_def)
next
  case (Cons s ups)
  from Cons.prems(1) obtain us u where rev: "rev downs = u # us" and u: "undoes u s" and us: "list_all2 undoes us ups"
    by (auto simp: list_all2_Cons2)
  then have downs: "downs = rev us @ [u]" by (metis rev_eq_Cons_iff)
  from Cons.prems(3) obtain c1 where c1: "run_statement cat s = Inr c1" "run_statements ups c1 = Inr cat'"
    by (auto simp: run_statements_def bindE_Inr)
  have undone: "catalogue_ok c1 \<and> run_statement c1 u = Inr cat"
    using u c1(1) create_table_ok[OF Cons.prems(2)] create_index_ok[OF Cons.prems(2)]
    by (cases u; cases s) (auto simp del: run_statement.simps)
  with Cons.IH[of "rev us" c1] us c1(2) have "run_statements (rev us) cat' = Inr c1" by simp
  with undone show ?case by (simp add: downs run_statements_def foldE_append)
qed

text \<open>C19. Migrating to the head and back restores any well-formed database schema, whatever other
  tables it has: the statements of the downgrade undo those of the upgrade in reverse order.\<close>

theorem migration_round_trip:
  assumes "catalogue_ok cat" and "upgrade_head cat = Inr cat'"
  shows "downgrade_base cat' = Inr cat"
proof -
  have "list_all2 undoes (rev (concat (map rv_downgrade (rev revisions)))) (concat (map rv_upgrade revisions))"
    by code_simp
  from run_undo[OF this assms(1)] assms(2) show ?thesis
    by (simp add: upgrade_head_def downgrade_base_def)
qed


section \<open>What the store enforces\<close>

text \<open>The three tables, evaluated.\<close>

lemma migrated_tables:
  "cat_tables migrated = [table_of ''agents'' agents_table, table_of ''sessions'' sessions_table,
     table_of ''events'' events_table]"
  by (simp add: migrated_def schema_metadata_def)

lemma find_migrated:
  "find_table (cat_tables migrated) ''agents'' = Some (table_of ''agents'' agents_table)"
  "find_table (cat_tables migrated) ''sessions'' = Some (table_of ''sessions'' sessions_table)"
  "find_table (cat_tables migrated) ''events'' = Some (table_of ''events'' events_table)"
  by (simp_all add: migrated_tables find_table_def)

lemma migrated_keys:
  "unique_keys migrated (table_of ''agents'' agents_table) = [([Whole ''id''], None)]"
  "unique_keys migrated (table_of ''sessions'' sessions_table) =
     [([Whole ''id''], None),
      ([Whole ''tenant_id'', Field_Text ''metadata'' ''request_id''], Some (''metadata'', ''request_id''))]"
  "unique_keys migrated (table_of ''events'' events_table) =
     [([Whole ''session_id'', Whole ''id''], None), ([Whole ''session_id'', Whole ''sequence''], None)]"
  by code_simp+

lemma accepts_agent:
  "accepts migrated (db_rows d) ''agents'' (agent_cells a) \<longleftrightarrow> \<not> has_agent d (ag_id a)"
  by (simp add: accepts_def find_migrated migrated_keys)
    (auto simp: table_of_def agents_table_def column_of_def agent_cells_def cell_ok_def cell_def
      violates_def indexed_def agree_def reference_held_def db_rows_def has_agent_def list_ex_iff
      split: option.splits)

lemma session_unknown: "session_row_of d i = None \<longleftrightarrow> \<not> list_ex (\<lambda>r. s_id r = i) (sessions d)"
  by (auto simp: session_row_of_def find_None_iff list_ex_iff)

lemma accepts_event:
  "accepts migrated (db_rows d) ''events'' (event_cells r) \<longleftrightarrow>
     - int4_max - 1 \<le> e_sequence r \<and> e_sequence r \<le> int4_max
     \<and> \<not> event_key_taken d (e_session_id r) (e_id r) (e_sequence r)
     \<and> session_row_of d (e_session_id r) \<noteq> None"
  by (simp add: accepts_def find_migrated migrated_keys session_unknown del: not_None_eq)
    (auto simp: table_of_def events_table_def column_of_def event_cells_def session_cells_def
      cell_ok_def cell_def violates_def indexed_def agree_def reference_held_def db_rows_def
      event_key_taken_def list_ex_iff)

text \<open>The partial index on the request id.\<close>

lemma session_key:
  "key_value (session_cells r) (Field_Text ''metadata'' ''request_id'') =
     (case request_id_text (s_metadata r) of None \<Rightarrow> NULL | Some t \<Rightarrow> Text t)"
  "key_value (session_cells r) (Whole ''tenant_id'') = Uuid (s_tenant_id r)"
  "request_id_text (s_metadata r) = Some t \<Longrightarrow>
     indexed (Some (''metadata'', ''request_id'')) (session_cells r)"
  by (auto simp: session_cells_def cell_def request_id_text_def indexed_def dget_def split: option.splits)

lemma violates_request_id:
  "violates ([Whole ''tenant_id'', Field_Text ''metadata'' ''request_id''], Some (''metadata'', ''request_id''))
       (session_cells r) (map session_cells (sessions d))
     \<longleftrightarrow> request_id_taken d (s_tenant_id r) (s_metadata r)"
proof (cases "request_id_text (s_metadata r)")
  case None
  then show ?thesis
    by (simp add: violates_def agree_def session_key(1,2) request_id_taken_def list_ex_iff del: key_value.simps)
next
  case (Some t)
  have "indexed (Some (''metadata'', ''request_id'')) (session_cells r')
      \<and> agree (session_cells r) (session_cells r') [Whole ''tenant_id'', Field_Text ''metadata'' ''request_id'']
    \<longleftrightarrow> s_tenant_id r' = s_tenant_id r \<and> request_id_text (s_metadata r') = Some t" for r'
    using session_key(3)[of r' t] Some
    by (auto simp: agree_def session_key(1,2) simp del: key_value.simps split: option.splits)
  then show ?thesis
    using session_key(3)[OF Some] by (simp add: violates_def request_id_taken_def Some list_ex_iff)
qed

lemma accepts_session:
  "accepts migrated (db_rows d) ''sessions'' (session_cells r) \<longleftrightarrow>
     - int4_max - 1 \<le> s_last_sequence r \<and> s_last_sequence r \<le> int4_max
     \<and> session_row_of d (s_id r) = None \<and> has_agent d (s_agent_id r)
     \<and> \<not> request_id_taken d (s_tenant_id r) (s_metadata r)"
proof -
  have rows: "db_rows d ''sessions'' = map session_cells (sessions d)"
    "db_rows d ''agents'' = map agent_cells (agents d)" by (simp_all add: db_rows_def)
  have id: "violates ([Whole ''id''], None) (session_cells r) (map session_cells (sessions d))
      \<longleftrightarrow> session_row_of d (s_id r) \<noteq> None"
    by (simp add: violates_def indexed_def agree_def session_cells_def cell_def session_unknown
        list_ex_iff del: not_None_eq) metis
  have cells: "list_all (cell_ok (table_of ''sessions'' sessions_table) (session_cells r))
        (tb_columns (table_of ''sessions'' sessions_table))
      \<longleftrightarrow> - int4_max - 1 \<le> s_last_sequence r \<and> s_last_sequence r \<le> int4_max"
    "map fst (session_cells r) = map co_name (tb_columns (table_of ''sessions'' sessions_table))"
    by (simp_all add: table_of_def sessions_table_def column_of_def cell_ok_def session_cells_def cell_def)
  have refs: "list_all (reference_held (db_rows d) (session_cells r))
        (tb_columns (table_of ''sessions'' sessions_table)) \<longleftrightarrow> has_agent d (s_agent_id r)"
    by (auto simp: table_of_def sessions_table_def column_of_def reference_held_def rows
        session_cells_def agent_cells_def cell_def has_agent_def list_ex_iff)
  show ?thesis
    by (simp add: accepts_def find_migrated migrated_keys rows(1) id cells refs violates_request_id
        del: not_None_eq) blast
qed

lemma restricted_agent:
  "restricted migrated (db_rows d) ''agents'' (agent_cells a) \<longleftrightarrow>
     list_ex (\<lambda>r. s_agent_id r = ag_id a) (sessions d)"
  by (auto simp: restricted_def migrated_tables table_of_def agents_table_def sessions_table_def
      events_table_def column_of_def agent_cells_def session_cells_def cell_def db_rows_def list_ex_iff)


text \<open>The metadata and the migrations declare the same tables; of the indexes, the metadata lacks the
  partial unique index on the request id.\<close>

theorem metadata_lacks_request_index:
  assumes "upgrade_head empty_catalogue = Inr cat"
    and "run_statements (create_all schema_metadata) empty_catalogue = Inr declared"
  shows "cat_tables declared = cat_tables cat
    \<and> map ix_name (cat_indexes cat) = ''uq_sessions_request_id'' # map ix_name (cat_indexes declared)"
proof -
  have "run_statements (create_all schema_metadata) empty_catalogue
      = Inr (migrated\<lparr>cat_indexes := tl (cat_indexes migrated)\<rparr>)" by code_simp
  moreover have "map ix_name (cat_indexes migrated)
      = ''uq_sessions_request_id'' # map ix_name (tl (cat_indexes migrated))" by code_simp
  ultimately show ?thesis using assms upgrade_migrated by simp
qed

end
