(* ===== verification/Examples_Runs.thy ===== *)
theory Examples_Runs
  imports Examples_Client Benchmark Db_Schema
begin

text \<open>A schema with a table of another application, and a benchmark task of two prompts answered by a
  model that always says the same.\<close>

section \<open>Schema\<close>

definition shared_catalogue :: catalogue where
  "shared_catalogue =
     \<lparr>cat_tables = [table_of ''users'' [Column ''id'' UUID [Primary_Key], Column ''name'' TEXT []]],
      cat_indexes = [\<lparr>ix_name = ''users_by_name'', ix_table = ''users'', ix_unique = True,
        ix_keys = [Whole ''name''], ix_where = None\<rparr>]\<rparr>"

definition shared_migrated :: catalogue where
  "shared_migrated = (case upgrade_head shared_catalogue of Inr c \<Rightarrow> c | Inl _ \<Rightarrow> shared_catalogue)"

theorem migration_round_trip_witness:
  "upgrade_head shared_catalogue = Inr shared_migrated
    \<and> downgrade_base shared_migrated = Inr shared_catalogue"
proof
  have "is_return (upgrade_head shared_catalogue)" by code_simp
  then show up: "upgrade_head shared_catalogue = Inr shared_migrated"
    by (auto simp: shared_migrated_def is_return_iff)
  have "catalogue_ok shared_catalogue" by code_simp
  from migration_round_trip[OF this up] show "downgrade_base shared_migrated = Inr shared_catalogue" .
qed


section \<open>A benchmark run\<close>

definition steady_harness :: "('b, script) harness" where
  "steady_harness =
     scripted_harness\<lparr>h_router := (\<lambda>rp ms tools w. (([text_delta ''ok''], None), (Suc (fst w), snd w)))\<rparr>"

definition two_prompts :: task where
  "two_prompts =
     \<lparr>tk_id = ''t-001'', tk_name = ''two'', tk_description = [], tk_system_prompt = ''be brief'',
      tk_framework = ''vanilla'', tk_tools = [], tk_sandbox_recipe = None,
      tk_prompts = [JStr ''hi'', JStr ''and now?''], tk_max_turns = 10, tk_pass_criteria = [],
      tk_notes = JNull\<rparr>"

abbreviation bench_run :: "(exn + uuid \<times> uuid \<times> event list) \<times> ((string, tree) docker, script) run_state" where
  "bench_run \<equiv> run_body steady_harness two_prompts ''m'' run_start"

definition bench_events :: "event list" where
  "bench_events = (case fst bench_run of Inr (_, _, es) \<Rightarrow> es | Inl _ \<Rightarrow> [])"

lemma bench_returns:
  "case bench_run of (r, s') \<Rightarrow>
     (case r of Inr (sid, aid, es) \<Rightarrow> sid = 1001 \<and> aid = 1000 | Inl _ \<Rightarrow> False)
     \<and> length (session_log (rt_db s') 1001) \<le> 10000"
  by code_simp

lemma bench_fresh:
  "fresh_prompts steady_harness 1001 (tk_prompts two_prompts)
     (snd (open_session steady_harness 1000 (snd (insert_agent steady_harness two_prompts ''m'' run_start))))"
  by code_simp

theorem benchmark_asks_every_prompt_witness:
  "map ev_payload (filter (\<lambda>e. ev_type e = USER_MESSAGE) bench_events)
    = [[(''content'', JStr ''hi'')], [(''content'', JStr ''and now?'')]]"
proof -
  have "bench_run = (Inr (1001, 1000, bench_events), snd bench_run)"
    using bench_returns by (auto simp: bench_events_def prod_eq_iff split: sum.splits prod.splits)
  moreover have "length (session_log (rt_db (snd bench_run)) 1001) \<le> 10000"
    using bench_returns by (auto split: prod.splits)
  ultimately show ?thesis using benchmark_asks_every_prompt[OF _ start_ok bench_fresh]
    by (simp add: two_prompts_def)
qed

section \<open>The command\<close>

definition task_document :: json where
  "task_document =
     JObj [(''id'', JStr ''t-001''), (''agent'', JObj [(''tools'', JList [])]),
           (''prompts'', JStr ''hi''), (''pass_criteria'', JList [JStr ''answers''])]"

definition sample_outside :: outside where
  "sample_outside =
     \<lparr>os_isoformat = (\<lambda>_. ''2026-04-16T00:00:00''), os_date = (\<lambda>_. ''2026-04-16''),
      os_rounded = (\<lambda>_. ''0.0''), os_tenths = (\<lambda>_. ''0.0''), os_write_error = (\<lambda>_. None),
      os_repr = exn_class, os_docs = (\<lambda>p. if p = ''tasks/t-001.yaml'' then Some (Inr task_document) else None),
      os_tasks_dir = ''tasks'', os_stems = [''t-001'']\<rparr>"

definition sample_args :: bench_args where
  "sample_args =
     \<lparr>ba_task = None, ba_profile = ''m'', ba_output_dir = ''results'', ba_skip_sandbox = True\<rparr>"

definition bench_start :: "(string, tree, little_world) bench" where
  "bench_start = \<lparr>bn_run = client_start, bn_files = [], bn_out = [], bn_err = []\<rparr>"

abbreviation bench_command :: "(exn + int) \<times> (string, tree, little_world) bench" where
  "bench_command \<equiv> main_async sample_outside sample_services [(ANTHROPIC_API_KEY_ENV, ''k'')]
     ''postgresql://db'' sample_args bench_start"

theorem benchmark_exit_honest_witness:
  "case fst bench_command of
      Inl e \<Rightarrow> \<exists>i. unreadable sample_outside i e
    | Inr code \<Rightarrow> \<exists>paths rs. length paths = length rs \<and> code = (if rs = [] then 1 else 0)
        \<and> bn_files (snd bench_command)
          = foldl (\<lambda>fs (p, r). AList.update p (report_payload r) fs) [] (zip paths rs)"
proof -
  have run: "bench_command = (fst bench_command, snd bench_command)" by simp
  have files: "bn_files bench_start = []" by (simp add: bench_start_def)
  have key: "(map_of [(ANTHROPIC_API_KEY_ENV, ''k'')] ANTHROPIC_API_KEY_ENV \<in> {None, Some []}) = False"
    by simp
  note honest = benchmark_exit_honest[OF run, unfolded key if_False files]
  show ?thesis
  proof (cases "fst bench_command")
    case (Inl e)
    with honest show ?thesis by (simp only: sum.case)
  next
    case (Inr code)
    with honest show ?thesis by (simp only: sum.case) blast
  qed
qed

lemma bench_task_read: "is_return (load_task (os_docs sample_outside) ''tasks'' ''t-001'')"
  by code_simp

end
