(* ===== verification/Spec2Isabelle.thy ===== *)
theory Spec2Isabelle
  imports
    Examples_Sessions
    Examples_Sandbox
    Examples_Vault
    Examples_Context
    Examples_Harness
    Examples_Provider
    Examples_Sdk
    Examples_Client
    Examples_Runs
begin

text \<open>
  Tename runs agents whose only memory is an append-only event log. This development models
  the runtime under \<open>src/src/tename\<close>, and the benchmark runner \<open>src/benchmarks/run.py\<close> on top of it.

  \<^bold>\<open>Parts and how they interact.\<close> A client (\<open>sdk\<close>) wires the parts together, creates agents and
  sessions, and streams the events of a session while the harness runs it. The harness
  (\<open>harness/service.py\<close>) wakes a session, folds its log into model messages with a framework
  adapter (\<open>harness/adapters\<close>), compacts the log when it outgrows the profile
  (\<open>harness/compaction.py\<close>, \<open>harness/profiles.py\<close>), streams one model turn through the router
  (\<open>router\<close>) and its provider, writes what the model said and did as events through the Session
  Service (\<open>sessions\<close>), dispatches tool calls to the sandbox (\<open>sandbox\<close>) or the tool proxy
  (\<open>proxy\<close>), which takes credentials from the vault (\<open>vault\<close>), and closes the session. The command
  line (\<open>cli\<close>) manages the vault and the database schema. No component keeps conversation state;
  everything is in the log.

  \<^bold>\<open>Theories.\<close>
  \<^item> \<open>Tename_Prelude\<close>, \<open>Python_Text\<close>, \<open>Uuid_Text\<close>, \<open>Json_Text\<close>, \<open>Json_Round_Trip\<close>, \<open>Doubles\<close>: results as
    sums, JSON values and dictionaries, the parts of Python's text, \<open>json\<close>, \<open>uuid\<close> and \<open>float\<close> the
    source uses; reading what \<open>json.dumps\<close> wrote gives the value back. \<open>Effects\<close>: programs that run
    in a state and may raise, with the rules for state properties they keep.
  \<^item> \<open>Session_Store\<close> (\<open>sessions/models.py\<close>, \<open>schema.py\<close>, \<open>store.py\<close>) and \<open>Session_Service\<close>
    (\<open>service.py\<close>): three tables as lists of rows with their constraints, each query and operation
    a function; \<open>service_ok\<close> is the invariant. \<open>Session_Spec\<close> states the abstract log and the
    interface \<open>append_only_store\<close>; \<open>Session_Runs\<close> interprets it and proves the properties of
    histories, idempotent creation and reads; \<open>Emit_Concurrency\<close> interleaves emitters statement
    by statement.
  \<^item> \<open>Router_Types\<close> (\<open>router/types.py\<close>), \<open>Profiles\<close>, \<open>Compaction\<close>, \<open>Vanilla_Adapter\<close>, \<open>Tool_Schemas\<close>,
    \<open>Adapters\<close>: one definition per function. \<open>Context_Turns\<close>: what a conversation is in the log and
    in a request, and that folding takes one to the other.
  \<^item> \<open>Anthropic_Provider\<close> (\<open>router/providers/anthropic.py\<close>): the request, the start of a stream with
    its retries, and the machine that turns the API's events into chunks. \<open>Anthropic_Facts\<close>: the
    contract of \<open>router/providers/base.py\<close> as the relation \<open>protocol\<close>, reassembled tool inputs,
    connections, the retry policy. \<open>Model_Router\<close> (\<open>router/service.py\<close>, \<open>pricing.py\<close>): dispatch, and
    the cost with a bound on its rounding. \<open>Wire_Request\<close>: no orphaned tool result in a request.
  \<^item> \<open>Sandbox_Service\<close> (\<open>sandbox/types.py\<close>, \<open>state_machine.py\<close>, \<open>base.py\<close>, \<open>service.py\<close>),
    \<open>Sandbox_Tools\<close> (\<open>sandbox/tools\<close>), \<open>Docker_Backend\<close> (\<open>sandbox/backends/docker.py\<close>): the service
    over any backend, the interface \<open>sandbox_backend\<close>, and its interpretation on Docker.
  \<^item> \<open>Registry\<close>: the interface \<open>name_registry\<close> of the two registries. \<open>Vault\<close>, \<open>Vault_Facts\<close>,
    \<open>Proxy\<close>: \<open>vault\<close>, \<open>proxy\<close>. \<open>Web_Search\<close> (\<open>proxy/tools/web_search.py\<close>): what the search tool sends
    and that the key reaches only the endpoint.
  \<^item> \<open>Harness\<close>: the loop over a \<open>run_state\<close> of database, sandbox, outside world and provisioned
    ids. \<open>Harness_Runs\<close>: the interfaces \<open>turn_invariant\<close> and \<open>loop_invariant\<close>, and the append-only
    property of a run; \<open>Harness_Facts\<close>: the bound on model calls; \<open>Harness_Outcomes\<close>: containers,
    closing, answers to tool calls, the system prompt. \<open>Log_Types\<close>: what each type of event
    carries; a run over the real router writes only such events and can always read them back.
  \<^item> \<open>Sdk_Agents\<close> (\<open>sdk/_config.py\<close>, \<open>agents.py\<close>, \<open>errors.py\<close>), \<open>Sdk_Sessions\<close> (\<open>sdk/sessions.py\<close>):
    settings, the agents table, and streaming by polling while others write. \<open>Sdk_Client\<close>
    (\<open>sdk/client.py\<close>, \<open>runtime.py\<close>): the wiring, what a run through it leaves behind, and the
    sub-clients, whose synchronous form answers as the asynchronous one does.
  \<^item> \<open>Db_Schema\<close> (\<open>sessions/schema.py\<close>, \<open>db\<close>): tables as the source declares them, the migrations as
    statements on a catalogue of tables and indexes, and the rows a catalogue accepts. The
    constraints the queries of \<open>Session_Store\<close> and \<open>Sdk_Agents\<close> write out are those of the migrated
    catalogue, and the downgrade undoes the upgrade.
  \<^item> \<open>Benchmark\<close> (\<open>benchmarks/run.py\<close>): a task read from YAML, a run per prompt in one session that is
    reactivated in between, counts, result files, the exit code. Its user messages are the
    prompts, because a run never writes one (\<open>Harness_Runs\<close>).
  \<^item> \<open>Cli\<close>, \<open>Cli_Facts\<close> (\<open>cli\<close>): the commands on a console of files, streams and environment; exit
    codes, secrets, the life of a credential.
  \<^item> \<open>Examples_*\<close>: concrete databases, vaults, containers, streams, clients, schemas, a benchmark task and a scripted model, at
    which the properties are applied.

  \<^bold>\<open>Parameters.\<close> What is not in the repository is an argument: the Docker SDK (\<open>docker_api\<close>), the
  Anthropic SDK (\<open>anthropic_api\<close>: the answer to a request is the list of events it delivers and
  how that ends), HTTP (\<open>http_post\<close>), alembic, Fernet, PBKDF2 and entropy (\<open>crypto\<close>), clocks and
  random ids, parsed YAML, pydantic's reading of a mapping into fields, and the spelling of a
  float in a payload. Assumptions on them are named (\<open>fernet_ok\<close>, \<open>fernet_authentic\<close>,
  \<open>serves_files\<close>, \<open>counts_calls\<close>, \<open>counts_connections\<close>, \<open>counts_live\<close>) and stated where they are used.

  \<^bold>\<open>Bounds and fuel.\<close> \<open>run_loop\<close> recurses on the turns left, which is \<open>max_turns\<close> itself, and
  \<open>open_attempts\<close> on the attempts left, so nothing is cut off. \<open>resolve\<close> of a profile terminates by
  the depth limit of the source. The JSON reader has fuel \<open>2 * length + 2\<close>; \<open>json_loads_fuel\<close>
  shows that this is enough. A polling stream is a list of rounds, of any length. Characters are
  the code points up to U+00FF; sequences are bounded by the 32-bit column.

  \<^bold>\<open>Not modelled.\<close> Logging and metrics; SQLAlchemy and the connection pools; the threads inside the
  background loop; the construction of the argparse parsers; the modes and temporary names of
  the vault file; the recursion limit of Python's JSON parser; what alembic does around a migration
  (its version table, autogeneration, offline mode); the grading script, which writes a fixed
  table of grades into files; the example programs, which call the SDK and print.
\<close>

end
